(* ===== verification/Prelude.thy ===== *)
theory Prelude
  imports Main "HOL-Library.Multiset" "HOL-Library.AList" "HOL-Library.State_Monad"
begin

text \<open>
  Shared vocabulary of the development: Go's fixed-width integers and division, durations and
  times, Go maps, and the slice idiom that removes one element.
\<close>

section \<open>Collections of facts\<close>

named_theorems go_int \<open>arithmetic of the fixed-width integers when nothing overflows\<close>
named_theorems emits_rules \<open>introduction rules of the trace calculus\<close>

section \<open>Fixed-width integers\<close>

text \<open>Go's \<open>int32\<close> and \<open>int64\<close> are modelled by \<open>int\<close> with the wrap-around written out.\<close>

definition int32 :: "int \<Rightarrow> int" where
  "int32 x = (x + 2 ^ 31) mod 2 ^ 32 - 2 ^ 31"

definition int64 :: "int \<Rightarrow> int" where
  "int64 x = (x + 2 ^ 63) mod 2 ^ 64 - 2 ^ 63"

definition MaxInt32 :: int where "MaxInt32 = 2147483647"

text \<open>Integer division of Go truncates towards zero.\<close>

definition go_div :: "int \<Rightarrow> int \<Rightarrow> int" where
  "go_div a b = sgn a * sgn b * (\<bar>a\<bar> div \<bar>b\<bar>)"

text \<open>\<open>math.Ceil(float64(a) / float64(b))\<close> for \<open>0 < b\<close> and operands a float64 holds exactly.\<close>

definition ceil_div :: "int \<Rightarrow> int \<Rightarrow> int" where
  "ceil_div a b = - ((- a) div b)"

lemma int32_id [go_int]: "- (2 ^ 31) \<le> x \<Longrightarrow> x < 2 ^ 31 \<Longrightarrow> int32 x = x"
  by (simp add: int32_def)

lemma int32_range: "- (2 ^ 31) \<le> int32 x" "int32 x < 2 ^ 31"
proof -
  have "0 \<le> (x + 2147483648) mod 4294967296" "(x + 2147483648) mod 4294967296 < 4294967296"
    by simp_all
  then show "- (2 ^ 31) \<le> int32 x" "int32 x < 2 ^ 31"
    by (simp_all add: int32_def del: pos_mod_bound pos_mod_sign)
qed

lemma int64_id [go_int]: "- (2 ^ 63) \<le> x \<Longrightarrow> x < 2 ^ 63 \<Longrightarrow> int64 x = x"
  by (simp add: int64_def)

lemma go_div_nonneg [go_int]: "0 \<le> a \<Longrightarrow> 0 < b \<Longrightarrow> go_div a b = a div b"
  by (cases "a = 0") (simp_all add: go_div_def)

lemma ceil_div_lower: "0 < b \<Longrightarrow> a \<le> ceil_div a b * b"
proof -
  assume "0 < b"
  then have "0 \<le> (- a) mod b" by simp
  moreover have "- a = (- a) div b * b + (- a) mod b" by simp
  ultimately show ?thesis unfolding ceil_div_def by linarith
qed

lemma ceil_div_upper: "0 < b \<Longrightarrow> ceil_div a b * b < a + b"
proof -
  assume b: "0 < b"
  have "- a = (- a) div b * b + (- a) mod b" by simp
  moreover have "(- a) mod b < b" using b by simp
  ultimately show ?thesis unfolding ceil_div_def by linarith
qed

lemma ceil_div_nonneg: "0 \<le> a \<Longrightarrow> 0 < b \<Longrightarrow> 0 \<le> ceil_div a b"
  by (simp add: ceil_div_def div_nonpos_pos_le0)

lemma ceil_div_le: "0 \<le> a \<Longrightarrow> 0 < b \<Longrightarrow> ceil_div a b \<le> a"
proof -
  assume a: "0 \<le> a" and b: "0 < b"
  show ?thesis
  proof (rule ccontr)
    assume "\<not> ceil_div a b \<le> a"
    then have "(a + 1) * b \<le> ceil_div a b * b"
      using b by (intro mult_right_mono) auto
    with ceil_div_upper [OF b, of a] have "a * b < a" by (simp add: algebra_simps)
    moreover have "a * 1 \<le> a * b" using a b by (intro mult_left_mono) auto
    ultimately show False by simp
  qed
qed

lemma ceil_div_least: "0 < b \<Longrightarrow> a \<le> k * b \<Longrightarrow> ceil_div a b \<le> k"
proof (rule ccontr)
  assume b: "0 < b" and k: "a \<le> k * b" and "\<not> ceil_div a b \<le> k"
  then have "(k + 1) * b \<le> ceil_div a b * b" by (intro mult_right_mono) auto
  with ceil_div_upper [OF b, of a] k show False by (simp add: algebra_simps)
qed

section \<open>Times and durations\<close>

text \<open>
  A \<open>time.Duration\<close> is an \<open>int64\<close> number of nanoseconds; a \<open>time.Time\<close> is the number of
  nanoseconds since Go's zero time (1 January of year 1, UTC), so the zero time is 0.
  \<open>t.Sub(u)\<close> saturates at the ends of \<open>int64\<close>.
\<close>

type_synonym duration = int
type_synonym time = int

definition zero_time :: time where "zero_time = 0"

definition second :: duration where "second = 1000000000"
definition minute :: duration where "minute = 60 * second"

definition time_sub :: "time \<Rightarrow> time \<Rightarrow> duration" where
  "time_sub t u = max (- (2 ^ 63)) (min (2 ^ 63 - 1) (t - u))"

lemma time_sub_less: "d \<le> 2 ^ 63 - 1 \<Longrightarrow> - (2 ^ 63) < d \<Longrightarrow> time_sub t u < d \<longleftrightarrow> t - u < d"
  by (auto simp: time_sub_def)

section \<open>Maps\<close>

text \<open>
  A Go map is \<open>None\<close> (nil) or \<open>Some\<close> of its entries; the order of the list is the order in
  which \<open>range\<close> happens to visit them. Reading a nil map finds nothing, and a missing key of a
  string map reads as the empty string.
\<close>

type_synonym ('k, 'v) gomap = "('k \<times> 'v) list option"
type_synonym strmap = "(string, string) gomap"

definition gm_entries :: "('k, 'v) gomap \<Rightarrow> ('k \<times> 'v) list" where
  "gm_entries m = (case m of None \<Rightarrow> [] | Some es \<Rightarrow> es)"

definition gm_lookup :: "('k, 'v) gomap \<Rightarrow> 'k \<Rightarrow> 'v option" where
  "gm_lookup m k = map_of (gm_entries m) k"

definition gm_get :: "strmap \<Rightarrow> string \<Rightarrow> string" where
  "gm_get m k = (case gm_lookup m k of None \<Rightarrow> '''' | Some v \<Rightarrow> v)"

text \<open>\<open>if m == nil \{ m = make(...) \}; m[k] = v\<close>\<close>

definition gm_put :: "'k \<Rightarrow> 'v \<Rightarrow> ('k, 'v) gomap \<Rightarrow> ('k, 'v) gomap" where
  "gm_put k v m = Some (AList.update k v (gm_entries m))"

text \<open>\<open>if m == nil \{ m = make(...) \}; maps.Copy(m, src)\<close>\<close>

definition gm_copy :: "('k, 'v) gomap \<Rightarrow> ('k, 'v) gomap \<Rightarrow> ('k, 'v) gomap" where
  "gm_copy m src = Some (foldl (\<lambda>d (k, v). AList.update k v d) (gm_entries m) (gm_entries src))"

lemma gm_entries_simps [simp]: "gm_entries None = []" "gm_entries (Some es) = es"
  by (simp_all add: gm_entries_def)

lemma gm_lookup_put [simp]: "gm_lookup (gm_put k v m) k' = (if k = k' then Some v else gm_lookup m k')"
  by (simp add: gm_lookup_def gm_put_def update_conv')

lemma gm_get_put [simp]: "gm_get (gm_put k v m) k' = (if k = k' then v else gm_get m k')"
  by (simp add: gm_get_def)

lemma map_of_foldl_update:
  "distinct (map fst es) \<Longrightarrow>
   map_of (foldl (\<lambda>d (k, v). AList.update k v d) d0 es) k =
     (case map_of es k of None \<Rightarrow> map_of d0 k | Some v \<Rightarrow> Some v)"
proof (induction es arbitrary: d0)
  case Nil
  then show ?case by simp
next
  case (Cons e es)
  obtain a b where e: "e = (a, b)" by (cases e)
  from Cons.prems e have "map_of es a = None" by (simp add: map_of_eq_None_iff)
  with Cons e show ?case by (auto simp: update_conv' split: option.splits)
qed

lemma gm_lookup_copy:
  "distinct (map fst (gm_entries src)) \<Longrightarrow>
   gm_lookup (gm_copy m src) k =
     (case gm_lookup src k of None \<Rightarrow> gm_lookup m k | Some v \<Rightarrow> Some v)"
  by (simp add: gm_lookup_def gm_copy_def map_of_foldl_update split: option.splits)

section \<open>Removing one element of a slice\<close>

text \<open>\<open>append(xs[:j], xs[j+1:]...)\<close>\<close>

definition remove_at :: "nat \<Rightarrow> 'a list \<Rightarrow> 'a list" where
  "remove_at j xs = take j xs @ drop (Suc j) xs"

lemma length_remove_at [simp]: "j < length xs \<Longrightarrow> length (remove_at j xs) = length xs - 1"
  by (auto simp: remove_at_def)

lemma set_remove_at: "set (remove_at j xs) \<subseteq> set xs"
  by (auto simp: remove_at_def dest: in_set_takeD in_set_dropD)

lemma mset_remove_at: "j < length xs \<Longrightarrow> mset xs = add_mset (xs ! j) (mset (remove_at j xs))"
  by (subst id_take_nth_drop [of j xs]) (simp_all add: remove_at_def)

lemma mset_remove_at_le: "mset (remove_at j xs) \<subseteq># mset xs"
  by (cases "j < length xs") (simp_all add: mset_remove_at, simp add: remove_at_def)

lemma distinct_remove_at: "distinct (map f xs) \<Longrightarrow> distinct (map f (remove_at j xs))"
  by (auto simp: remove_at_def distinct_map inj_on_def dest: in_set_takeD in_set_dropD
      dest!: set_take_disj_set_drop_if_distinct [of _ j "Suc j"])

lemma filter_length_remove_at:
  "j < length xs \<Longrightarrow>
   length (filter P xs) = length (filter P (remove_at j xs)) + (if P (xs ! j) then 1 else 0)"
proof -
  assume j: "j < length xs"
  have "size (filter_mset P (mset xs)) =
      size (filter_mset P (add_mset (xs ! j) (mset (remove_at j xs))))"
    using mset_remove_at [OF j] by simp
  then show ?thesis by (simp flip: mset_filter)
qed

lemma filter_length_update:
  "j < length xs \<Longrightarrow>
   length (filter P (xs[j := x])) + (if P (xs ! j) then 1 else 0) =
     length (filter P xs) + (if P x then 1 else 0)"
proof -
  assume j: "j < length xs"
  have "remove_at j (xs[j := x]) = remove_at j xs" by (simp add: remove_at_def)
  with filter_length_remove_at [of j "xs[j := x]" P] filter_length_remove_at [OF j, of P] j
  show ?thesis by simp
qed

end
