(* ===== verification/Trace_Calculus.thy ===== *)
theory Trace_Calculus
  imports Prelude
begin

text \<open>
  Programs that call the outside world. The state is the trace of the calls made so far, each with
  the answer it got; an answer may depend on everything that happened before, so one function from
  traces to answers is one behaviour of the world, and a statement for all such functions is a
  statement for every behaviour. \<open>emits m R\<close> says that a run of \<open>m\<close> from any trace appends
  some calls \<open>es\<close> and returns some \<open>x\<close> with \<open>R x es\<close>.
\<close>

section \<open>One call, a run and what it leaves on the trace\<close>

definition call :: "('e list \<Rightarrow> 'a) \<Rightarrow> ('a \<Rightarrow> 'e) \<Rightarrow> ('e list, 'a) state" where
  "call answer ev = State (\<lambda>h. let r = answer h in (r, h @ [ev r]))"

definition outcome_of :: "('e list, 'a) state \<Rightarrow> 'e list \<Rightarrow> 'a" where
  "outcome_of m h = fst (run_state m h)"

definition calls_of :: "('e list, 'a) state \<Rightarrow> 'e list \<Rightarrow> 'e list" where
  "calls_of m h = drop (length h) (snd (run_state m h))"

definition emits :: "('e list, 'a) state \<Rightarrow> ('a \<Rightarrow> 'e list \<Rightarrow> bool) \<Rightarrow> bool" where
  "emits m R \<longleftrightarrow> (\<forall>h. \<exists>es. snd (run_state m h) = h @ es \<and> R (fst (run_state m h)) es)"

lemma run_state_call [simp]: "run_state (call answer ev) h = (answer h, h @ [ev (answer h)])"
  by (simp add: call_def Let_def)

section \<open>The rules\<close>

lemma emitsI:
  "(\<And>h x h'. run_state m h = (x, h') \<Longrightarrow> \<exists>es. h' = h @ es \<and> R x es) \<Longrightarrow> emits m R"
  by (simp add: emits_def)

lemma emitsD: "emits m R \<Longrightarrow> R (outcome_of m h) (calls_of m h)"
  by (auto simp: emits_def outcome_of_def calls_of_def dest!: spec [of _ h])

lemma emits_run:
  "emits m R \<Longrightarrow> run_state m h = (outcome_of m h, h @ calls_of m h)"
  by (auto simp: emits_def outcome_of_def calls_of_def intro!: prod_eqI dest!: spec [of _ h])

lemma emits_return [emits_rules]: "R x [] \<Longrightarrow> emits (State_Monad.return x) R"
  by (simp add: emits_def)

lemma emits_call [emits_rules]: "(\<And>r. R r [ev r]) \<Longrightarrow> emits (call answer ev) R"
  by (simp add: emits_def)

lemma emits_bind:
  assumes "emits m S"
    and "\<And>x es. S x es \<Longrightarrow> emits (f x) (\<lambda>y fs. R y (es @ fs))"
  shows "emits (State_Monad.bind m f) R"
proof (rule emitsI)
  fix h y h'
  assume run: "run_state (State_Monad.bind m f) h = (y, h')"
  obtain x h1 where m: "run_state m h = (x, h1)" by (cases "run_state m h")
  with assms(1) obtain es where es: "h1 = h @ es" "S x es"
    by (auto simp: emits_def dest!: spec [of _ h])
  from assms(2) [OF es(2)] run m obtain fs where "h' = h1 @ fs" "R y (es @ fs)"
    by (auto simp: emits_def dest!: spec [of _ h1])
  with es show "\<exists>es. h' = h @ es \<and> R y es" by auto
qed

lemma emits_bind_call [emits_rules]:
  "(\<And>r. emits (f r) (\<lambda>y fs. R y (ev r # fs))) \<Longrightarrow> emits (State_Monad.bind (call answer ev) f) R"
  by (rule emits_bind [where S = "\<lambda>r es. es = [ev r]"]) (auto intro: emits_rules)

text \<open>The same when what the world may answer is known.\<close>

lemma emits_bind_answer:
  "(\<And>h. emits (f (answer h)) (\<lambda>y fs. R y (ev (answer h) # fs))) \<Longrightarrow>
   emits (State_Monad.bind (call answer ev) f) R"
  by (rule emits_bind [where S = "\<lambda>r es. es = [ev r] \<and> r \<in> range answer"]) (auto simp: emits_def)

lemma emits_if [emits_rules]:
  "(b \<Longrightarrow> emits m R) \<Longrightarrow> (\<not> b \<Longrightarrow> emits n R) \<Longrightarrow> emits (if b then m else n) R"
  by simp

lemma emits_case_sum [emits_rules]:
  "(\<And>e. r = Inl e \<Longrightarrow> emits (f e) R) \<Longrightarrow> (\<And>x. r = Inr x \<Longrightarrow> emits (g x) R) \<Longrightarrow>
   emits (case r of Inl e \<Rightarrow> f e | Inr x \<Rightarrow> g x) R"
  by (cases r) auto

lemma emits_case_option [emits_rules]:
  "(r = None \<Longrightarrow> emits m R) \<Longrightarrow> (\<And>x. r = Some x \<Longrightarrow> emits (g x) R) \<Longrightarrow>
   emits (case r of None \<Rightarrow> m | Some x \<Rightarrow> g x) R"
  by (cases r) auto

lemma emits_case_list [emits_rules]:
  "(xs = [] \<Longrightarrow> emits m R) \<Longrightarrow> (\<And>y ys. xs = y # ys \<Longrightarrow> emits (g y ys) R) \<Longrightarrow>
   emits (case xs of [] \<Rightarrow> m | y # ys \<Rightarrow> g y ys) R"
  by (cases xs) auto

lemma emits_case_prod [emits_rules]:
  "(\<And>a b. p = (a, b) \<Longrightarrow> emits (f a b) R) \<Longrightarrow> emits (case p of (a, b) \<Rightarrow> f a b) R"
  by (cases p) auto

lemma emits_Let [emits_rules]: "(\<And>x. x = t \<Longrightarrow> emits (f x) R) \<Longrightarrow> emits (let x = t in f x) R"
  by simp

lemma emits_mono: "emits m S \<Longrightarrow> (\<And>x es. S x es \<Longrightarrow> R x es) \<Longrightarrow> emits m R"
  unfolding emits_def by blast

lemma emits_conj: "emits m R \<Longrightarrow> emits m S \<Longrightarrow> emits m (\<lambda>x es. R x es \<and> S x es)"
  unfolding emits_def by (metis same_append_eq)

section \<open>Runs that only make calls of one kind\<close>

definition only_calls :: "('e \<Rightarrow> bool) \<Rightarrow> ('e list, 'a) state \<Rightarrow> bool" where
  "only_calls \<phi> m \<longleftrightarrow> emits m (\<lambda>_ es. list_all \<phi> es)"

named_theorems only_rules \<open>introduction rules for runs that make calls of one kind only\<close>

lemma only_return [only_rules]: "only_calls \<phi> (State_Monad.return x)"
  by (simp add: only_calls_def emits_return)

lemma only_call [only_rules]: "(\<And>r. \<phi> (ev r)) \<Longrightarrow> only_calls \<phi> (call answer ev)"
  by (simp add: only_calls_def emits_call)

lemma only_bind [only_rules]:
  "only_calls \<phi> m \<Longrightarrow> (\<And>x. only_calls \<phi> (f x)) \<Longrightarrow> only_calls \<phi> (State_Monad.bind m f)"
  unfolding only_calls_def
  by (erule emits_bind) (auto elim: emits_mono)

lemma only_case_sum [only_rules]:
  "(\<And>e. r = Inl e \<Longrightarrow> only_calls \<phi> (f e)) \<Longrightarrow> (\<And>x. r = Inr x \<Longrightarrow> only_calls \<phi> (g x)) \<Longrightarrow>
   only_calls \<phi> (case r of Inl e \<Rightarrow> f e | Inr x \<Rightarrow> g x)"
  by (cases r) auto

lemma only_case_option [only_rules]:
  "only_calls \<phi> m \<Longrightarrow> (\<And>x. only_calls \<phi> (g x)) \<Longrightarrow>
   only_calls \<phi> (case r of None \<Rightarrow> m | Some x \<Rightarrow> g x)"
  by (cases r) auto

lemma only_case_list [only_rules]:
  "only_calls \<phi> m \<Longrightarrow> (\<And>y ys. only_calls \<phi> (g y ys)) \<Longrightarrow>
   only_calls \<phi> (case xs of [] \<Rightarrow> m | y # ys \<Rightarrow> g y ys)"
  by (cases xs) auto

lemma only_case_prod [only_rules]:
  "(\<And>a b. only_calls \<phi> (f a b)) \<Longrightarrow> only_calls \<phi> (case p of (a, b) \<Rightarrow> f a b)"
  by (cases p) auto

lemma only_if [only_rules]:
  "only_calls \<phi> m \<Longrightarrow> only_calls \<phi> n \<Longrightarrow> only_calls \<phi> (if b then m else n)"
  by simp

lemma only_Let [only_rules]: "(\<And>x. only_calls \<phi> (f x)) \<Longrightarrow> only_calls \<phi> (let x = t in f x)"
  by simp

lemma only_calls_mono: "only_calls \<phi> m \<Longrightarrow> (\<And>e. \<phi> e \<Longrightarrow> \<psi> e) \<Longrightarrow> only_calls \<psi> m"
  unfolding only_calls_def by (auto elim!: emits_mono simp: list_all_iff)

end
