(* ===== verification/Kube_Objects.thy ===== *)
theory Kube_Objects
  imports Prelude
begin

text \<open>
  The Kubernetes objects the controller reads, with the fields it reads. A
  \<open>resource.Quantity\<close> is represented by the answers of the three methods the code calls on it.
  A pointer field is an \<open>option\<close>, a map field a \<open>gomap\<close>.
\<close>

text \<open>A namespaced name: namespace and name.\<close>

type_synonym nname = "string \<times> string"

section \<open>Pods\<close>

record quantity =
  MilliValue :: int
  ScaledValue_Mega :: int
  Value :: int

record container =
  Requests :: "(string, quantity) gomap"
  Limits :: "(string, quantity) gomap"

record toleration =
  tol_Key :: string
  tol_Value :: string

record node_selector_requirement =
  expr_Key :: string
  expr_Operator :: string
  expr_Values :: "string list"

record node_selector_term =
  MatchExpressions :: "node_selector_requirement list"

record node_selector =
  NodeSelectorTerms :: "node_selector_term list"

record node_affinity =
  RequiredDuringScheduling :: "node_selector option"

record affinity =
  NodeAffinity :: "node_affinity option"

record pod_condition =
  pc_Type :: string
  pc_Status :: string
  pc_Reason :: string
  pc_LastTransitionTime :: time

record pod =
  pod_Namespace :: string
  pod_Name :: string
  pod_Labels :: strmap
  pod_Annotations :: strmap
  pod_OwnerKinds :: "string list"
  pod_NodeName :: string
  pod_Containers :: "container list"
  pod_Tolerations :: "toleration list"
  pod_Affinity :: "affinity option"
  pod_Phase :: string
  pod_Conditions :: "pod_condition list"

text \<open>\<open>pod.Spec.Affinity.NodeAffinity.RequiredDuringSchedulingIgnoredDuringExecution\<close>, with the
  nil checks that guard each step of it.\<close>

definition required_selector :: "pod \<Rightarrow> node_selector option" where
  "required_selector p =
     (case pod_Affinity p of None \<Rightarrow> None
      | Some a \<Rightarrow> (case NodeAffinity a of None \<Rightarrow> None | Some na \<Rightarrow> RequiredDuringScheduling na))"

section \<open>Nodes and secrets\<close>

record node_condition =
  nc_Type :: string
  nc_Status :: string

record node =
  node_Name :: string
  node_Labels :: strmap
  node_Unschedulable :: bool
  node_Conditions :: "node_condition list"

type_synonym 'b secret_data = "(string, 'b) gomap"

section \<open>Constants of the API\<close>

definition labelValueTrue :: string where "labelValueTrue = ''true''"

abbreviation managedLabel :: string where "managedLabel \<equiv> ''burst.homelab.dev/managed''"
abbreviation enabledLabel :: string where "enabledLabel \<equiv> ''burst.homelab.dev/enabled''"
abbreviation provisionedAnnotation :: string where
  "provisionedAnnotation \<equiv> ''burst.homelab.dev/provisioned''"

end
