(* ===== verification/Pool_API.thy ===== *)
theory Pool_API
  imports Prelude
begin

text \<open>
  The \<open>BurstNodePool\<close> custom resource (\<open>api/v1alpha1/burstnodepool_types.go\<close>): specification,
  status and the node states, with the fields of the Go structs. \<open>pool_ResourceVersion\<close> is the
  version the API server uses for optimistic concurrency.
\<close>

section \<open>Specification\<close>

record instance_type_config =
  itc_Name :: string
  itc_AMI :: string
  itc_Architecture :: string

record aws_config =
  aws_Region :: string
  aws_AMI :: string
  aws_InstanceType :: string
  aws_InstanceTypes :: "instance_type_config list"
  aws_SubnetID :: string
  aws_SecurityGroupIDs :: "string list"
  aws_VolumeSize :: int
  aws_VolumeType :: string
  aws_Tags :: strmap

record talos_config =
  MachineConfigSecret :: string
  MachineConfigKey :: string

record scaling_config =
  MaxNodes :: int
  CooldownPeriod :: duration
  BootTimeout :: duration

record toleration_rule =
  tr_Key :: string
  tr_Operator :: string
  tr_Value :: string

record resource_rule =
  rr_ResourceName :: string
  rr_Operator :: string

record match_rules =
  Tolerations :: "toleration_rule list"
  NodeAffinityLabels :: strmap
  Resources :: "resource_rule list"

record node_taint =
  nt_Key :: string
  nt_Value :: string
  nt_Effect :: string

record pool_spec =
  Cloud :: string
  AWS :: "aws_config option"
  Talos :: talos_config
  Scaling :: scaling_config
  MatchRules :: match_rules
  NodeLabels :: strmap
  NodeTaints :: "node_taint list"

section \<open>Status\<close>

datatype node_state = Pending | Running | Cordoned | Draining | Terminating

text \<open>The states in the order a node goes through them.\<close>

primrec stage :: "node_state \<Rightarrow> nat" where
  "stage Pending = 0"
| "stage Running = 1"
| "stage Cordoned = 2"
| "stage Draining = 3"
| "stage Terminating = 4"

lemma stage_inject [simp]: "stage a = stage b \<longleftrightarrow> a = b"
  by (cases a; cases b) simp_all

instantiation node_state :: linorder
begin

definition less_eq_node_state :: "node_state \<Rightarrow> node_state \<Rightarrow> bool" where
  "a \<le> b \<longleftrightarrow> stage a \<le> stage b"

definition less_node_state :: "node_state \<Rightarrow> node_state \<Rightarrow> bool" where
  "a < b \<longleftrightarrow> stage a < stage b"

instance
  by standard (auto simp: less_eq_node_state_def less_node_state_def)

end

lemma Pending_le [simp]: "Pending \<le> s"
  by (simp add: less_eq_node_state_def)

record node_status =
  ns_Name :: string
  ns_InstanceID :: string
  ns_InstanceType :: string
  ns_State :: node_state
  ns_LaunchedAt :: time
  ns_ReadyAt :: "time option"
  ns_LastPodFinished :: "time option"

text \<open>\<open>metav1.Condition\<close>: kept in the status, written by no handler.\<close>

record status_condition =
  sc_Type :: string
  sc_Status :: string
  sc_Reason :: string
  sc_Message :: string

record pool_status =
  ActiveNodes :: int
  PendingNodes :: int
  Nodes :: "node_status list"
  Conditions :: "status_condition list"

record pool =
  pool_Namespace :: string
  pool_Name :: string
  pool_ResourceVersion :: nat
  pool_Spec :: pool_spec
  pool_Status :: pool_status

section \<open>The effective instance type list\<close>

definition ResolveInstanceTypes :: "aws_config \<Rightarrow> instance_type_config list" where
  "ResolveInstanceTypes a =
     (if length (aws_InstanceTypes a) > 0 then aws_InstanceTypes a
      else if aws_InstanceType a \<noteq> '''' then
        [\<lparr>itc_Name = aws_InstanceType a, itc_AMI = '''', itc_Architecture = ''''\<rparr>]
      else [])"

lemma ResolveInstanceTypes_Nil:
  "ResolveInstanceTypes a = [] \<longleftrightarrow> aws_InstanceTypes a = [] \<and> aws_InstanceType a = ''''"
  by (auto simp: ResolveInstanceTypes_def)

section \<open>Counting the nodes of a status\<close>

abbreviation in_state :: "node_state \<Rightarrow> node_status \<Rightarrow> bool" where
  "in_state st n \<equiv> ns_State n = st"

definition count_pending :: "node_status list \<Rightarrow> int" where
  "count_pending ns = int (length (filter (in_state Pending) ns))"

definition count_started :: "node_status list \<Rightarrow> int" where
  "count_started ns = int (length (filter (\<lambda>n. \<not> in_state Pending n) ns))"

lemma count_pending_simps [simp]:
  "count_pending [] = 0"
  "count_pending (n # ns) = (if in_state Pending n then 1 else 0) + count_pending ns"
  "count_pending (ns @ ms) = count_pending ns + count_pending ms"
  by (simp_all add: count_pending_def)

lemma count_started_simps [simp]:
  "count_started [] = 0"
  "count_started (n # ns) = (if in_state Pending n then 0 else 1) + count_started ns"
  "count_started (ns @ ms) = count_started ns + count_started ms"
  by (simp_all add: count_started_def)

lemma count_nonneg [simp]: "0 \<le> count_pending ns" "0 \<le> count_started ns"
  by (simp_all add: count_pending_def count_started_def)

lemma count_total: "count_pending ns + count_started ns = int (length ns)"
  by (induction ns) auto

lemma count_remove_at:
  assumes "j < length ns"
  shows "count_pending (remove_at j ns) = count_pending ns - (if in_state Pending (ns ! j) then 1 else 0)"
    and "count_started (remove_at j ns) = count_started ns - (if in_state Pending (ns ! j) then 0 else 1)"
  using filter_length_remove_at [OF assms, of "in_state Pending"]
    filter_length_remove_at [OF assms, of "\<lambda>n. \<not> in_state Pending n"]
  by (simp_all add: count_pending_def count_started_def)

lemma count_update:
  assumes "j < length ns"
  shows "count_pending (ns[j := n]) =
      count_pending ns - (if in_state Pending (ns ! j) then 1 else 0) + (if in_state Pending n then 1 else 0)"
    and "count_started (ns[j := n]) =
      count_started ns - (if in_state Pending (ns ! j) then 0 else 1) + (if in_state Pending n then 0 else 1)"
  using filter_length_update [OF assms, of "in_state Pending" n]
    filter_length_update [OF assms, of "\<lambda>n. \<not> in_state Pending n" n]
  by (auto simp: count_pending_def count_started_def split: if_splits)

end
