(* ===== verification/Encodings.thy ===== *)
theory Encodings
  imports Prelude "HOL-Library.Word"
begin

text \<open>
  The two text encodings of the standard library the code uses: \<open>hex.EncodeToString\<close> for the
  random node suffix and \<open>base64.StdEncoding\<close> for the user data of an instance, with a decoder
  and the round trip.
\<close>

type_synonym byte = "8 word"
type_synonym bytes = "byte list"

lemma unat_byte: "unat (b :: byte) < 256"
  using unsigned_less [of b, where 'a = nat] by simp

section \<open>Hexadecimal\<close>

definition hexDigits :: string where "hexDigits = ''0123456789abcdef''"

fun hex_EncodeToString :: "bytes \<Rightarrow> string" where
  "hex_EncodeToString [] = []"
| "hex_EncodeToString (b # bs) =
     hexDigits ! (unat b div 16) # hexDigits ! (unat b mod 16) # hex_EncodeToString bs"

lemma length_hex [simp]: "length (hex_EncodeToString bs) = 2 * length bs"
  by (induction bs) auto

lemma hexDigits_inj: "i < 16 \<Longrightarrow> j < 16 \<Longrightarrow> hexDigits ! i = hexDigits ! j \<longleftrightarrow> i = j"
proof -
  have "distinct hexDigits" "length hexDigits = 16" by (simp_all add: hexDigits_def)
  then show "i < 16 \<Longrightarrow> j < 16 \<Longrightarrow> hexDigits ! i = hexDigits ! j \<longleftrightarrow> i = j"
    by (simp add: nth_eq_iff_index_eq)
qed

lemma hex_byte_inj:
  assumes "hexDigits ! (unat a div 16) = hexDigits ! (unat b div 16)"
    and "hexDigits ! (unat a mod 16) = hexDigits ! (unat b mod 16)"
  shows "a = (b :: byte)"
proof -
  have "unat a div 16 < 16" "unat b div 16 < 16" using unat_byte [of a] unat_byte [of b] by auto
  with assms have "unat a div 16 = unat b div 16" "unat a mod 16 = unat b mod 16"
    by (simp_all add: hexDigits_inj)
  then have "unat a = unat b" by (metis div_mult_mod_eq)
  then show ?thesis by (simp add: word_unat_eq_iff)
qed

lemma hex_inj: "hex_EncodeToString as = hex_EncodeToString bs \<longleftrightarrow> as = bs"
proof
  assume "hex_EncodeToString as = hex_EncodeToString bs"
  then show "as = bs"
  proof (induction as arbitrary: bs)
    case Nil
    then show ?case by (cases bs) auto
  next
    case (Cons a as)
    then obtain b bs' where "bs = b # bs'" by (cases bs) auto
    with Cons show ?case by (auto intro: hex_byte_inj)
  qed
qed simp

section \<open>Base 64\<close>

definition b64Alphabet :: string where
  "b64Alphabet = ''ABCDEFGHIJKLMNOPQRSTUVWXYZabcdefghijklmnopqrstuvwxyz0123456789+/''"

text \<open>The four 6-bit digits of a 24-bit group.\<close>

definition b64_digit :: "nat \<Rightarrow> nat \<Rightarrow> char" where
  "b64_digit val k = b64Alphabet ! (val div 64 ^ k mod 64)"

fun base64_EncodeToString :: "bytes \<Rightarrow> string" where
  "base64_EncodeToString [] = []"
| "base64_EncodeToString [a] =
     (let val = unat a * 65536 in [b64_digit val 3, b64_digit val 2, CHR ''='', CHR ''=''])"
| "base64_EncodeToString [a, b] =
     (let val = unat a * 65536 + unat b * 256
      in [b64_digit val 3, b64_digit val 2, b64_digit val 1, CHR ''=''])"
| "base64_EncodeToString (a # b # c # bs) =
     (let val = unat a * 65536 + unat b * 256 + unat c
      in b64_digit val 3 # b64_digit val 2 # b64_digit val 1 # b64_digit val 0 # base64_EncodeToString bs)"

text \<open>A decoder, for the round trip.\<close>

fun index_of :: "'a \<Rightarrow> 'a list \<Rightarrow> nat option" where
  "index_of x [] = None"
| "index_of x (y # ys) = (if x = y then Some 0 else map_option Suc (index_of x ys))"

definition b64_value :: "char \<Rightarrow> nat option" where
  "b64_value c = index_of c b64Alphabet"

definition b64_group :: "char \<Rightarrow> char \<Rightarrow> char \<Rightarrow> char \<Rightarrow> nat option" where
  "b64_group p q r s =
     (case (b64_value p, b64_value q, b64_value r, b64_value s) of
        (Some i, Some j, Some k, Some l) \<Rightarrow> Some (i * 262144 + j * 4096 + k * 64 + l)
      | _ \<Rightarrow> None)"

fun base64_DecodeString :: "string \<Rightarrow> bytes option" where
  "base64_DecodeString [] = Some []"
| "base64_DecodeString (p # q # r # s # cs) =
     (if cs = [] \<and> s = CHR ''='' \<and> r = CHR ''='' then
        (case b64_group p q CHR ''A'' CHR ''A'' of
           Some v \<Rightarrow> Some [of_nat (v div 65536)] | None \<Rightarrow> None)
      else if cs = [] \<and> s = CHR ''='' then
        (case b64_group p q r CHR ''A'' of
           Some v \<Rightarrow> Some [of_nat (v div 65536), of_nat (v div 256 mod 256)] | None \<Rightarrow> None)
      else (case (b64_group p q r s, base64_DecodeString cs) of
           (Some v, Some bs) \<Rightarrow>
             Some (of_nat (v div 65536) # of_nat (v div 256 mod 256) # of_nat (v mod 256) # bs)
         | _ \<Rightarrow> None))"
| "base64_DecodeString _ = None"

lemma index_of_nth: "distinct xs \<Longrightarrow> i < length xs \<Longrightarrow> index_of (xs ! i) xs = Some i"
proof (induction xs arbitrary: i)
  case (Cons x xs)
  then show ?case by (cases i) auto
qed simp

lemma b64Alphabet_facts: "distinct b64Alphabet" "length b64Alphabet = 64" "CHR ''='' \<notin> set b64Alphabet"
  by (simp_all add: b64Alphabet_def)

lemma b64_value_digit [simp]: "b64_value (b64_digit v k) = Some (v div 64 ^ k mod 64)"
  by (simp add: b64_value_def b64_digit_def index_of_nth b64Alphabet_facts)

lemma b64_digit_not_pad [simp]: "b64_digit v k \<noteq> CHR ''=''"
  using b64Alphabet_facts by (metis b64_digit_def mod_less_divisor nth_mem zero_less_numeral)

lemma b64_value_A [simp]: "b64_value CHR ''A'' = Some 0"
  by (simp add: b64_value_def b64Alphabet_def)

lemma b64_digits_value:
  fixes v :: nat
  assumes "v < 16777216"
  shows "v div 262144 mod 64 * 262144 + v div 4096 mod 64 * 4096 + v div 64 mod 64 * 64 + v mod 64 = v"
proof -
  let ?w = "v div 64"
  let ?x = "?w div 64"
  have d: "v div 4096 = ?x" "v div 262144 = ?x div 64" by (simp_all flip: div_mult2_eq)
  have "?x div 64 mod 64 = ?x div 64" using assms by (simp flip: div_mult2_eq add: less_mult_imp_div_less)
  moreover have "v = ?w * 64 + v mod 64" "?w = ?x * 64 + ?w mod 64" "?x = ?x div 64 * 64 + ?x mod 64"
    by (simp_all del: div_mult2_eq)
  ultimately show ?thesis unfolding d by linarith
qed

text \<open>Trailing zero bits: a group of one or two bytes has zero low digits.\<close>

lemma b64_low_zero:
  "(v::nat) mod 4096 = 0 \<Longrightarrow> v mod 64 = 0 \<and> v div 64 mod 64 = 0"
proof -
  assume "v mod 4096 = 0"
  then obtain k where "v = 64 * (64 * k)" by (auto simp: mod_eq_0_iff_dvd elim!: dvdE)
  then show ?thesis by simp
qed

lemma b64_group_full: "v < 16777216 \<Longrightarrow>
   b64_group (b64_digit v 3) (b64_digit v 2) (b64_digit v (Suc 0)) (b64_digit v 0) = Some v"
  using b64_digits_value [of v] by (simp add: b64_group_def)

lemma b64_group_two: "v < 16777216 \<Longrightarrow> v mod 64 = 0 \<Longrightarrow>
   b64_group (b64_digit v 3) (b64_digit v 2) (b64_digit v (Suc 0)) CHR ''A'' = Some v"
  using b64_digits_value [of v] by (simp add: b64_group_def)

lemma b64_group_one: "v < 16777216 \<Longrightarrow> v mod 4096 = 0 \<Longrightarrow>
   b64_group (b64_digit v 3) (b64_digit v 2) CHR ''A'' CHR ''A'' = Some v"
  using b64_digits_value [of v] b64_low_zero [of v] by (simp add: b64_group_def)

lemma bytes_of_group:
  fixes a b c :: nat
  assumes "a < 256" "b < 256" "c < 256"
  shows "(a * 65536 + b * 256 + c) div 65536 = a" "(a * 65536 + b * 256 + c) div 256 mod 256 = b"
    "(a * 65536 + b * 256 + c) mod 256 = c"
proof -
  have "(a * 65536 + b * 256 + c) div 256 = a * 256 + b"
  proof -
    have "a * 65536 + b * 256 + c = c + 256 * (a * 256 + b)" by simp
    then show ?thesis using assms(3) by simp
  qed
  then show "(a * 65536 + b * 256 + c) div 256 mod 256 = b" using assms(2) by simp
  have "a * 65536 + b * 256 + c = (b * 256 + c) + 65536 * a" by simp
  then show "(a * 65536 + b * 256 + c) div 65536 = a" using assms by simp
  have "a * 65536 + b * 256 + c = c + 256 * (a * 256 + b)" by simp
  then show "(a * 65536 + b * 256 + c) mod 256 = c" using assms(3) by (metis mod_less mod_mult_self2)
qed

lemma base64_roundtrip_aux: "base64_DecodeString (base64_EncodeToString bs) = Some bs"
proof (induction bs rule: base64_EncodeToString.induct)
  case 1
  then show ?case by simp
next
  case (2 a)
  from unat_byte [of a] show ?case by (simp add: Let_def b64_group_one)
next
  case (3 a b)
  let ?v = "unat a * 65536 + unat b * 256"
  have "b64_group (b64_digit ?v 3) (b64_digit ?v 2) (b64_digit ?v (Suc 0)) CHR ''A'' = Some ?v"
    using unat_byte [of a] unat_byte [of b] by (intro b64_group_two) (simp, presburger)
  with unat_byte [of a] unat_byte [of b] show ?case by (simp add: Let_def)
next
  case (4 a b c bs)
  from unat_byte [of a] unat_byte [of b] unat_byte [of c] 4 show ?case
    by (simp add: Let_def b64_group_full bytes_of_group)
qed

end
