(* ===== verification/Go_Errors.thy ===== *)
theory Go_Errors
  imports Prelude
begin

text \<open>
  Go error values as chains. \<open>WrapErr\<close> is \<open>fmt.Errorf\<close> with a \<open>%w\<close> verb, \<open>Plain\<close> one without.
  The two leaves carry what the code asks an error for: \<open>KubeError\<close> the answer of
  \<open>errors.IsNotFound\<close>, \<open>SmithyAPI\<close> the \<open>ErrorCode()\<close> of an AWS API error. \<open>NilDeref\<close> is the
  run-time panic of a nil pointer: it is no error value to the code, and every caller in the model
  passes it on at once.
\<close>

datatype go_error =
    KubeError bool string
  | SmithyAPI string string
  | Plain string
  | WrapErr string go_error
  | NilDeref

fun IsNotFound :: "go_error \<Rightarrow> bool" where
  "IsNotFound (KubeError nf msg) = nf"
| "IsNotFound (WrapErr msg e) = IsNotFound e"
| "IsNotFound _ = False"

text \<open>\<open>errors.As(err, &apiErr)\<close> for \<open>smithy.APIError\<close>: the first such error of the chain.\<close>

fun errors_As_APIError :: "go_error \<Rightarrow> string option" where
  "errors_As_APIError (SmithyAPI code msg) = Some code"
| "errors_As_APIError (WrapErr msg e) = errors_As_APIError e"
| "errors_As_APIError _ = None"

end
