(* ===== verification/Talos_Config.thy ===== *)
theory Talos_Config
  imports Encodings Go_Errors
begin

text \<open>
  \<open>internal/talos/config.go\<close>: the Talos machine configuration that becomes the user data of an
  instance. \<open>yaml.Unmarshal\<close> and \<open>yaml.Marshal\<close> of \<open>gopkg.in/yaml.v3\<close> are parameters over the
  generic documents below; \<open>YMap\<close> is what the type assertion \<open>.(map[string]any)\<close> accepts.
\<close>

datatype yaml = YMap "(string \<times> yaml) list" | YSeq "yaml list" | YStr string | YOther string

type_synonym yaml_doc = "(string, yaml) gomap"

definition as_map :: "yaml option \<Rightarrow> (string \<times> yaml) list option" where
  "as_map v = (case v of Some (YMap m) \<Rightarrow> Some m | _ \<Rightarrow> None)"

section \<open>The model\<close>

text \<open>The maps are changed in place: the new \<open>network\<close> is seen in \<open>machine\<close> and in \<open>config\<close>.\<close>

definition PatchHostname ::
  "(bytes \<Rightarrow> go_error + yaml_doc) \<Rightarrow> (yaml_doc \<Rightarrow> go_error + bytes) \<Rightarrow>
   bytes \<Rightarrow> string \<Rightarrow> go_error + bytes" where
  "PatchHostname unmarshal marshal configYAML hostname =
     (case unmarshal configYAML of
        Inl err \<Rightarrow> Inl (WrapErr ''unmarshaling machine config'' err)
      | Inr config \<Rightarrow>
          (case as_map (gm_lookup config ''machine'') of
             None \<Rightarrow> Inl (Plain ''machine config missing machine key'')
           | Some machine \<Rightarrow>
               (let network = (case as_map (map_of machine ''network'') of
                                 None \<Rightarrow> [] | Some network \<Rightarrow> network);
                    network = AList.update ''hostname'' (YStr hostname) network;
                    machine = AList.update ''network'' (YMap network) machine;
                    config = gm_put ''machine'' (YMap machine) config
                in case marshal config of
                     Inl err \<Rightarrow> Inl (WrapErr ''marshaling patched config'' err)
                   | Inr patched \<Rightarrow> Inr patched)))"

definition PatchAndEncode ::
  "(bytes \<Rightarrow> go_error + yaml_doc) \<Rightarrow> (yaml_doc \<Rightarrow> go_error + bytes) \<Rightarrow>
   bytes \<Rightarrow> string \<Rightarrow> go_error + string" where
  "PatchAndEncode unmarshal marshal configYAML hostname =
     (case PatchHostname unmarshal marshal configYAML hostname of
        Inl err \<Rightarrow> Inl err
      | Inr patched \<Rightarrow> Inr (base64_EncodeToString patched))"

section \<open>What the patch changes\<close>

text \<open>The hostname of a document, and the rest of it: what a reader of the configuration sees.\<close>

definition doc_machine :: "yaml_doc \<Rightarrow> (string \<times> yaml) list option" where
  "doc_machine config = as_map (gm_lookup config ''machine'')"

definition doc_network :: "yaml_doc \<Rightarrow> (string \<times> yaml) list option" where
  "doc_network config = (case doc_machine config of None \<Rightarrow> None | Some m \<Rightarrow> as_map (map_of m ''network''))"

definition doc_hostname :: "yaml_doc \<Rightarrow> yaml option" where
  "doc_hostname config = (case doc_network config of None \<Rightarrow> None | Some n \<Rightarrow> map_of n ''hostname'')"

definition network_or_empty :: "yaml_doc \<Rightarrow> (string \<times> yaml) list" where
  "network_or_empty config = (case doc_network config of None \<Rightarrow> [] | Some n \<Rightarrow> n)"

text \<open>\<open>patched_doc old new h\<close>: \<open>new\<close> is \<open>old\<close> with the hostname set to \<open>h\<close> and nothing else changed.\<close>

definition patched_doc :: "yaml_doc \<Rightarrow> yaml_doc \<Rightarrow> string \<Rightarrow> bool" where
  "patched_doc old new h \<longleftrightarrow>
     doc_hostname new = Some (YStr h) \<and>
     (\<forall>k. k \<noteq> ''machine'' \<longrightarrow> gm_lookup new k = gm_lookup old k) \<and>
     (\<exists>m m' n'. doc_machine old = Some m \<and> doc_machine new = Some m' \<and> doc_network new = Some n' \<and>
        (\<forall>k. k \<noteq> ''network'' \<longrightarrow> map_of m' k = map_of m k) \<and>
        (\<forall>k. k \<noteq> ''hostname'' \<longrightarrow> map_of n' k = map_of (network_or_empty old) k))"

lemma patched_docI:
  assumes "as_map (gm_lookup config ''machine'') = Some machine"
    and "network = (case as_map (map_of machine ''network'') of None \<Rightarrow> [] | Some n \<Rightarrow> n)"
  shows "patched_doc config
    (gm_put ''machine''
      (YMap (AList.update ''network'' (YMap (AList.update ''hostname'' (YStr h) network)) machine)) config) h"
  using assms
  by (simp add: patched_doc_def doc_hostname_def doc_network_def doc_machine_def network_or_empty_def
      as_map_def update_conv')

lemma PatchHostname_cases:
  assumes "PatchHostname unmarshal marshal configYAML h = Inr out"
  obtains config new where "unmarshal configYAML = Inr config" "marshal new = Inr out"
    "patched_doc config new h"
proof -
  obtain config machine where c: "unmarshal configYAML = Inr config"
    and m: "as_map (gm_lookup config ''machine'') = Some machine"
    using assms by (auto simp: PatchHostname_def split: sum.splits option.splits)
  define network where "network = (case as_map (map_of machine ''network'') of None \<Rightarrow> [] | Some n \<Rightarrow> n)"
  define new where "new = gm_put ''machine''
    (YMap (AList.update ''network'' (YMap (AList.update ''hostname'' (YStr h) network)) machine)) config"
  have "marshal new = Inr out"
    using assms c m unfolding PatchHostname_def new_def network_def
    by (simp add: Let_def split: sum.splits)
  moreover have "patched_doc config new h"
    unfolding new_def using m network_def by (rule patched_docI)
  ultimately show thesis using c that by blast
qed

section \<open>Properties\<close>

text \<open>
  C30. The user data decodes to a configuration that differs from the configured one only in
  \<open>machine.network.hostname\<close>, which is the name of the node: \<open>PatchAndEncode\<close> is base 64 of the
  serialisation of such a document.
\<close>

theorem PatchAndEncode_patches:
  assumes "PatchAndEncode unmarshal marshal configYAML h = Inr userData"
  shows "\<exists>config new out. unmarshal configYAML = Inr config \<and> marshal new = Inr out \<and>
    base64_DecodeString userData = Some out \<and> patched_doc config new h"
proof -
  from assms obtain out where out: "PatchHostname unmarshal marshal configYAML h = Inr out"
    and ud: "userData = base64_EncodeToString out"
    by (auto simp: PatchAndEncode_def split: sum.splits)
  from out obtain config new where "unmarshal configYAML = Inr config" "marshal new = Inr out"
    "patched_doc config new h" by (rule PatchHostname_cases)
  with ud show ?thesis using base64_roundtrip_aux by blast
qed

definition sample_unmarshal :: "bytes \<Rightarrow> go_error + yaml_doc" where
  "sample_unmarshal b = Inr (Some [(''machine'', YMap [(''type'', YStr ''worker'')])])"

definition sample_marshal :: "yaml_doc \<Rightarrow> go_error + bytes" where
  "sample_marshal d = (if gm_entries d = [] then Inl (Plain ''empty document'') else Inr [])"

lemma PatchAndEncode_patches_witness:
  "\<exists>config new out. sample_unmarshal [] = Inr config \<and> sample_marshal new = Inr out \<and>
    base64_DecodeString '''' = Some out \<and> patched_doc config new ''burst-a''"
  by (rule PatchAndEncode_patches) code_simp

text \<open>
  C31. \<open>PatchAndEncode\<close> fails exactly when the YAML does not parse, has no map under \<open>machine\<close>, or the
  patched document does not serialise; a missing \<open>network\<close> section is no error.
\<close>

theorem PatchAndEncode_fails_iff:
  "(\<exists>err. PatchAndEncode unmarshal marshal configYAML h = Inl err) \<longleftrightarrow>
     (case unmarshal configYAML of
        Inl err \<Rightarrow> True
      | Inr config \<Rightarrow> doc_machine config = None \<or>
          (\<exists>m err. doc_machine config = Some m \<and>
             marshal (gm_put ''machine'' (YMap (AList.update ''network''
               (YMap (AList.update ''hostname'' (YStr h) (network_or_empty config))) m)) config) = Inl err))"
  by (auto simp: PatchAndEncode_def PatchHostname_def doc_machine_def doc_network_def network_or_empty_def Let_def
      split: sum.splits option.splits)

end
