(* ===== verification/World.thy ===== *)
theory World
  imports Trace_Calculus Kube_Objects Pool_API Talos_Config
begin

text \<open>
  The outside world as the program sees it: the calls it makes and the answers it gets. None of
  this is code of the repository. A world is a record of functions from the trace of all calls
  so far to the next answer, so that every answer (and every failure, delay, concurrent change of
  an object or advance of the clock) is possible; the behaviour a property needs is a hypothesis
  of that property. The pure parameters are the YAML library and the quicksort \<open>sort.Slice\<close> uses
  for long slices.
\<close>

section \<open>Types of the AWS SDK, as far as the code uses them\<close>

record ec2_tag =
  tag_Key :: "string option"
  tag_Value :: "string option"

record tag_specification =
  ResourceType :: string
  spec_Tags :: "ec2_tag list"

record block_device_mapping =
  DeviceName :: string
  bdm_VolumeSize :: int
  bdm_VolumeType :: string

record run_instances_input =
  ImageId :: string
  rii_InstanceType :: string
  MinCount :: int
  MaxCount :: int
  SubnetId :: string
  SecurityGroupIds :: "string list"
  rii_UserData :: string
  TagSpecifications :: "tag_specification list"
  BlockDeviceMappings :: "block_device_mapping list"
  InstanceInitiatedShutdownBehavior :: string

record ec2_instance =
  ei_InstanceId :: "string option"
  ei_InstanceType :: string
  ei_State :: "string option"
  ei_LaunchTime :: "time option"
  ei_Tags :: "ec2_tag list"

text \<open>\<open>aws.ToString\<close> of the SDK.\<close>

definition aws_ToString :: "string option \<Rightarrow> string" where
  "aws_ToString p = (case p of None \<Rightarrow> '''' | Some s \<Rightarrow> s)"

type_synonym reservation = "ec2_instance list"

record ec2_filter =
  filter_Name :: string
  filter_Values :: "string list"

section \<open>Types of the drain helper\<close>

record drain_helper =
  Force :: bool
  GracePeriodSeconds :: int
  IgnoreAllDaemonSets :: bool
  DeleteEmptyDirData :: bool
  drain_Timeout :: duration

section \<open>Calls\<close>

text \<open>
  An error answer is \<open>Inl\<close>, or \<open>Some\<close> where there is no other answer. A successful
  status update answers with the new resource version of the object.
\<close>

datatype event =
    EvGetPod nname "go_error + pod"
  | EvGetPool nname "go_error + pool"
  | EvGetNode string "go_error + node"
  | EvGetSecret nname "go_error + bytes secret_data"
  | EvListPools "go_error + pool list"
  | EvListPods "go_error + pod list"
  | EvListPodsOnNode string "go_error + pod list"
  | EvListNodesWithLabel "string \<times> string" "go_error + node list"
  | EvUpdateStatus pool "go_error + nat"
  | EvUpdatePod pod "go_error option"
  | EvUpdateNode node "go_error option"
  | EvDeleteNode string "go_error option"
  | EvClientGetNode string "go_error + node"
  | EvClientUpdateNode node "go_error option"
  | EvRunNodeDrain drain_helper string "go_error option"
  | EvRunInstances run_instances_input "go_error + ec2_instance list"
  | EvTerminateInstances "string list" "go_error option"
  | EvDescribeInstances "ec2_filter list" "go_error + reservation list"
  | EvNow time
  | EvRandRead bytes

type_synonym 'a io = "(event list, 'a) state"

record world =
  w_GetPod :: "event list \<Rightarrow> nname \<Rightarrow> go_error + pod"
  w_GetPool :: "event list \<Rightarrow> nname \<Rightarrow> go_error + pool"
  w_GetNode :: "event list \<Rightarrow> string \<Rightarrow> go_error + node"
  w_GetSecret :: "event list \<Rightarrow> nname \<Rightarrow> go_error + bytes secret_data"
  w_ListPools :: "event list \<Rightarrow> go_error + pool list"
  w_ListPods :: "event list \<Rightarrow> go_error + pod list"
  w_ListPodsOnNode :: "event list \<Rightarrow> string \<Rightarrow> go_error + pod list"
  w_ListNodesWithLabel :: "event list \<Rightarrow> string \<times> string \<Rightarrow> go_error + node list"
  w_UpdateStatus :: "event list \<Rightarrow> pool \<Rightarrow> go_error + nat"
  w_UpdatePod :: "event list \<Rightarrow> pod \<Rightarrow> go_error option"
  w_UpdateNode :: "event list \<Rightarrow> node \<Rightarrow> go_error option"
  w_DeleteNode :: "event list \<Rightarrow> string \<Rightarrow> go_error option"
  w_ClientGetNode :: "event list \<Rightarrow> string \<Rightarrow> go_error + node"
  w_ClientUpdateNode :: "event list \<Rightarrow> node \<Rightarrow> go_error option"
  w_RunNodeDrain :: "event list \<Rightarrow> drain_helper \<Rightarrow> string \<Rightarrow> go_error option"
  w_RunInstances :: "event list \<Rightarrow> run_instances_input \<Rightarrow> go_error + ec2_instance list"
  w_TerminateInstances :: "event list \<Rightarrow> string list \<Rightarrow> go_error option"
  w_DescribeInstances :: "event list \<Rightarrow> ec2_filter list \<Rightarrow> go_error + reservation list"
  w_Now :: "event list \<Rightarrow> time"
  w_Rand :: "event list \<Rightarrow> nat \<Rightarrow> byte"
  yaml_Unmarshal :: "bytes \<Rightarrow> go_error + yaml_doc"
  yaml_Marshal :: "yaml_doc \<Rightarrow> go_error + bytes"
  pdqsort_pools :: "(pool \<Rightarrow> pool \<Rightarrow> bool) \<Rightarrow> pool list \<Rightarrow> pool list"
  pdqsort_types :: "(instance_type_config \<Rightarrow> instance_type_config \<Rightarrow> bool) \<Rightarrow>
    instance_type_config list \<Rightarrow> instance_type_config list"

section \<open>One definition per call\<close>

definition get_pod :: "world \<Rightarrow> nname \<Rightarrow> (go_error + pod) io" where
  "get_pod W key = call (\<lambda>h. w_GetPod W h key) (EvGetPod key)"

definition get_pool :: "world \<Rightarrow> nname \<Rightarrow> (go_error + pool) io" where
  "get_pool W key = call (\<lambda>h. w_GetPool W h key) (EvGetPool key)"

definition get_node :: "world \<Rightarrow> string \<Rightarrow> (go_error + node) io" where
  "get_node W key = call (\<lambda>h. w_GetNode W h key) (EvGetNode key)"

definition get_secret :: "world \<Rightarrow> nname \<Rightarrow> (go_error + bytes secret_data) io" where
  "get_secret W key = call (\<lambda>h. w_GetSecret W h key) (EvGetSecret key)"

definition list_pools :: "world \<Rightarrow> (go_error + pool list) io" where
  "list_pools W = call (\<lambda>h. w_ListPools W h) EvListPools"

definition list_pods :: "world \<Rightarrow> (go_error + pod list) io" where
  "list_pods W = call (\<lambda>h. w_ListPods W h) EvListPods"

definition list_pods_on_node :: "world \<Rightarrow> string \<Rightarrow> (go_error + pod list) io" where
  "list_pods_on_node W n = call (\<lambda>h. w_ListPodsOnNode W h n) (EvListPodsOnNode n)"

definition list_nodes_with_label :: "world \<Rightarrow> string \<times> string \<Rightarrow> (go_error + node list) io" where
  "list_nodes_with_label W l = call (\<lambda>h. w_ListNodesWithLabel W h l) (EvListNodesWithLabel l)"

definition update_pod :: "world \<Rightarrow> pod \<Rightarrow> go_error option io" where
  "update_pod W p = call (\<lambda>h. w_UpdatePod W h p) (EvUpdatePod p)"

definition update_node :: "world \<Rightarrow> node \<Rightarrow> go_error option io" where
  "update_node W n = call (\<lambda>h. w_UpdateNode W h n) (EvUpdateNode n)"

definition delete_node :: "world \<Rightarrow> string \<Rightarrow> go_error option io" where
  "delete_node W n = call (\<lambda>h. w_DeleteNode W h n) (EvDeleteNode n)"

definition client_get_node :: "world \<Rightarrow> string \<Rightarrow> (go_error + node) io" where
  "client_get_node W n = call (\<lambda>h. w_ClientGetNode W h n) (EvClientGetNode n)"

definition client_update_node :: "world \<Rightarrow> node \<Rightarrow> go_error option io" where
  "client_update_node W n = call (\<lambda>h. w_ClientUpdateNode W h n) (EvClientUpdateNode n)"

definition run_node_drain :: "world \<Rightarrow> drain_helper \<Rightarrow> string \<Rightarrow> go_error option io" where
  "run_node_drain W d n = call (\<lambda>h. w_RunNodeDrain W h d n) (EvRunNodeDrain d n)"

definition ec2_run_instances :: "world \<Rightarrow> run_instances_input \<Rightarrow> (go_error + ec2_instance list) io" where
  "ec2_run_instances W i = call (\<lambda>h. w_RunInstances W h i) (EvRunInstances i)"

definition ec2_terminate_instances :: "world \<Rightarrow> string list \<Rightarrow> go_error option io" where
  "ec2_terminate_instances W ids = call (\<lambda>h. w_TerminateInstances W h ids) (EvTerminateInstances ids)"

definition ec2_describe_instances :: "world \<Rightarrow> ec2_filter list \<Rightarrow> (go_error + reservation list) io" where
  "ec2_describe_instances W fs = call (\<lambda>h. w_DescribeInstances W h fs) (EvDescribeInstances fs)"

definition time_now :: "world \<Rightarrow> time io" where
  "time_now W = call (w_Now W) EvNow"

definition rand_read :: "world \<Rightarrow> nat \<Rightarrow> bytes io" where
  "rand_read W n = call (\<lambda>h. map (w_Rand W h) [0..<n]) EvRandRead"

text \<open>
  \<open>r.Status().Update(ctx, pool)\<close>. The request is the whole object; on success the client
  copies the answer into \<open>pool\<close>, that is, the object as sent with its new resource version.
  Both the error and the pool are results.
\<close>

definition update_status :: "world \<Rightarrow> pool \<Rightarrow> (go_error option \<times> pool) io" where
  "update_status W p =
     do {
       r \<leftarrow> call (\<lambda>h. w_UpdateStatus W h p) (EvUpdateStatus p);
       State_Monad.return
         (case r of Inl err \<Rightarrow> (Some err, p) | Inr rv \<Rightarrow> (None, p\<lparr>pool_ResourceVersion := rv\<rparr>))
     }"

lemmas world_calls = get_pod_def get_pool_def get_node_def get_secret_def list_pools_def list_pods_def
  list_pods_on_node_def list_nodes_with_label_def update_pod_def update_node_def delete_node_def
  client_get_node_def client_update_node_def run_node_drain_def ec2_run_instances_def
  ec2_terminate_instances_def ec2_describe_instances_def time_now_def rand_read_def

lemma emits_update_status [emits_rules]:
  "(\<And>err. R (Some err, p) [EvUpdateStatus p (Inl err)]) \<Longrightarrow>
   (\<And>rv. R (None, p\<lparr>pool_ResourceVersion := rv\<rparr>) [EvUpdateStatus p (Inr rv)]) \<Longrightarrow>
   emits (update_status W p) R"
  unfolding update_status_def by (intro emits_rules) (simp split: sum.split)

lemma emits_bind_update_status [emits_rules]:
  "(\<And>err. emits (f (Some err, p)) (\<lambda>y fs. R y (EvUpdateStatus p (Inl err) # fs))) \<Longrightarrow>
   (\<And>rv. emits (f (None, p\<lparr>pool_ResourceVersion := rv\<rparr>)) (\<lambda>y fs. R y (EvUpdateStatus p (Inr rv) # fs))) \<Longrightarrow>
   emits (State_Monad.bind (update_status W p) f) R"
  by (rule emits_bind [where S = "\<lambda>r es. (\<exists>err. r = (Some err, p) \<and> es = [EvUpdateStatus p (Inl err)]) \<or>
      (\<exists>rv. r = (None, p\<lparr>pool_ResourceVersion := rv\<rparr>) \<and> es = [EvUpdateStatus p (Inr rv)])"])
     (auto intro: emits_update_status)

section \<open>Results of a reconcile\<close>

text \<open>\<open>(ctrl.Result, error)\<close>: a requeue delay (0 is none) or an error.\<close>

record ctrl_result = RequeueAfter :: duration

type_synonym reconcile_result = "go_error + ctrl_result"

definition no_requeue :: reconcile_result where "no_requeue = Inr \<lparr>RequeueAfter = 0\<rparr>"

definition requeue_after :: "duration \<Rightarrow> reconcile_result" where
  "requeue_after d = Inr \<lparr>RequeueAfter = d\<rparr>"

section \<open>Reading a trace\<close>

fun is_launch :: "event \<Rightarrow> bool" where
  "is_launch (EvRunInstances i r) = True"
| "is_launch _ = False"

text \<open>The ID of the instance a call started: EC2 answered with at least one instance.\<close>

fun launched_of :: "event \<Rightarrow> string list" where
  "launched_of (EvRunInstances i (Inr (x # xs))) = [aws_ToString (ei_InstanceId x)]"
| "launched_of _ = []"

fun is_terminate :: "event \<Rightarrow> bool" where
  "is_terminate (EvTerminateInstances ids r) = True"
| "is_terminate _ = False"

fun is_cloud :: "event \<Rightarrow> bool" where
  "is_cloud (EvRunInstances i r) = True"
| "is_cloud (EvTerminateInstances ids r) = True"
| "is_cloud (EvDescribeInstances fs r) = True"
| "is_cloud _ = False"

text \<open>The pools a run read (each a version of a stored object) and the pools it wrote.\<close>

fun read_of :: "event \<Rightarrow> pool list" where
  "read_of (EvGetPool k (Inr p)) = [p]"
| "read_of (EvListPools (Inr ps)) = ps"
| "read_of _ = []"

fun write_of :: "event \<Rightarrow> pool list" where
  "write_of (EvUpdateStatus p r) = [p]"
| "write_of _ = []"

definition pools_read :: "event list \<Rightarrow> pool list" where
  "pools_read es = concat (map read_of es)"

definition pools_written :: "event list \<Rightarrow> pool list" where
  "pools_written es = concat (map write_of es)"

text \<open>The calls that change the cluster or the cloud.\<close>

fun is_effect :: "event \<Rightarrow> bool" where
  "is_effect (EvUpdateStatus p r) = True"
| "is_effect (EvUpdatePod p r) = True"
| "is_effect (EvUpdateNode n r) = True"
| "is_effect (EvDeleteNode n r) = True"
| "is_effect (EvClientUpdateNode n r) = True"
| "is_effect (EvRunNodeDrain d n r) = True"
| "is_effect (EvRunInstances i r) = True"
| "is_effect (EvTerminateInstances ids r) = True"
| "is_effect _ = False"

definition acts :: "event list \<Rightarrow> bool" where
  "acts es = list_ex is_effect es"

lemma acts_simps [simp]:
  "\<not> acts []" "acts (e # es) \<longleftrightarrow> is_effect e \<or> acts es" "acts (es @ fs) \<longleftrightarrow> acts es \<or> acts fs"
  by (simp_all add: acts_def)

lemma pools_written_simps [simp]:
  "pools_written [] = []"
  "pools_written (e # es) = write_of e @ pools_written es"
  "pools_written (es @ fs) = pools_written es @ pools_written fs"
  by (simp_all add: pools_written_def)

lemma pools_read_simps [simp]:
  "pools_read [] = []"
  "pools_read (e # es) = read_of e @ pools_read es"
  "pools_read (es @ fs) = pools_read es @ pools_read fs"
  by (simp_all add: pools_read_def)

lemma cloud_writes_nothing: "list_all is_cloud es \<Longrightarrow> pools_written es = []"
  by (induction es) (auto elim!: is_cloud.elims)

lemma cloud_reads_nothing: "list_all is_cloud es \<Longrightarrow> pools_read es = []"
  by (induction es) (auto elim!: is_cloud.elims)

text \<open>The Kubernetes nodes a run asked to delete.\<close>

fun deleted_of :: "event \<Rightarrow> string list" where
  "deleted_of (EvDeleteNode n r) = [n]"
| "deleted_of _ = []"

definition deleted :: "event list \<Rightarrow> string list" where
  "deleted es = concat (map deleted_of es)"

lemma deleted_simps [simp]:
  "deleted [] = []" "deleted (e # es) = deleted_of e @ deleted es" "deleted (es @ fs) = deleted es @ deleted fs"
  by (simp_all add: deleted_def)

lemma cloud_deletes_nothing: "list_all is_cloud es \<Longrightarrow> deleted es = []"
proof (induction es)
  case (Cons e es)
  then show ?case by (cases e) auto
qed simp


end
