(* ===== verification/Provider.thy ===== *)
theory Provider
  imports World
begin

text \<open>
  \<open>internal/cloud\<close>: the interface \<open>cloud.Provider\<close> and its types. The record holds the three
  operations a reconciler calls; the locale \<open>cloud_provider\<close> is the contract a reconciler relies
  on, stated over the calls an operation makes: nothing but cloud calls, at most one instance per
  launch and exactly when it succeeds, no panic of a launch, and a termination of the named instance only,
  which fails exactly when the cloud refuses it.
\<close>

record launch_options =
  lo_Name :: string
  lo_AMI :: string
  lo_InstanceType :: string
  lo_SubnetID :: string
  lo_SecurityGroupIDs :: "string list"
  lo_VolumeSize :: int
  lo_VolumeType :: string
  lo_UserData :: string
  lo_Tags :: strmap

record cloud_node =
  cn_InstanceID :: string
  cn_InstanceType :: string
  cn_Name :: string
  cn_State :: string
  cn_LaunchedAt :: time
  cn_Tags :: strmap

record provider =
  LaunchNode :: "launch_options \<Rightarrow> (go_error + string) io"
  TerminateNode :: "string \<Rightarrow> go_error option io"
  ListManagedNodes :: "(go_error + cloud_node list) io"

section \<open>What a trace says about instances\<close>

definition launched :: "event list \<Rightarrow> string list" where
  "launched es = concat (map launched_of es)"

abbreviation count_launched :: "event list \<Rightarrow> nat" where
  "count_launched es \<equiv> length (launched es)"

fun terminated_of :: "event \<Rightarrow> string list" where
  "terminated_of (EvTerminateInstances ids r) = ids"
| "terminated_of _ = []"

definition terminated :: "event list \<Rightarrow> string list" where
  "terminated es = concat (map terminated_of es)"

lemma launched_simps [simp]:
  "launched [] = []"
  "launched (e # es) = launched_of e @ launched es"
  "launched (es @ fs) = launched es @ launched fs"
  by (simp_all add: launched_def)

lemma terminated_simps [simp]:
  "terminated [] = []"
  "terminated (e # es) = terminated_of e @ terminated es"
  "terminated (es @ fs) = terminated es @ terminated fs"
  by (simp_all add: terminated_def)

text \<open>The cloud refused to terminate.\<close>

definition refused :: "event list \<Rightarrow> bool" where
  "refused es \<longleftrightarrow> (\<exists>ids err. EvTerminateInstances ids (Some err) \<in> set es)"

section \<open>The contract\<close>

locale cloud_provider =
  fixes P :: provider
  assumes launch_spec: "emits (LaunchNode P opts) (\<lambda>r es. r \<noteq> Inl NilDeref \<and> list_all is_cloud es \<and> terminated es = [] \<and>
      launched es = (case r of Inl _ \<Rightarrow> [] | Inr i \<Rightarrow> [i]))"
    and terminate_spec: "emits (TerminateNode P i) (\<lambda>r es. list_all is_cloud es \<and>
      terminated es = [i] \<and> launched es = [] \<and> (r = None \<longleftrightarrow> \<not> refused es))"
    and list_spec: "emits (ListManagedNodes P) (\<lambda>r es. list_all is_cloud es \<and>
      terminated es = [] \<and> launched es = [])"

end
