(* ===== verification/Sample_Objects.thy ===== *)
theory Sample_Objects
  imports Kube_Objects Pool_API
begin

text \<open>
  Concrete objects on which the witnesses of the development evaluate its theorems: a pool with
  two instance types, a GPU pool, a pod both may serve and a node. They follow the samples of
  \<open>config/samples\<close> and the fixtures of the tests, and model no code.
\<close>

definition sample_request :: "int \<Rightarrow> int \<Rightarrow> container" where
  "sample_request cpu mem =
     \<lparr>Requests = Some [(''cpu'', \<lparr>MilliValue = cpu, ScaledValue_Mega = 0, Value = 0\<rparr>),
                       (''memory'', \<lparr>MilliValue = 0, ScaledValue_Mega = mem, Value = 0\<rparr>)],
      Limits = None\<rparr>"

definition sample_pod :: pod where
  "sample_pod =
     \<lparr>pod_Namespace = ''default'', pod_Name = ''web'', pod_Labels = None, pod_Annotations = None,
      pod_OwnerKinds = [], pod_NodeName = '''', pod_Containers = [sample_request 1500 2000],
      pod_Tolerations = [\<lparr>tol_Key = ''burst'', tol_Value = ''''\<rparr>], pod_Affinity = None,
      pod_Phase = ''Pending'',
      pod_Conditions = [\<lparr>pc_Type = ''PodScheduled'', pc_Status = ''False'', pc_Reason = ''Unschedulable'',
                         pc_LastTransitionTime = 1\<rparr>]\<rparr>"

definition sample_type :: "string \<Rightarrow> instance_type_config" where
  "sample_type n = \<lparr>itc_Name = n, itc_AMI = '''', itc_Architecture = ''''\<rparr>"

definition sample_aws :: aws_config where
  "sample_aws =
     \<lparr>aws_Region = ''us-west-2'', aws_AMI = ''ami-1'', aws_InstanceType = '''',
      aws_InstanceTypes = [sample_type ''m6i.xlarge'', sample_type ''m6i.large''],
      aws_SubnetID = ''subnet-1'', aws_SecurityGroupIDs = [''sg-1''], aws_VolumeSize = 50,
      aws_VolumeType = ''gp3'', aws_Tags = None\<rparr>"

definition sample_pool :: pool where
  "sample_pool =
     \<lparr>pool_Namespace = ''burst-system'', pool_Name = ''general'', pool_ResourceVersion = 1,
      pool_Spec =
        \<lparr>Cloud = ''aws'', AWS = Some sample_aws,
         Talos = \<lparr>MachineConfigSecret = ''talos'', MachineConfigKey = ''''\<rparr>,
         Scaling = \<lparr>MaxNodes = 3, CooldownPeriod = 0, BootTimeout = 0\<rparr>,
         MatchRules = \<lparr>Tolerations = [\<lparr>tr_Key = ''burst'', tr_Operator = ''Exists'', tr_Value = ''''\<rparr>],
                       NodeAffinityLabels = None, Resources = []\<rparr>,
         NodeLabels = None, NodeTaints = []\<rparr>,
      pool_Status = \<lparr>ActiveNodes = 0, PendingNodes = 0, Nodes = [], Conditions = []\<rparr>\<rparr>"

definition sample_gpu_pool :: pool where
  "sample_gpu_pool =
     sample_pool
       \<lparr>pool_Name := ''gpu'',
        pool_Spec := (pool_Spec sample_pool)
          \<lparr>MatchRules := (MatchRules (pool_Spec sample_pool))
            \<lparr>Resources := [\<lparr>rr_ResourceName = ''nvidia.com/gpu'', rr_Operator = ''Exists''\<rparr>]\<rparr>\<rparr>\<rparr>"

definition sample_node :: node where
  "sample_node =
     \<lparr>node_Name = ''burst-general-00000000'', node_Labels = None, node_Unschedulable = False,
      node_Conditions = [\<lparr>nc_Type = ''Ready'', nc_Status = ''True''\<rparr>]\<rparr>"

definition sample_status :: "node_state \<Rightarrow> node_status" where
  "sample_status st =
     \<lparr>ns_Name = ''burst-general-00000000'', ns_InstanceID = ''i-1'', ns_InstanceType = ''m6i.large'',
      ns_State = st, ns_LaunchedAt = 1, ns_ReadyAt = None, ns_LastPodFinished = None\<rparr>"

lemmas samples = sample_request_def sample_pod_def sample_type_def sample_aws_def sample_pool_def
  sample_gpu_pool_def sample_node_def sample_status_def

end
