(* ===== verification/Slice_Sort.thy ===== *)
theory Slice_Sort
  imports Prelude
begin

text \<open>
  \<open>sort.Slice\<close>. Up to 12 elements Go's \<open>pdqsort_func\<close> is the insertion sort
  \<open>insertionSort_func\<close>, which is modelled as it is; beyond that it is a pattern-defeating
  quicksort, which is not stable and enters as the parameter \<open>pdq\<close> with what the package
  documents: the result is a permutation of the slice, ordered by \<open>lt\<close> when \<open>lt\<close> is a strict
  weak ordering. The locale \<open>slice_sort\<close> is that contract; the callers of \<open>sort.Slice\<close> are proved
  correct inside it, and \<open>insertion_sort_func\<close> is shown to satisfy it.
\<close>

section \<open>The model\<close>

text \<open>
  One round of the loop moves the element left past every element it is less than; the sorted
  prefix is kept in reverse, so its last element comes first.
\<close>

fun move_left :: "('a \<Rightarrow> 'a \<Rightarrow> bool) \<Rightarrow> 'a \<Rightarrow> 'a list \<Rightarrow> 'a list" where
  "move_left lt x [] = [x]"
| "move_left lt x (y # ys) = (if lt x y then y # move_left lt x ys else x # y # ys)"

definition insertion_sort_func :: "('a \<Rightarrow> 'a \<Rightarrow> bool) \<Rightarrow> 'a list \<Rightarrow> 'a list" where
  "insertion_sort_func lt xs = rev (foldl (\<lambda>prefix x. move_left lt x prefix) [] xs)"

definition sort_slice ::
  "(('a \<Rightarrow> 'a \<Rightarrow> bool) \<Rightarrow> 'a list \<Rightarrow> 'a list) \<Rightarrow> ('a \<Rightarrow> 'a \<Rightarrow> bool) \<Rightarrow> 'a list \<Rightarrow> 'a list" where
  "sort_slice pdq lt xs = (if length xs \<le> 12 then insertion_sort_func lt xs else pdq lt xs)"

section \<open>The contract\<close>

definition strict_weak :: "('a \<Rightarrow> 'a \<Rightarrow> bool) \<Rightarrow> bool" where
  "strict_weak lt \<longleftrightarrow>
     (\<forall>x y. lt x y \<longrightarrow> \<not> lt y x) \<and> (\<forall>x y z. lt x z \<longrightarrow> lt x y \<or> lt y z)"

lemma strict_weak_asym: "strict_weak lt \<Longrightarrow> lt x y \<Longrightarrow> \<not> lt y x"
  by (auto simp: strict_weak_def)

lemma strict_weak_negtrans: "strict_weak lt \<Longrightarrow> \<not> lt x y \<Longrightarrow> \<not> lt y z \<Longrightarrow> \<not> lt x z"
  unfolding strict_weak_def by blast

lemma strict_weak_key: "strict_weak (\<lambda>x y. f x < (f y :: 'b :: linorder))"
  by (auto simp: strict_weak_def)

locale slice_sort =
  fixes srt :: "('a \<Rightarrow> 'a \<Rightarrow> bool) \<Rightarrow> 'a list \<Rightarrow> 'a list"
  assumes permutes: "mset (srt lt xs) = mset xs"
    and ordered: "strict_weak lt \<Longrightarrow> sorted_wrt (\<lambda>x y. \<not> lt y x) (srt lt xs)"
begin

lemma set_srt [simp]: "set (srt lt xs) = set xs"
  by (metis permutes set_mset_mset)

lemma length_srt [simp]: "length (srt lt xs) = length xs"
  by (metis permutes size_mset)

lemma srt_Nil_iff [simp]: "srt lt xs = [] \<longleftrightarrow> xs = []"
  by (metis length_srt length_0_conv)

lemma hd_srt_least:
  assumes "strict_weak lt" and "srt lt xs = y # ys" and "x \<in> set xs"
  shows "\<not> lt x y"
proof -
  from ordered [OF assms(1), of xs] assms(2) have "\<forall>z \<in> set ys. \<not> lt z y" by simp
  moreover from assms(2,3) have "x \<in> set (y # ys)" by (metis set_srt)
  ultimately show ?thesis using strict_weak_asym [OF assms(1), of y y] by auto
qed

lemma mset_filter_srt: "mset (filter P (srt lt xs)) = mset (filter P xs)"
  by (simp add: permutes mset_filter)

end

section \<open>The insertion sort satisfies the contract\<close>

lemma mset_move_left: "mset (move_left lt x ys) = add_mset x (mset ys)"
  by (induction ys) auto

lemma set_move_left: "set (move_left lt x ys) = insert x (set ys)"
  by (metis mset_move_left set_mset_add_mset_insert set_mset_mset)

lemma sorted_move_left:
  assumes "strict_weak lt" and "sorted_wrt (\<lambda>x y. \<not> lt x y) ys"
  shows "sorted_wrt (\<lambda>x y. \<not> lt x y) (move_left lt x ys)"
  using assms(2)
proof (induction ys)
  case Nil
  then show ?case by simp
next
  case (Cons y ys)
  then show ?case
    by (auto simp: set_move_left dest: strict_weak_asym [OF assms(1)]
        strict_weak_negtrans [OF assms(1)])
qed

lemma mset_insertion_loop:
  "mset (foldl (\<lambda>prefix x. move_left lt x prefix) ys xs) = mset xs + mset ys"
  by (induction xs arbitrary: ys) (auto simp: mset_move_left)

lemma sorted_insertion_loop:
  "strict_weak lt \<Longrightarrow> sorted_wrt (\<lambda>x y. \<not> lt x y) ys \<Longrightarrow>
   sorted_wrt (\<lambda>x y. \<not> lt x y) (foldl (\<lambda>prefix x. move_left lt x prefix) ys xs)"
  by (induction xs arbitrary: ys) (auto simp: sorted_move_left)

interpretation go_insertion: slice_sort insertion_sort_func
proof
  fix lt :: "'a \<Rightarrow> 'a \<Rightarrow> bool" and xs
  show "mset (insertion_sort_func lt xs) = mset xs"
    by (simp add: insertion_sort_func_def mset_insertion_loop)
  assume "strict_weak lt"
  then show "sorted_wrt (\<lambda>x y. \<not> lt y x) (insertion_sort_func lt xs)"
    by (simp add: insertion_sort_func_def sorted_wrt_rev sorted_insertion_loop)
qed

lemma slice_sort_insertion: "slice_sort insertion_sort_func"
  by (rule go_insertion.slice_sort_axioms)

lemma slice_sort_sort_slice: "slice_sort pdq \<Longrightarrow> slice_sort (sort_slice pdq)"
  by (auto simp: slice_sort_def sort_slice_def go_insertion.permutes go_insertion.ordered)

end
