(* ===== verification/Sample_World.thy ===== *)
theory Sample_World
  imports World Sample_Objects Slice_Sort
begin

text \<open>
  A concrete world for the witnesses: one pool, one unschedulable pod, one node, an EC2 that
  launches instance \<open>i-1\<close> and a clock that stands at 1000 seconds. It models no code; a witness
  changes the answers it needs.
\<close>

definition sample_world :: world where
  "sample_world =
     \<lparr>w_GetPod = (\<lambda>h key. Inr sample_pod),
      w_GetPool = (\<lambda>h key. Inr sample_pool),
      w_GetNode = (\<lambda>h key. Inr sample_node),
      w_GetSecret = (\<lambda>h key. Inr (Some [(''worker.yaml'', [])])),
      w_ListPools = (\<lambda>h. Inr [sample_pool]),
      w_ListPods = (\<lambda>h. Inr [sample_pod]),
      w_ListPodsOnNode = (\<lambda>h n. Inr []),
      w_ListNodesWithLabel = (\<lambda>h l. Inr []),
      w_UpdateStatus = (\<lambda>h p. Inr 2),
      w_UpdatePod = (\<lambda>h p. None),
      w_UpdateNode = (\<lambda>h n. None),
      w_DeleteNode = (\<lambda>h n. None),
      w_ClientGetNode = (\<lambda>h n. Inr sample_node),
      w_ClientUpdateNode = (\<lambda>h n. None),
      w_RunNodeDrain = (\<lambda>h d n. None),
      w_RunInstances = (\<lambda>h i. Inr [\<lparr>ei_InstanceId = Some ''i-1'', ei_InstanceType = rii_InstanceType i,
                                   ei_State = Some ''pending'', ei_LaunchTime = Some 1, ei_Tags = []\<rparr>]),
      w_TerminateInstances = (\<lambda>h ids. None),
      w_DescribeInstances = (\<lambda>h fs. Inr []),
      w_Now = (\<lambda>h. 1000000000000),
      w_Rand = (\<lambda>h i. 0),
      yaml_Unmarshal = sample_unmarshal,
      yaml_Marshal = sample_marshal,
      pdqsort_pools = insertion_sort_func,
      pdqsort_types = insertion_sort_func\<rparr>"

lemma sample_world_sorts [simp]:
  "slice_sort (pdqsort_pools sample_world)" "slice_sort (pdqsort_types sample_world)"
  by (simp_all add: sample_world_def slice_sort_insertion)

end
