(* ===== verification/EC2_Provider.thy ===== *)
theory EC2_Provider
  imports Provider Sample_World
begin

text \<open>
  \<open>internal/cloud/aws/ec2.go\<close>: the EC2 implementation of \<open>cloud.Provider\<close>, and the proof that it
  keeps the provider contract whatever EC2 answers.
\<close>

section \<open>The model\<close>

definition mk_tag :: "string \<Rightarrow> string \<Rightarrow> ec2_tag" where
  "mk_tag k v = \<lparr>tag_Key = Some k, tag_Value = Some v\<rparr>"

definition launch_tags :: "launch_options \<Rightarrow> ec2_tag list" where
  "launch_tags opts =
     [mk_tag ''Name'' (lo_Name opts), mk_tag managedLabel ''true''] @
     map (\<lambda>(k, v). mk_tag k v) (gm_entries (lo_Tags opts))"

definition launch_input :: "launch_options \<Rightarrow> run_instances_input" where
  "launch_input opts =
     \<lparr>ImageId = lo_AMI opts,
      rii_InstanceType = lo_InstanceType opts,
      MinCount = 1,
      MaxCount = 1,
      SubnetId = lo_SubnetID opts,
      SecurityGroupIds = lo_SecurityGroupIDs opts,
      rii_UserData = lo_UserData opts,
      TagSpecifications = [\<lparr>ResourceType = ''instance'', spec_Tags = launch_tags opts\<rparr>],
      BlockDeviceMappings =
        [\<lparr>DeviceName = ''/dev/xvda'', bdm_VolumeSize = lo_VolumeSize opts,
          bdm_VolumeType = lo_VolumeType opts\<rparr>],
      InstanceInitiatedShutdownBehavior = ''terminate''\<rparr>"

definition EC2Provider_LaunchNode :: "world \<Rightarrow> launch_options \<Rightarrow> (go_error + string) io" where
  "EC2Provider_LaunchNode W opts =
     do {
       result \<leftarrow> ec2_run_instances W (launch_input opts);
       State_Monad.return
         (case result of
            Inl err \<Rightarrow> Inl (WrapErr ''launching EC2 instance'' err)
          | Inr instances \<Rightarrow>
              (if length instances = 0 then Inl (Plain ''no instances returned from RunInstances'')
               else Inr (aws_ToString (ei_InstanceId (instances ! 0)))))
     }"

definition EC2Provider_TerminateNode :: "world \<Rightarrow> string \<Rightarrow> go_error option io" where
  "EC2Provider_TerminateNode W instanceID =
     do {
       result \<leftarrow> ec2_terminate_instances W [instanceID];
       State_Monad.return
         (case result of
            None \<Rightarrow> None
          | Some err \<Rightarrow> Some (WrapErr (''terminating EC2 instance '' @ instanceID) err))
     }"

definition managed_filters :: "ec2_filter list" where
  "managed_filters =
     [\<lparr>filter_Name = ''tag:'' @ managedLabel, filter_Values = [''true'']\<rparr>,
      \<lparr>filter_Name = ''instance-state-name'', filter_Values = [''pending'', ''running'']\<rparr>]"

fun tags_loop :: "ec2_tag list \<Rightarrow> cloud_node \<Rightarrow> cloud_node" where
  "tags_loop [] node = node"
| "tags_loop (tag # tags) node =
     (let node = node\<lparr>cn_Tags := gm_put (aws_ToString (tag_Key tag)) (aws_ToString (tag_Value tag)) (cn_Tags node)\<rparr>;
          node = (if aws_ToString (tag_Key tag) = ''Name''
                  then node\<lparr>cn_Name := aws_ToString (tag_Value tag)\<rparr> else node)
      in tags_loop tags node)"

text \<open>\<open>instance.State\<close> is a pointer and is read without a check.\<close>

definition to_cloud_node :: "ec2_instance \<Rightarrow> go_error + cloud_node" where
  "to_cloud_node i =
     (case ei_State i of
        None \<Rightarrow> Inl NilDeref
      | Some stateName \<Rightarrow>
          (let node = \<lparr>cn_InstanceID = aws_ToString (ei_InstanceId i),
                       cn_InstanceType = ei_InstanceType i,
                       cn_Name = '''',
                       cn_State = stateName,
                       cn_LaunchedAt = zero_time,
                       cn_Tags = Some []\<rparr>;
               node = (case ei_LaunchTime i of None \<Rightarrow> node | Some t \<Rightarrow> node\<lparr>cn_LaunchedAt := t\<rparr>)
           in Inr (tags_loop (ei_Tags i) node)))"

fun collect_nodes :: "ec2_instance list \<Rightarrow> cloud_node list \<Rightarrow> go_error + cloud_node list" where
  "collect_nodes [] nodes = Inr nodes"
| "collect_nodes (i # is) nodes =
     (case to_cloud_node i of Inl err \<Rightarrow> Inl err | Inr node \<Rightarrow> collect_nodes is (nodes @ [node]))"

definition EC2Provider_ListManagedNodes :: "world \<Rightarrow> (go_error + cloud_node list) io" where
  "EC2Provider_ListManagedNodes W =
     do {
       result \<leftarrow> ec2_describe_instances W managed_filters;
       State_Monad.return
         (case result of
            Inl err \<Rightarrow> Inl (WrapErr ''describing EC2 instances'' err)
          | Inr reservations \<Rightarrow> collect_nodes (concat reservations) [])
     }"

definition ec2_provider :: "world \<Rightarrow> provider" where
  "ec2_provider W =
     \<lparr>LaunchNode = EC2Provider_LaunchNode W,
      TerminateNode = EC2Provider_TerminateNode W,
      ListManagedNodes = EC2Provider_ListManagedNodes W\<rparr>"

definition IsCapacityError :: "go_error \<Rightarrow> bool" where
  "IsCapacityError err =
     (case errors_As_APIError err of
        None \<Rightarrow> False
      | Some code \<Rightarrow>
          code \<in> {''InsufficientInstanceCapacity'', ''InstanceLimitExceeded'', ''Unsupported''})"

section \<open>EC2 keeps the provider contract\<close>

lemma ec2_provider_simps [simp]:
  "LaunchNode (ec2_provider W) = EC2Provider_LaunchNode W"
  "TerminateNode (ec2_provider W) = EC2Provider_TerminateNode W"
  "ListManagedNodes (ec2_provider W) = EC2Provider_ListManagedNodes W"
  by (simp_all add: ec2_provider_def)

interpretation ec2: cloud_provider "ec2_provider W" for W
proof
  show "emits (LaunchNode (ec2_provider W) opts) (\<lambda>r es. r \<noteq> Inl NilDeref \<and> list_all is_cloud es \<and> terminated es = [] \<and>
      launched es = (case r of Inl _ \<Rightarrow> [] | Inr i \<Rightarrow> [i]))" for opts
    unfolding ec2_provider_simps EC2Provider_LaunchNode_def world_calls
    by (intro emits_rules) (auto split: sum.splits simp: neq_Nil_conv)
  show "emits (TerminateNode (ec2_provider W) i) (\<lambda>r es. list_all is_cloud es \<and>
      terminated es = [i] \<and> launched es = [] \<and> (r = None \<longleftrightarrow> \<not> refused es))" for i
    unfolding ec2_provider_simps EC2Provider_TerminateNode_def world_calls
    by (intro emits_rules) (auto simp: refused_def split: option.splits)
  show "emits (ListManagedNodes (ec2_provider W)) (\<lambda>r es. list_all is_cloud es \<and>
      terminated es = [] \<and> launched es = [])"
    unfolding ec2_provider_simps EC2Provider_ListManagedNodes_def world_calls
    by (intro emits_rules) simp
qed

section \<open>Tags and names\<close>

lemma IsCapacityError_wrap [simp]: "IsCapacityError (WrapErr msg err) = IsCapacityError err"
  by (simp add: IsCapacityError_def)

lemma IsCapacityError_Plain [simp]: "\<not> IsCapacityError (Plain msg)"
  by (simp add: IsCapacityError_def)

lemma tags_loop_frame [simp]:
  "cn_InstanceID (tags_loop tags node) = cn_InstanceID node"
  "cn_LaunchedAt (tags_loop tags node) = cn_LaunchedAt node"
  "cn_State (tags_loop tags node) = cn_State node"
  "cn_InstanceType (tags_loop tags node) = cn_InstanceType node"
  by (induction tags arbitrary: node) (auto simp: Let_def)

text \<open>The last \<open>Name\<close> tag wins; an instance without one keeps the name it had.\<close>

lemma tags_loop_name:
  "cn_Name (tags_loop tags node) =
     (case rev (filter (\<lambda>t. aws_ToString (tag_Key t) = ''Name'') tags) of
        [] \<Rightarrow> cn_Name node | t # _ \<Rightarrow> aws_ToString (tag_Value t))"
  by (induction tags arbitrary: node) (auto simp: Let_def split: list.splits)

lemma tags_loop_tags:
  "gm_lookup (cn_Tags (tags_loop tags node)) k =
     (case rev (filter (\<lambda>t. aws_ToString (tag_Key t) = k) tags) of
        [] \<Rightarrow> gm_lookup (cn_Tags node) k | t # _ \<Rightarrow> Some (aws_ToString (tag_Value t)))"
  by (induction tags arbitrary: node) (auto simp: Let_def split: list.splits)

text \<open>The values of the tags with a key, in their order.\<close>

definition values_of :: "string \<Rightarrow> ec2_tag list \<Rightarrow> string list" where
  "values_of k tags = [aws_ToString (tag_Value t). t \<leftarrow> tags, aws_ToString (tag_Key t) = k]"

lemma values_of_filter:
  "values_of k tags = map (\<lambda>t. aws_ToString (tag_Value t)) (filter (\<lambda>t. aws_ToString (tag_Key t) = k) tags)"
  by (induction tags) (simp_all add: values_of_def)

lemma last_filter_values:
  "(case rev (filter (\<lambda>t. aws_ToString (tag_Key t) = k) tags) of [] \<Rightarrow> d | t # _ \<Rightarrow> f (aws_ToString (tag_Value t))) =
   (case values_of k tags of [] \<Rightarrow> d | vs \<Rightarrow> f (last vs))"
  unfolding values_of_filter
  by (cases "filter (\<lambda>t. aws_ToString (tag_Key t) = k) tags" rule: rev_cases)
     (auto simp: list.case_eq_if split: list.split)

lemmas tags_loop_values =
  tags_loop_name [unfolded last_filter_values [where f = "\<lambda>v. v"]]
  tags_loop_tags [unfolded last_filter_values]

lemma collect_nodes_eq:
  "list_all (\<lambda>i. ei_State i \<noteq> None) is \<Longrightarrow>
   \<exists>ms. collect_nodes is ns = Inr (ns @ ms) \<and> list_all2 (\<lambda>i m. to_cloud_node i = Inr m) is ms"
proof (induction "is" arbitrary: ns)
  case Nil
  then show ?case by simp
next
  case (Cons i "is")
  then obtain m where m: "to_cloud_node i = Inr m" by (auto simp: to_cloud_node_def Let_def)
  from Cons obtain ms where "collect_nodes is (ns @ [m]) = Inr ((ns @ [m]) @ ms)"
    "list_all2 (\<lambda>i m. to_cloud_node i = Inr m) is ms" by fastforce
  with m show ?case by (intro exI [of _ "m # ms"]) simp
qed

section \<open>Properties\<close>

lemma filter_launch_tags:
  assumes "k \<notin> fst ` set (gm_entries (lo_Tags opts))"
  shows "filter (\<lambda>t. aws_ToString (tag_Key t) = k) (launch_tags opts) =
    filter (\<lambda>t. aws_ToString (tag_Key t) = k) [mk_tag ''Name'' (lo_Name opts), mk_tag managedLabel ''true'']"
proof -
  have "filter (\<lambda>t. aws_ToString (tag_Key t) = k) (map (\<lambda>(k, v). mk_tag k v) (gm_entries (lo_Tags opts))) = []"
    using assms by (force simp: filter_empty_conv mk_tag_def aws_ToString_def)
  then show ?thesis by (simp add: launch_tags_def)
qed

text \<open>
  C28. Launch and describe fit together: an instance that carries the tags of its launch is listed
  under the node name it was launched with and as managed, provided the user's own tags use neither
  of these two keys.
\<close>

theorem launch_tags_describe:
  assumes "ei_Tags i = launch_tags opts" and "ei_State i = Some st"
    and "''Name'' \<notin> fst ` set (gm_entries (lo_Tags opts))"
    and "managedLabel \<notin> fst ` set (gm_entries (lo_Tags opts))"
  shows "\<exists>n. to_cloud_node i = Inr n \<and> cn_Name n = lo_Name opts \<and> gm_get (cn_Tags n) managedLabel = ''true'' \<and>
    cn_InstanceID n = aws_ToString (ei_InstanceId i)"
  using assms(1,2) filter_launch_tags [OF assms(3)] filter_launch_tags [OF assms(4)]
  by (simp add: to_cloud_node_def Let_def tags_loop_name tags_loop_tags gm_get_def mk_tag_def aws_ToString_def
      split: option.split)

definition sample_options :: launch_options where
  "sample_options =
     \<lparr>lo_Name = ''burst-general-00000000'', lo_AMI = ''ami-1'', lo_InstanceType = ''m6i.large'',
      lo_SubnetID = ''subnet-1'', lo_SecurityGroupIDs = [], lo_VolumeSize = 50, lo_VolumeType = ''gp3'',
      lo_UserData = '''', lo_Tags = Some [(''team'', ''infra'')]\<rparr>"

definition sample_instance :: ec2_instance where
  "sample_instance =
     \<lparr>ei_InstanceId = Some ''i-1'', ei_InstanceType = ''m6i.large'', ei_State = Some ''running'',
      ei_LaunchTime = Some 1, ei_Tags = launch_tags sample_options\<rparr>"

lemma launch_tags_describe_witness:
  "\<exists>n. to_cloud_node sample_instance = Inr n \<and> cn_Name n = ''burst-general-00000000'' \<and>
     gm_get (cn_Tags n) managedLabel = ''true'' \<and> cn_InstanceID n = ''i-1''"
  using launch_tags_describe [of sample_instance sample_options "''running''"]
  by (simp add: sample_instance_def sample_options_def aws_ToString_def)

text \<open>
  C29. \<open>ListManagedNodes\<close> asks EC2 once, for pending and running instances with the managed tag, and
  returns every instance of the answer once, in its order, with its data: id, type, state and launch
  time, the value of its last \<open>Name\<close> tag as its name (empty without one), and all its tags, the last
  value of a key counting.
\<close>

theorem ListManagedNodes_complete:
  assumes "w_DescribeInstances W h managed_filters = Inr reservations"
    and "\<forall>i \<in> set (concat reservations). ei_State i \<noteq> None"
  shows "calls_of (EC2Provider_ListManagedNodes W) h = [EvDescribeInstances managed_filters (Inr reservations)] \<and>
    (\<exists>ns. outcome_of (EC2Provider_ListManagedNodes W) h = Inr ns \<and>
       list_all2 (\<lambda>i n. cn_InstanceID n = aws_ToString (ei_InstanceId i) \<and> cn_InstanceType n = ei_InstanceType i \<and>
         Some (cn_State n) = ei_State i \<and>
         cn_LaunchedAt n = (case ei_LaunchTime i of None \<Rightarrow> zero_time | Some t \<Rightarrow> t) \<and>
         cn_Name n = (case values_of ''Name'' (ei_Tags i) of [] \<Rightarrow> [] | vs \<Rightarrow> last vs) \<and>
         (\<forall>k. gm_lookup (cn_Tags n) k = (case values_of k (ei_Tags i) of [] \<Rightarrow> None | vs \<Rightarrow> Some (last vs))))
         (concat reservations) ns)"
proof -
  from assms(2) collect_nodes_eq [of "concat reservations" "[]"] obtain ns where
    ns: "collect_nodes (concat reservations) [] = Inr ns"
    "list_all2 (\<lambda>i m. to_cloud_node i = Inr m) (concat reservations) ns" by (auto simp: list_all_iff)
  have "list_all2 (\<lambda>i n. cn_InstanceID n = aws_ToString (ei_InstanceId i) \<and> cn_InstanceType n = ei_InstanceType i \<and>
         Some (cn_State n) = ei_State i \<and>
         cn_LaunchedAt n = (case ei_LaunchTime i of None \<Rightarrow> zero_time | Some t \<Rightarrow> t) \<and>
         cn_Name n = (case values_of ''Name'' (ei_Tags i) of [] \<Rightarrow> [] | vs \<Rightarrow> last vs) \<and>
         (\<forall>k. gm_lookup (cn_Tags n) k = (case values_of k (ei_Tags i) of [] \<Rightarrow> None | vs \<Rightarrow> Some (last vs))))
         (concat reservations) ns"
    using ns(2) by (rule list_all2_mono) (auto simp: to_cloud_node_def Let_def tags_loop_values gm_lookup_def [of "Some []"] split: option.splits list.splits)
  with ns(1) assms(1) show ?thesis
    by (simp add: EC2Provider_ListManagedNodes_def world_calls calls_of_def outcome_of_def Let_def)
qed

lemma ListManagedNodes_complete_witness:
  "\<exists>ns. outcome_of (EC2Provider_ListManagedNodes
      (sample_world\<lparr>w_DescribeInstances := \<lambda>h fs. Inr [[sample_instance]]\<rparr>)) [] = Inr ns \<and> length ns = 1"
  using ListManagedNodes_complete [of "sample_world\<lparr>w_DescribeInstances := \<lambda>h fs. Inr [[sample_instance]]\<rparr>"
      "[]" "[[sample_instance]]"]
  by (auto simp: sample_instance_def list_all2_Cons1)

end
