(* ===== verification/Lifecycle.thy ===== *)
theory Lifecycle
  imports Provider "HOL-Library.Multiset"
begin

text \<open>
  The abstract specification of a pool status: the lifecycle of its nodes as a step relation with
  unbounded counters, its invariant, and the discipline that ties the status writes of a handler
  to it. \<open>life L mx\<close> has one rule per change the reconcilers may make; \<open>mx\<close> is the pool's
  \<open>MaxNodes\<close>. The handlers are shown to refine it in their own theories.
\<close>

section \<open>The machine\<close>

definition with_node :: "nat \<Rightarrow> (node_status \<Rightarrow> node_status) \<Rightarrow> pool_status \<Rightarrow> pool_status" where
  "with_node j f st = st\<lparr>Nodes := (Nodes st)[j := f (Nodes st ! j)]\<rparr>"

definition without_node :: "nat \<Rightarrow> pool_status \<Rightarrow> pool_status" where
  "without_node j st = st\<lparr>Nodes := remove_at j (Nodes st)\<rparr>"

inductive life :: "string set \<Rightarrow> int \<Rightarrow> pool_status \<Rightarrow> pool_status \<Rightarrow> bool" for L mx where
  launched: "ns_State n = Pending \<Longrightarrow> ns_InstanceID n \<in> L \<Longrightarrow> ActiveNodes st + PendingNodes st < mx \<Longrightarrow>
    life L mx st (st\<lparr>Nodes := Nodes st @ [n], PendingNodes := PendingNodes st + 1\<rparr>)"
| ready: "j < length (Nodes st) \<Longrightarrow> ns_State (Nodes st ! j) = Pending \<Longrightarrow>
    life L mx st ((with_node j (\<lambda>n. n\<lparr>ns_State := Running, ns_ReadyAt := Some t\<rparr>) st)
      \<lparr>PendingNodes := PendingNodes st - 1, ActiveNodes := ActiveNodes st + 1\<rparr>)"
| timed_out: "j < length (Nodes st) \<Longrightarrow> ns_State (Nodes st ! j) = Pending \<Longrightarrow>
    life L mx st ((without_node j st)\<lparr>PendingNodes := PendingNodes st - 1\<rparr>)"
| busy: "j < length (Nodes st) \<Longrightarrow> ns_State (Nodes st ! j) = Running \<Longrightarrow>
    life L mx st (with_node j (\<lambda>n. n\<lparr>ns_LastPodFinished := None\<rparr>) st)"
| idle: "j < length (Nodes st) \<Longrightarrow> ns_State (Nodes st ! j) = Running \<Longrightarrow>
    ns_LastPodFinished (Nodes st ! j) = None \<Longrightarrow>
    life L mx st (with_node j (\<lambda>n. n\<lparr>ns_LastPodFinished := Some t\<rparr>) st)"
| cordoned: "j < length (Nodes st) \<Longrightarrow> ns_State (Nodes st ! j) = Running \<Longrightarrow>
    life L mx st (with_node j (\<lambda>n. n\<lparr>ns_State := Cordoned\<rparr>) st)"
| draining: "j < length (Nodes st) \<Longrightarrow> ns_State (Nodes st ! j) = Cordoned \<Longrightarrow>
    life L mx st (with_node j (\<lambda>n. n\<lparr>ns_State := Draining\<rparr>) st)"
| terminating: "j < length (Nodes st) \<Longrightarrow> ns_State (Nodes st ! j) = Draining \<Longrightarrow>
    life L mx st (with_node j (\<lambda>n. n\<lparr>ns_State := Terminating\<rparr>) st)"
| torn_down: "j < length (Nodes st) \<Longrightarrow> ns_State (Nodes st ! j) = Terminating \<Longrightarrow>
    life L mx st ((without_node j st)\<lparr>ActiveNodes := max 0 (ActiveNodes st - 1)\<rparr>)"
| orphan_pending: "j < length (Nodes st) \<Longrightarrow> ns_State (Nodes st ! j) = Pending \<Longrightarrow>
    life L mx st ((without_node j st)\<lparr>PendingNodes := max 0 (PendingNodes st - 1)\<rparr>)"
| orphan_started: "j < length (Nodes st) \<Longrightarrow>
    ns_State (Nodes st ! j) \<in> {Running, Cordoned, Draining} \<Longrightarrow>
    life L mx st ((without_node j st)\<lparr>ActiveNodes := max 0 (ActiveNodes st - 1)\<rparr>)"
| orphan_terminating: "j < length (Nodes st) \<Longrightarrow> ns_State (Nodes st ! j) = Terminating \<Longrightarrow>
    life L mx st (without_node j st)"

section \<open>The invariant\<close>

text \<open>
  The pending counter is exact; the active counter is at least the number of nodes past pending.
  Equality is too much to ask: \<open>orphan_terminating\<close> forgets a node and leaves it counted.
\<close>

definition counters_ok :: "pool_status \<Rightarrow> bool" where
  "counters_ok st \<longleftrightarrow>
     PendingNodes st = count_pending (Nodes st) \<and> count_started (Nodes st) \<le> ActiveNodes st"

definition within :: "int \<Rightarrow> pool_status \<Rightarrow> bool" where
  "within mx st \<longleftrightarrow> ActiveNodes st + PendingNodes st \<le> mx"

lemma counters_ok_nonneg:
  "counters_ok st \<Longrightarrow> 0 \<le> PendingNodes st \<and> 0 \<le> ActiveNodes st"
  by (auto simp: counters_ok_def intro: order_trans [OF count_nonneg(2)])

lemma counters_ok_tracked: "counters_ok st \<Longrightarrow> int (length (Nodes st)) \<le> ActiveNodes st + PendingNodes st"
  by (simp add: counters_ok_def count_total [symmetric])

lemma count_pending_pos: "j < length ns \<Longrightarrow> ns_State (ns ! j) = Pending \<Longrightarrow> 1 \<le> count_pending ns"
  using count_remove_at(1) [of j ns] count_nonneg(1) [of "remove_at j ns"] by simp

lemma count_started_pos: "j < length ns \<Longrightarrow> ns_State (ns ! j) \<noteq> Pending \<Longrightarrow> 1 \<le> count_started ns"
  using count_remove_at(2) [of j ns] count_nonneg(2) [of "remove_at j ns"] by simp

lemmas count_node_simps = counters_ok_def within_def with_node_def without_node_def
  count_update count_remove_at

lemma life_counters_ok: "life L mx st st' \<Longrightarrow> counters_ok st \<Longrightarrow> counters_ok st'"
  by (induction rule: life.induct)
     (auto simp: count_node_simps dest: count_pending_pos count_started_pos)

lemma life_within: "life L mx st st' \<Longrightarrow> counters_ok st \<Longrightarrow> within mx st \<Longrightarrow> within mx st'"
  by (induction rule: life.induct)
     (auto simp: count_node_simps dest: count_pending_pos count_started_pos)

definition status_ok :: "int \<Rightarrow> pool_status \<Rightarrow> bool" where
  "status_ok mx st \<longleftrightarrow> counters_ok st \<and> within mx st"

lemma life_star_ok: "(life L mx)\<^sup>*\<^sup>* st st' \<Longrightarrow> status_ok mx st \<Longrightarrow> status_ok mx st'"
  by (induction rule: rtranclp_induct) (auto simp: status_ok_def intro: life_counters_ok life_within)

section \<open>The discipline of the writes\<close>

definition pool_max :: "pool \<Rightarrow> int" where
  "pool_max pl = MaxNodes (Scaling (pool_Spec pl))"

text \<open>A pool the API server may hold: sound counters, and \<open>MaxNodes\<close> is an \<open>int32\<close>.\<close>

definition pool_ok :: "pool \<Rightarrow> bool" where
  "pool_ok pl \<longleftrightarrow> status_ok (pool_max pl) (pool_Status pl) \<and> pool_max pl < 2 ^ 31"

text \<open>Same object, same specification, same version: only the status differs.\<close>

definition same_version :: "pool \<Rightarrow> pool \<Rightarrow> bool" where
  "same_version b p \<longleftrightarrow> (\<exists>st. p = b\<lparr>pool_Status := st\<rparr>)"

text \<open>The instances a status tracks, with repetitions.\<close>

definition tracked :: "pool_status \<Rightarrow> string multiset" where
  "tracked st = mset (map ns_InstanceID (Nodes st))"

text \<open>
  \<open>p\<close> follows from \<open>b\<close>: only the status differs, it tracks no instance but those of \<open>b\<close> and
  of \<open>M\<close> (the instances launched for it), and lifecycle steps lead to it when \<open>b\<close> is sound.
\<close>

definition follows :: "string multiset \<Rightarrow> pool \<Rightarrow> pool \<Rightarrow> bool" where
  "follows M b p \<longleftrightarrow> same_version b p \<and>
     tracked (pool_Status p) \<subseteq># tracked (pool_Status b) + M \<and>
     (pool_ok b \<longrightarrow> (life (set_mset M) (pool_max b))\<^sup>*\<^sup>* (pool_Status b) (pool_Status p))"

text \<open>The versions of pools a call makes known: what it read, or what an accepted write stored.\<close>

fun base_of :: "event \<Rightarrow> pool list" where
  "base_of (EvUpdateStatus p (Inr rv)) = [p\<lparr>pool_ResourceVersion := rv\<rparr>]"
| "base_of e = read_of e"

definition bases :: "event list \<Rightarrow> pool list" where
  "bases es = concat (map base_of es)"

text \<open>
  The instances at hand: those launched since the last write. A write uses them up, whether or not
  it is accepted.
\<close>

definition at_hand :: "string multiset \<Rightarrow> event \<Rightarrow> string multiset" where
  "at_hand M e = (if write_of e = [] then M + mset (launched_of e) else {#})"

lemma at_hand_quiet [simp]: "write_of e = [] \<Longrightarrow> launched_of e = [] \<Longrightarrow> at_hand M e = M"
  by (simp add: at_hand_def)

fun disciplined :: "string multiset \<Rightarrow> pool list \<Rightarrow> event list \<Rightarrow> bool" where
  "disciplined M B [] = True"
| "disciplined M B (e # es) =
     (list_all (\<lambda>p. \<exists>b \<in> set B. follows M b p) (write_of e) \<and>
      disciplined (at_hand M e) (B @ base_of e) es)"

lemma bases_simps [simp]:
  "bases [] = []" "bases (e # es) = base_of e @ bases es" "bases (es @ fs) = bases es @ bases fs"
  by (simp_all add: bases_def)

lemma disciplined_append:
  "disciplined M B (es @ fs) \<longleftrightarrow> disciplined M B es \<and> disciplined (foldl at_hand M es) (B @ bases es) fs"
  by (induction es arbitrary: M B) auto

lemma at_hand_mono: "M \<subseteq># N \<Longrightarrow> at_hand M e \<subseteq># at_hand N e"
  by (simp add: at_hand_def)

lemma at_hand_all_mono: "M \<subseteq># N \<Longrightarrow> foldl at_hand M es \<subseteq># foldl at_hand N es"
  by (induction es arbitrary: M N) (auto intro: at_hand_mono)

lemma at_hand_no_write: "pools_written es = [] \<Longrightarrow> foldl at_hand M es = M + mset (launched es)"
  by (induction es arbitrary: M) (simp_all add: at_hand_def)

lemma life_mono: "life L mx st st' \<Longrightarrow> L \<subseteq> K \<Longrightarrow> life K mx st st'"
  by (induction rule: life.induct) (auto intro: life.intros)

lemma life_star_mono: "(life L mx)\<^sup>*\<^sup>* st st' \<Longrightarrow> L \<subseteq> K \<Longrightarrow> (life K mx)\<^sup>*\<^sup>* st st'"
  by (induction rule: rtranclp_induct) (auto intro: life_mono rtranclp.rtrancl_into_rtrancl)

lemma follows_mono: "follows M b p \<Longrightarrow> M \<subseteq># N \<Longrightarrow> follows N b p"
  by (auto simp: follows_def intro: subset_mset.order_trans life_star_mono dest: set_mset_mono)

lemma disciplined_mono: "disciplined M B es \<Longrightarrow> M \<subseteq># N \<Longrightarrow> set B \<subseteq> set C \<Longrightarrow> disciplined N C es"
proof (induction es arbitrary: M N B C)
  case (Cons e es)
  from Cons.prems(1) have "disciplined (at_hand M e) (B @ base_of e) es" by simp
  moreover have "set (B @ base_of e) \<subseteq> set (C @ base_of e)" using Cons.prems(3) by auto
  ultimately have "disciplined (at_hand N e) (C @ base_of e) es"
    by (rule Cons.IH [OF _ at_hand_mono [OF Cons.prems(2)]])
  moreover have "\<exists>c \<in> set C. follows N c p" if "p \<in> set (write_of e)" for p
  proof -
    from that Cons.prems(1) obtain b where "b \<in> set B" "follows M b p" by (auto simp: list_all_iff)
    with Cons.prems(2,3) show ?thesis by (blast intro: follows_mono)
  qed
  ultimately show ?case by (simp add: list_all_iff)
qed simp

lemma disciplined_later:
  "disciplined {#} B es \<Longrightarrow> set B \<subseteq> set C \<Longrightarrow> disciplined M C es"
  by (erule disciplined_mono) simp_all

lemma disciplined_no_write: "pools_written es = [] \<Longrightarrow> disciplined M B es"
  by (induction es arbitrary: M B) auto

lemma cloud_disciplined: "list_all is_cloud es \<Longrightarrow> disciplined M B es"
  by (rule disciplined_no_write) (rule cloud_writes_nothing)

lemma follows_ok: "follows M b p \<Longrightarrow> pool_ok b \<Longrightarrow> pool_ok p"
  by (auto simp: follows_def pool_ok_def same_version_def pool_max_def intro: life_star_ok)

text \<open>Disciplined writes keep the invariant: from sound pools read to sound pools written.\<close>

lemma disciplined_ok:
  "disciplined M B es \<Longrightarrow> \<forall>b \<in> set B. pool_ok b \<Longrightarrow> \<forall>p \<in> set (pools_read es). pool_ok p \<Longrightarrow>
   \<forall>p \<in> set (pools_written es). pool_ok p"
proof (induction es arbitrary: M B)
  case (Cons e es)
  from Cons.prems(1,2) have w: "\<forall>p \<in> set (write_of e). pool_ok p"
    by (fastforce simp: list_all_iff dest: follows_ok)
  have "\<forall>p \<in> set (base_of e). pool_ok p"
  proof (cases "\<exists>p rv. e = EvUpdateStatus p (Inr rv)")
    case True
    with w show ?thesis by (auto simp: pool_ok_def pool_max_def)
  next
    case False
    then have "base_of e = read_of e" by (cases e rule: base_of.cases) auto
    with Cons.prems show ?thesis by auto
  qed
  with Cons.prems w Cons.IH [of "at_hand M e" "B @ base_of e"] show ?case by auto
qed simp

text \<open>One step on the status of the version in hand.\<close>

lemma followsI:
  "(pool_ok b \<Longrightarrow> life (set_mset M) (pool_max b) (pool_Status b) st) \<Longrightarrow> tracked st \<subseteq># tracked (pool_Status b) \<Longrightarrow>
   follows M b (b\<lparr>pool_Status := st\<rparr>)"
  by (auto simp: follows_def same_version_def intro: subset_mset.add_increasing2)

lemma tracked_with_node [simp]:
  "ns_InstanceID (f (Nodes st ! j)) = ns_InstanceID (Nodes st ! j) \<Longrightarrow> tracked (with_node j f st) = tracked st"
proof -
  assume "ns_InstanceID (f (Nodes st ! j)) = ns_InstanceID (Nodes st ! j)"
  then have "map ns_InstanceID ((Nodes st)[j := f (Nodes st ! j)]) = map ns_InstanceID (Nodes st)"
    by (cases "j < length (Nodes st)") (simp_all add: map_update list_update_same_conv list_update_beyond)
  moreover have "Nodes (with_node j f st) = (Nodes st)[j := f (Nodes st ! j)]" by (simp add: with_node_def)
  ultimately show ?thesis by (simp only: tracked_def)
qed

lemma tracked_without_node [simp]: "tracked (without_node j st) \<subseteq># tracked st"
  by (simp add: tracked_def without_node_def image_mset_subseteq_mono mset_remove_at_le)

lemma tracked_counters [simp]:
  "tracked (st\<lparr>PendingNodes := x\<rparr>) = tracked st" "tracked (st\<lparr>ActiveNodes := x\<rparr>) = tracked st"
  by (simp_all add: tracked_def)

lemma pool_ok_counters:
  assumes "pool_ok pl"
  shows "counters_ok (pool_Status pl)" "0 \<le> PendingNodes (pool_Status pl)" "0 \<le> ActiveNodes (pool_Status pl)"
    "ActiveNodes (pool_Status pl) + PendingNodes (pool_Status pl) \<le> pool_max pl" "pool_max pl < 2 ^ 31"
  using assms counters_ok_nonneg [of "pool_Status pl"]
  by (auto simp: pool_ok_def status_ok_def within_def)

lemma int32_small: "0 \<le> x \<Longrightarrow> x < 2147483648 \<Longrightarrow> int32 x = x"
  by (simp add: go_int)

text \<open>The counters of a sound pool do not wrap around when a node it tracks changes.\<close>

lemma pool_ok_pending:
  assumes "pool_ok pl" "j < length (Nodes (pool_Status pl))" "ns_State (Nodes (pool_Status pl) ! j) = Pending"
  shows "1 \<le> PendingNodes (pool_Status pl)"
    and "int32 (PendingNodes (pool_Status pl) - 1) = PendingNodes (pool_Status pl) - 1"
    and "int32 (ActiveNodes (pool_Status pl) + 1) = ActiveNodes (pool_Status pl) + 1"
  using pool_ok_counters [OF assms(1)] count_pending_pos [OF assms(2,3)]
  by (simp_all add: int32_small counters_ok_def)

lemma pool_ok_started:
  assumes "pool_ok pl" "j < length (Nodes (pool_Status pl))" "ns_State (Nodes (pool_Status pl) ! j) \<noteq> Pending"
  shows "1 \<le> ActiveNodes (pool_Status pl)"
    and "int32 (ActiveNodes (pool_Status pl) - 1) = ActiveNodes (pool_Status pl) - 1"
proof -
  from pool_ok_counters(1) [OF assms(1)] count_started_pos [OF assms(2,3)]
  show b1: "1 \<le> ActiveNodes (pool_Status pl)" by (simp add: counters_ok_def)
  from pool_ok_counters(2,4,5) [OF assms(1)] have "ActiveNodes (pool_Status pl) < 2 ^ 31" by linarith
  note b = b1 this
  from b show "int32 (ActiveNodes (pool_Status pl) - 1) = ActiveNodes (pool_Status pl) - 1"
    by (intro int32_small) simp_all
qed

section \<open>One node in a run of the machine\<close>

text \<open>\<open>n'\<close> is a later record of the node \<open>n\<close>: the same node, in the same state or a later one.\<close>

definition onward :: "node_status \<Rightarrow> node_status \<Rightarrow> bool" where
  "onward n n' \<longleftrightarrow> ns_Name n' = ns_Name n \<and> ns_InstanceID n' = ns_InstanceID n \<and>
     ns_InstanceType n' = ns_InstanceType n \<and> ns_State n \<le> ns_State n'"

lemma onward_refl [simp]: "onward n n"
  by (simp add: onward_def)

lemma onward_self: "n' \<in> A \<Longrightarrow> \<exists>n \<in> A. onward n n'"
  by (rule bexI [of _ n']) simp_all

lemma onward_trans: "onward a b \<Longrightarrow> onward b c \<Longrightarrow> onward a c"
  by (auto simp: onward_def)

lemma with_node_onward:
  assumes "n' \<in> set (Nodes (with_node j f st))" "j < length (Nodes st)" "onward (Nodes st ! j) (f (Nodes st ! j))"
  shows "\<exists>n \<in> set (Nodes st). onward n n'"
proof -
  from assms(1) set_update_subset_insert [of "Nodes st" j]
  have "n' = f (Nodes st ! j) \<or> n' \<in> set (Nodes st)" by (auto simp: with_node_def)
  with assms(2,3) show ?thesis by (auto intro: onward_self)
qed

lemma without_node_onward:
  "n' \<in> set (Nodes (without_node j st)) \<Longrightarrow> \<exists>n \<in> set (Nodes st). onward n n'"
  using set_remove_at [of j "Nodes st"] by (auto simp: without_node_def intro: onward_self)

text \<open>Every node of a later status is a later record of one tracked before, or was launched.\<close>

lemma life_onward:
  assumes "life L mx st st'" "n' \<in> set (Nodes st')"
  shows "(\<exists>n \<in> set (Nodes st). onward n n') \<or> ns_InstanceID n' \<in> L"
  using assms
proof (cases rule: life.cases)
  case launched
  then show ?thesis using assms(2) by (auto intro: onward_self)
qed (use assms(2) in \<open>auto dest!: with_node_onward without_node_onward
      simp: onward_def [of "Nodes st ! _"] less_eq_node_state_def\<close>)

lemma life_star_onward:
  "(life L mx)\<^sup>*\<^sup>* st st' \<Longrightarrow> n' \<in> set (Nodes st') \<Longrightarrow>
   (\<exists>n \<in> set (Nodes st). onward n n') \<or> ns_InstanceID n' \<in> L"
proof (induction arbitrary: n' rule: rtranclp_induct)
  case base
  then show ?case by (simp add: onward_self)
next
  case (step st1 st2)
  from life_onward [OF step.hyps(2) step.prems] show ?case
  proof
    assume "\<exists>n \<in> set (Nodes st1). onward n n'"
    then obtain m where m: "m \<in> set (Nodes st1)" "onward m n'" by blast
    from step.IH [OF m(1)] m(2) show ?thesis by (auto simp: onward_def intro: order_trans)
  qed simp
qed

section \<open>Where terminated instances come from\<close>

text \<open>Every instance a run terminates is tracked by a version it knew when it did.\<close>

fun sourced :: "pool list \<Rightarrow> event list \<Rightarrow> bool" where
  "sourced B [] = True"
| "sourced B (e # es) =
     (list_all (\<lambda>x. \<exists>b \<in> set B. x \<in># tracked (pool_Status b)) (terminated_of e) \<and> sourced (B @ base_of e) es)"

lemma sourced_append: "sourced B (es @ fs) \<longleftrightarrow> sourced B es \<and> sourced (B @ bases es) fs"
  by (induction es arbitrary: B) auto

lemma sourced_from:
  "\<forall>x \<in> set (terminated es). \<exists>b \<in> set B. x \<in># tracked (pool_Status b) \<Longrightarrow> sourced B es"
proof (induction es arbitrary: B)
  case (Cons e es)
  from Cons.prems have "sourced (B @ base_of e) es" by (intro Cons.IH) auto
  with Cons.prems show ?case by (simp add: list_all_iff)
qed simp

lemma sourced_none: "terminated es = [] \<Longrightarrow> sourced B es"
  by (rule sourced_from) simp

lemma sourced_terminated:
  "sourced B es \<Longrightarrow> x \<in> set (terminated es) \<Longrightarrow> \<exists>b \<in> set (B @ bases es). x \<in># tracked (pool_Status b)"
proof (induction es arbitrary: B)
  case (Cons e es)
  show ?case
  proof (cases "x \<in> set (terminated_of e)")
    case True
    with Cons.prems(1) show ?thesis by (auto simp: list_all_iff)
  next
    case False
    with Cons.IH [of "B @ base_of e"] Cons.prems show ?thesis by simp
  qed
qed simp

lemma tracked_nth:
  "j < length (Nodes st) \<Longrightarrow> ns_InstanceID (Nodes st ! j) \<in># tracked st"
  by (simp add: tracked_def)

end
