(* ===== verification/Matching.thy ===== *)
theory Matching
  imports Sample_Objects Slice_Sort "HOL-Library.List_Lexorder" "HOL-Library.Char_ord"
begin

text \<open>
  \<open>internal/controller/matching.go\<close>: which pool an unschedulable pod belongs to. Strings compare
  as byte sequences (\<open>List_Lexorder\<close> over \<open>Char_ord\<close>). The sorter that \<open>MatchPodToPool\<close> calls is
  an argument; it is \<open>sort_slice\<close> in the program, and the lemmas hold for every sorter that keeps
  the contract of \<open>slice_sort\<close>.
\<close>

section \<open>The rules of one pool\<close>

fun podHasToleration_loop :: "toleration list \<Rightarrow> toleration_rule \<Rightarrow> bool" where
  "podHasToleration_loop [] rule = False"
| "podHasToleration_loop (t # ts) rule =
     (if tol_Key t = tr_Key rule then
        if tr_Operator rule = ''Exists'' then True
        else if tr_Operator rule = ''Equal'' \<and> tol_Value t = tr_Value rule then True
        else podHasToleration_loop ts rule
      else podHasToleration_loop ts rule)"

definition podHasToleration :: "pod \<Rightarrow> toleration_rule \<Rightarrow> bool" where
  "podHasToleration p rule = podHasToleration_loop (pod_Tolerations p) rule"

text \<open>The inner loop over the expressions sets \<open>found\<close>; the outer one returns at the first miss.\<close>

fun expr_found :: "string \<Rightarrow> string \<Rightarrow> node_selector_requirement list \<Rightarrow> bool \<Rightarrow> bool" where
  "expr_found key val [] found = found"
| "expr_found key val (e # es) found =
     (let found = (if expr_Key e = key \<and> expr_Operator e = ''In'' then
                     (if val \<in> set (expr_Values e) then True else found)
                   else found);
          found = (if expr_Key e = key \<and> expr_Operator e = ''Exists'' then True else found)
      in expr_found key val es found)"

fun termMatchesLabels_loop :: "node_selector_term \<Rightarrow> (string \<times> string) list \<Rightarrow> bool" where
  "termMatchesLabels_loop t [] = True"
| "termMatchesLabels_loop t ((key, val) # labels) =
     (if \<not> expr_found key val (MatchExpressions t) False then False
      else termMatchesLabels_loop t labels)"

definition termMatchesLabels :: "node_selector_term \<Rightarrow> strmap \<Rightarrow> bool" where
  "termMatchesLabels t labels = termMatchesLabels_loop t (gm_entries labels)"

definition podHasNodeAffinityLabels :: "pod \<Rightarrow> strmap \<Rightarrow> bool" where
  "podHasNodeAffinityLabels p labels =
     (case required_selector p of
        None \<Rightarrow> False
      | Some req \<Rightarrow> list_ex (\<lambda>t. termMatchesLabels t labels) (NodeSelectorTerms req))"

fun podHasResource :: "container list \<Rightarrow> string \<Rightarrow> bool" where
  "podHasResource [] res = False"
| "podHasResource (c # cs) res =
     (if gm_lookup (Requests c) res \<noteq> None then True
      else if gm_lookup (Limits c) res \<noteq> None then True
      else podHasResource cs res)"

definition podMatchesResourceRule :: "pod \<Rightarrow> resource_rule \<Rightarrow> bool" where
  "podMatchesResourceRule p rule =
     (let hasResource = podHasResource (pod_Containers p) (rr_ResourceName rule)
      in if rr_Operator rule = ''Exists'' then hasResource
         else if rr_Operator rule = ''DoesNotExist'' then \<not> hasResource
         else False)"

definition podMatchesPool :: "pod \<Rightarrow> pool \<Rightarrow> bool" where
  "podMatchesPool p pl =
     (let rules = MatchRules (pool_Spec pl)
      in if \<not> list_all (podHasToleration p) (Tolerations rules) then False
         else if length (gm_entries (NodeAffinityLabels rules)) > 0
                 \<and> \<not> podHasNodeAffinityLabels p (NodeAffinityLabels rules) then False
         else if \<not> list_all (podMatchesResourceRule p) (Resources rules) then False
         else True)"

definition poolSpecificityScore :: "pool \<Rightarrow> int" where
  "poolSpecificityScore pl =
     (let rules = MatchRules (pool_Spec pl)
      in int (length (gm_entries (NodeAffinityLabels rules))) + int (length (Resources rules)))"

section \<open>The best pool\<close>

fun bestPool_loop :: "pod \<Rightarrow> pool list \<Rightarrow> pool option \<Rightarrow> int \<Rightarrow> pool option" where
  "bestPool_loop p [] best bestScore = best"
| "bestPool_loop p (pl # pls) best bestScore =
     (if \<not> podMatchesPool p pl then bestPool_loop p pls best bestScore
      else let score = poolSpecificityScore pl
           in if score > bestScore then bestPool_loop p pls (Some pl) score
              else bestPool_loop p pls best bestScore)"

definition name_less :: "pool \<Rightarrow> pool \<Rightarrow> bool" where
  "name_less a b = (pool_Name a < pool_Name b)"

definition MatchPodToPool ::
  "((pool \<Rightarrow> pool \<Rightarrow> bool) \<Rightarrow> pool list \<Rightarrow> pool list) \<Rightarrow> pod \<Rightarrow> pool list \<Rightarrow> pool option" where
  "MatchPodToPool sort_Slice p pools =
     (let sorted = sort_Slice name_less pools in bestPool_loop p sorted None (- 1))"

section \<open>Flags and conditions of a pod\<close>

definition IsBurstEnabled :: "pod \<Rightarrow> bool" where
  "IsBurstEnabled p = (gm_get (pod_Labels p) enabledLabel = labelValueTrue)"

definition unschedulable_condition :: "pod_condition \<Rightarrow> bool" where
  "unschedulable_condition c =
     (pc_Type c = ''PodScheduled'' \<and> pc_Status c = ''False'' \<and> pc_Reason c = ''Unschedulable'')"

definition IsPodUnschedulable :: "pod \<Rightarrow> bool" where
  "IsPodUnschedulable p = list_ex unschedulable_condition (pod_Conditions p)"

section \<open>What the rules mean\<close>

lemma podHasToleration_iff:
  "podHasToleration p rule \<longleftrightarrow>
     (\<exists>t \<in> set (pod_Tolerations p). tol_Key t = tr_Key rule \<and>
        (tr_Operator rule = ''Exists'' \<or> tr_Operator rule = ''Equal'' \<and> tol_Value t = tr_Value rule))"
proof -
  have "podHasToleration_loop ts rule \<longleftrightarrow>
     (\<exists>t \<in> set ts. tol_Key t = tr_Key rule \<and>
        (tr_Operator rule = ''Exists'' \<or> tr_Operator rule = ''Equal'' \<and> tol_Value t = tr_Value rule))"
    for ts by (induction ts) auto
  then show ?thesis by (simp add: podHasToleration_def)
qed

definition expr_admits :: "string \<Rightarrow> string \<Rightarrow> node_selector_requirement \<Rightarrow> bool" where
  "expr_admits key val e \<longleftrightarrow>
     expr_Key e = key \<and> (expr_Operator e = ''In'' \<and> val \<in> set (expr_Values e) \<or> expr_Operator e = ''Exists'')"

lemma expr_found_iff: "expr_found key val es found \<longleftrightarrow> found \<or> list_ex (expr_admits key val) es"
  by (induction es arbitrary: found) (auto simp: expr_admits_def Let_def)

lemma termMatchesLabels_iff:
  "termMatchesLabels t labels \<longleftrightarrow>
     (\<forall>(key, val) \<in> set (gm_entries labels). \<exists>e \<in> set (MatchExpressions t). expr_admits key val e)"
proof -
  have "termMatchesLabels_loop t ls \<longleftrightarrow>
     (\<forall>(key, val) \<in> set ls. \<exists>e \<in> set (MatchExpressions t). expr_admits key val e)" for ls
    by (induction ls) (auto simp: expr_found_iff list_ex_iff split: if_splits)
  then show ?thesis by (simp add: termMatchesLabels_def)
qed

lemma podHasResource_iff:
  "podHasResource cs res \<longleftrightarrow>
     (\<exists>c \<in> set cs. gm_lookup (Requests c) res \<noteq> None \<or> gm_lookup (Limits c) res \<noteq> None)"
  by (induction cs) auto

text \<open>The declarative reading of a pool's rules, in terms of the fields of the pod alone.\<close>

definition satisfies_rules :: "pod \<Rightarrow> match_rules \<Rightarrow> bool" where
  "satisfies_rules p rules \<longleftrightarrow>
     (\<forall>r \<in> set (Tolerations rules). \<exists>t \<in> set (pod_Tolerations p). tol_Key t = tr_Key r \<and>
        (tr_Operator r = ''Exists'' \<or> tr_Operator r = ''Equal'' \<and> tol_Value t = tr_Value r)) \<and>
     (gm_entries (NodeAffinityLabels rules) = [] \<or>
        (\<exists>a na req t. pod_Affinity p = Some a \<and> NodeAffinity a = Some na \<and>
           RequiredDuringScheduling na = Some req \<and> t \<in> set (NodeSelectorTerms req) \<and>
           (\<forall>(key, val) \<in> set (gm_entries (NodeAffinityLabels rules)).
              \<exists>e \<in> set (MatchExpressions t). expr_Key e = key \<and>
                (expr_Operator e = ''In'' \<and> val \<in> set (expr_Values e) \<or> expr_Operator e = ''Exists'')))) \<and>
     (\<forall>r \<in> set (Resources rules).
        let asked = (\<exists>c \<in> set (pod_Containers p). rr_ResourceName r \<in> fst ` set (gm_entries (Requests c)) \<or>
              rr_ResourceName r \<in> fst ` set (gm_entries (Limits c)))
        in rr_Operator r = ''Exists'' \<and> asked \<or> rr_Operator r = ''DoesNotExist'' \<and> \<not> asked)"

lemma podMatchesResourceRule_iff:
  "podMatchesResourceRule p r \<longleftrightarrow>
     rr_Operator r = ''Exists'' \<and> podHasResource (pod_Containers p) (rr_ResourceName r) \<or>
     rr_Operator r = ''DoesNotExist'' \<and> \<not> podHasResource (pod_Containers p) (rr_ResourceName r)"
  by (auto simp: podMatchesResourceRule_def Let_def)

lemma podHasNodeAffinityLabels_iff:
  "podHasNodeAffinityLabels p labels \<longleftrightarrow>
     (\<exists>req t. required_selector p = Some req \<and> t \<in> set (NodeSelectorTerms req) \<and>
        (\<forall>(key, val) \<in> set (gm_entries labels). \<exists>e \<in> set (MatchExpressions t). expr_admits key val e))"
  by (auto simp: podHasNodeAffinityLabels_def list_ex_iff termMatchesLabels_iff split: option.splits)

lemma podMatchesPool_satisfies_rules:
  "podMatchesPool p pl \<longleftrightarrow> satisfies_rules p (MatchRules (pool_Spec pl))"
proof -
  have asked: "podHasResource (pod_Containers p) res \<longleftrightarrow>
      (\<exists>c \<in> set (pod_Containers p). res \<in> fst ` set (gm_entries (Requests c)) \<or> res \<in> fst ` set (gm_entries (Limits c)))"
    for res by (simp add: podHasResource_iff gm_lookup_def map_of_eq_None_iff)
  have selected: "required_selector p = Some req \<longleftrightarrow>
      (\<exists>a na. pod_Affinity p = Some a \<and> NodeAffinity a = Some na \<and> RequiredDuringScheduling na = Some req)"
    for req by (simp add: required_selector_def split: option.splits)
  have labels: "podHasNodeAffinityLabels p ls \<longleftrightarrow>
      (\<exists>a na req t. pod_Affinity p = Some a \<and> NodeAffinity a = Some na \<and>
         RequiredDuringScheduling na = Some req \<and> t \<in> set (NodeSelectorTerms req) \<and>
         (\<forall>(key, val) \<in> set (gm_entries ls). \<exists>e \<in> set (MatchExpressions t). expr_admits key val e))"
    for ls unfolding podHasNodeAffinityLabels_iff selected by blast
  show ?thesis
    unfolding satisfies_rules_def podMatchesPool_def Let_def list_all_iff
      podMatchesResourceRule_iff asked podHasToleration_iff labels expr_admits_def
    by auto
qed

lemma poolSpecificityScore_nonneg: "0 \<le> poolSpecificityScore pl"
  by (simp add: poolSpecificityScore_def Let_def)

section \<open>The loop keeps the first pool of the highest score\<close>

definition first_best :: "pod \<Rightarrow> int \<Rightarrow> pool list \<Rightarrow> pool \<Rightarrow> bool" where
  "first_best p s pls q \<longleftrightarrow>
     (\<exists>xs ys. pls = xs @ q # ys \<and> podMatchesPool p q \<and> s < poolSpecificityScore q \<and>
        (\<forall>x \<in> set xs. podMatchesPool p x \<longrightarrow> poolSpecificityScore x < poolSpecificityScore q) \<and>
        (\<forall>y \<in> set ys. podMatchesPool p y \<longrightarrow> poolSpecificityScore y \<le> poolSpecificityScore q))"

lemma first_best_skip:
  "first_best p s pls q \<Longrightarrow> podMatchesPool p pl \<longrightarrow> poolSpecificityScore pl < poolSpecificityScore q \<Longrightarrow>
   first_best p s (pl # pls) q"
  unfolding first_best_def by (metis append_Cons set_ConsD)

lemma first_best_here:
  "podMatchesPool p pl \<Longrightarrow> s < poolSpecificityScore pl \<Longrightarrow>
   \<forall>q \<in> set pls. podMatchesPool p q \<longrightarrow> poolSpecificityScore q \<le> poolSpecificityScore pl \<Longrightarrow>
   first_best p s (pl # pls) pl"
  unfolding first_best_def by (metis append_Nil empty_iff empty_set)

lemma first_best_lower: "first_best p s pls q \<Longrightarrow> s' \<le> s \<Longrightarrow> first_best p s' pls q"
  unfolding first_best_def by force

lemma first_best_score: "first_best p s pls q \<Longrightarrow> s < poolSpecificityScore q"
  by (auto simp: first_best_def)

lemma bestPool_loop_cases:
  "bestPool_loop p pls best s = best \<and>
     (\<forall>q \<in> set pls. podMatchesPool p q \<longrightarrow> poolSpecificityScore q \<le> s) \<or>
   (\<exists>q. bestPool_loop p pls best s = Some q \<and> first_best p s pls q)"
proof (induction pls arbitrary: best s)
  case Nil
  then show ?case by simp
next
  case (Cons pl pls)
  let ?sc = "poolSpecificityScore pl"
  show ?case
  proof (cases "podMatchesPool p pl \<and> s < ?sc")
    case True
    then have eq: "bestPool_loop p (pl # pls) best s = bestPool_loop p pls (Some pl) ?sc"
      by (simp add: Let_def)
    have skip: "first_best p s (pl # pls) q" if "first_best p ?sc pls q" for q
      using that True first_best_score [OF that]
      by (auto intro!: first_best_skip elim: first_best_lower)
    from Cons.IH [of "Some pl" ?sc] True show ?thesis
      unfolding eq by (auto intro: first_best_here skip)
  next
    case False
    then have eq: "bestPool_loop p (pl # pls) best s = bestPool_loop p pls best s"
      by (auto simp: Let_def)
    have skip: "first_best p s (pl # pls) q" if "first_best p s pls q" for q
      using that False first_best_score [OF that] by (auto intro!: first_best_skip)
    from Cons.IH [of best s] False skip show ?thesis unfolding eq by auto
  qed
qed

lemma name_less_strict_weak: "strict_weak name_less"
  unfolding name_less_def by (rule strict_weak_key)

definition better_match :: "pool \<Rightarrow> pool \<Rightarrow> bool" where
  "better_match a b \<longleftrightarrow>
     poolSpecificityScore b < poolSpecificityScore a \<or>
     poolSpecificityScore b = poolSpecificityScore a \<and> pool_Name a \<le> pool_Name b"

locale pool_sort = slice_sort srt for srt :: "(pool \<Rightarrow> pool \<Rightarrow> bool) \<Rightarrow> pool list \<Rightarrow> pool list"
begin

lemma first_best_sorted:
  assumes "first_best p s (srt lt pls) q"
  shows "q \<in> set pls \<and> podMatchesPool p q"
proof -
  from assms obtain xs ys where "srt lt pls = xs @ q # ys" "podMatchesPool p q"
    by (auto simp: first_best_def)
  then show ?thesis by (metis in_set_conv_decomp set_srt)
qed

lemma first_best_better:
  assumes "first_best p s (srt name_less pls) q" and "x \<in> set pls" and "podMatchesPool p x"
  shows "better_match q x"
proof -
  from assms(1) obtain xs ys where split: "srt name_less pls = xs @ q # ys"
    and before: "\<And>x. x \<in> set xs \<Longrightarrow> podMatchesPool p x \<Longrightarrow> poolSpecificityScore x < poolSpecificityScore q"
    and after: "\<And>y. y \<in> set ys \<Longrightarrow> podMatchesPool p y \<Longrightarrow> poolSpecificityScore y \<le> poolSpecificityScore q"
    by (auto simp: first_best_def)
  from ordered [OF name_less_strict_weak, of pls] have "\<forall>y \<in> set ys. pool_Name q \<le> pool_Name y"
    unfolding split by (simp add: sorted_wrt_append name_less_def not_less)
  moreover from assms(2) split have "x \<in> set xs \<or> x = q \<or> x \<in> set ys"
    by (metis Un_iff set_append set_ConsD set_srt)
  ultimately show ?thesis
    using before [of x] after [of x] assms(3) by (auto simp: better_match_def)
qed

lemma MatchPodToPool_None: "MatchPodToPool srt p pls = None \<longleftrightarrow> (\<forall>q \<in> set pls. \<not> podMatchesPool p q)"
proof -
  have "first_best p (- 1) (srt name_less pls) q \<Longrightarrow> q \<in> set pls \<and> podMatchesPool p q" for q
    by (rule first_best_sorted)
  moreover have "\<not> poolSpecificityScore q \<le> - 1" for q
    using poolSpecificityScore_nonneg [of q] by simp
  ultimately show ?thesis
    using bestPool_loop_cases [of p "srt name_less pls" None "- 1"]
    by (auto simp: MatchPodToPool_def)
qed

lemma MatchPodToPool_Some:
  assumes "MatchPodToPool srt p pls = Some q"
  shows "q \<in> set pls \<and> podMatchesPool p q \<and>
    (\<forall>x \<in> set pls. podMatchesPool p x \<longrightarrow> better_match q x)"
proof -
  from assms bestPool_loop_cases [of p "srt name_less pls" None "- 1"]
  have "first_best p (- 1) (srt name_less pls) q" by (auto simp: MatchPodToPool_def)
  then show ?thesis using first_best_sorted first_best_better by blast
qed

lemma MatchPodToPool_perm:
  assumes "distinct (map pool_Name pls)" and "mset pls' = mset pls"
  shows "MatchPodToPool srt p pls' = MatchPodToPool srt p pls"
proof (cases "MatchPodToPool srt p pls")
  case None
  with assms(2) show ?thesis by (metis MatchPodToPool_None set_mset_mset)
next
  case (Some q)
  have sets: "set pls' = set pls" using assms(2) by (metis set_mset_mset)
  from MatchPodToPool_Some [OF Some] have q: "q \<in> set pls" "podMatchesPool p q"
    and q_best: "\<And>x. x \<in> set pls \<Longrightarrow> podMatchesPool p x \<Longrightarrow> better_match q x" by auto
  with sets have "MatchPodToPool srt p pls' \<noteq> None" by (auto simp: MatchPodToPool_None)
  then obtain q' where q': "MatchPodToPool srt p pls' = Some q'" by auto
  from MatchPodToPool_Some [OF q'] sets q q_best
  have "q' \<in> set pls" "better_match q' q" "better_match q q'" by auto
  then have "pool_Name q' = pool_Name q" by (auto simp: better_match_def)
  with assms(1) q(1) \<open>q' \<in> set pls\<close> have "q' = q" by (auto simp: distinct_map inj_on_def)
  with Some q' show ?thesis by simp
qed

end

interpretation go_pool_sort: pool_sort insertion_sort_func
  by (rule pool_sort.intro) (rule slice_sort_insertion)

lemma pool_sort_sort_slice: "slice_sort pdq \<Longrightarrow> pool_sort (sort_slice pdq)"
  by (rule pool_sort.intro) (rule slice_sort_sort_slice)

section \<open>Properties\<close>

text \<open>
  C10. \<open>MatchPodToPool\<close> finds a pool exactly when some pool's rules match the pod, and the pool it
  finds is a pool of the list, matches, and is best: no matching pool has a higher specificity
  score, and among the matching pools with the same score none has a smaller name.
\<close>

theorem MatchPodToPool_best:
  assumes "slice_sort pdq"
  shows "case MatchPodToPool (sort_slice pdq) p pls of
       None \<Rightarrow> \<forall>x \<in> set pls. \<not> satisfies_rules p (MatchRules (pool_Spec x))
     | Some q \<Rightarrow> q \<in> set pls \<and> satisfies_rules p (MatchRules (pool_Spec q)) \<and>
         (\<forall>x \<in> set pls. satisfies_rules p (MatchRules (pool_Spec x)) \<longrightarrow>
            poolSpecificityScore x < poolSpecificityScore q \<or>
            poolSpecificityScore x = poolSpecificityScore q \<and> pool_Name q \<le> pool_Name x)"
proof -
  have s: "pool_sort (sort_slice pdq)" using assms by (rule pool_sort_sort_slice)
  show ?thesis
    using pool_sort.MatchPodToPool_None [OF s, of p pls] pool_sort.MatchPodToPool_Some [OF s, of p pls]
    by (auto simp: podMatchesPool_satisfies_rules better_match_def split: option.split)
qed

lemma MatchPodToPool_best_witness:
  "case MatchPodToPool (sort_slice insertion_sort_func) sample_pod [sample_gpu_pool, sample_pool] of
       None \<Rightarrow> False | Some q \<Rightarrow> q \<in> {sample_gpu_pool, sample_pool}"
proof -
  have "satisfies_rules sample_pod (MatchRules (pool_Spec sample_pool))"
    by (simp add: podMatchesPool_satisfies_rules [symmetric]) code_simp
  with MatchPodToPool_best [OF slice_sort_insertion, where p = sample_pod and pls = "[sample_gpu_pool, sample_pool]"]
  show ?thesis by (auto split: option.splits)
qed

text \<open>
  When pool names are distinct, the choice does not depend on the order in which the API server
  lists the pools.
\<close>

theorem MatchPodToPool_order_independent:
  assumes "slice_sort pdq" and "distinct (map pool_Name pls)" and "mset pls' = mset pls"
  shows "MatchPodToPool (sort_slice pdq) p pls' = MatchPodToPool (sort_slice pdq) p pls"
  using pool_sort.MatchPodToPool_perm [OF pool_sort_sort_slice [OF assms(1)] assms(2,3)] .

lemma MatchPodToPool_order_independent_witness:
  "MatchPodToPool (sort_slice insertion_sort_func) sample_pod [sample_gpu_pool, sample_pool] =
   MatchPodToPool (sort_slice insertion_sort_func) sample_pod [sample_pool, sample_gpu_pool]"
  by (rule MatchPodToPool_order_independent [OF slice_sort_insertion]) (simp_all add: samples)

text \<open>
  C27. The loops over the rules of a pool decide their declarative reading, in terms of the fields of
  the pod: every toleration rule is met by a toleration with its key, for \<open>Equal\<close> also with its
  value; if labels are listed, one term of the required node affinity admits each of them, by an
  \<open>In\<close> with the value or an \<open>Exists\<close>; and each resource is asked for by a container, in its
  requests or its limits, exactly as the operator of the rule says. Any other operator fails.
\<close>

theorem podMatchesPool_decides:
  "podMatchesPool p pl \<longleftrightarrow>
     (\<forall>r \<in> set (Tolerations (MatchRules (pool_Spec pl))). \<exists>t \<in> set (pod_Tolerations p). tol_Key t = tr_Key r \<and>
        (tr_Operator r = ''Exists'' \<or> tr_Operator r = ''Equal'' \<and> tol_Value t = tr_Value r)) \<and>
     (gm_entries (NodeAffinityLabels (MatchRules (pool_Spec pl))) = [] \<or>
        (\<exists>a na req t. pod_Affinity p = Some a \<and> NodeAffinity a = Some na \<and>
           RequiredDuringScheduling na = Some req \<and> t \<in> set (NodeSelectorTerms req) \<and>
           (\<forall>(key, val) \<in> set (gm_entries (NodeAffinityLabels (MatchRules (pool_Spec pl)))).
              \<exists>e \<in> set (MatchExpressions t). expr_Key e = key \<and>
                (expr_Operator e = ''In'' \<and> val \<in> set (expr_Values e) \<or> expr_Operator e = ''Exists'')))) \<and>
     (\<forall>r \<in> set (Resources (MatchRules (pool_Spec pl))).
        let asked = (\<exists>c \<in> set (pod_Containers p). rr_ResourceName r \<in> fst ` set (gm_entries (Requests c)) \<or>
              rr_ResourceName r \<in> fst ` set (gm_entries (Limits c)))
        in rr_Operator r = ''Exists'' \<and> asked \<or> rr_Operator r = ''DoesNotExist'' \<and> \<not> asked)"
  unfolding podMatchesPool_satisfies_rules satisfies_rules_def ..

lemma podMatchesPool_decides_witness:
  "podMatchesPool sample_pod sample_pool \<and> \<not> podMatchesPool (sample_pod\<lparr>pod_Tolerations := []\<rparr>) sample_pool"
  using podMatchesPool_decides [of sample_pod sample_pool]
    podMatchesPool_decides [of "sample_pod\<lparr>pod_Tolerations := []\<rparr>" sample_pool]
  by (simp add: samples)

text \<open>
  Matching a term against a Go map of labels does not depend on the order of the map's iteration,
  which Go leaves open.
\<close>

theorem termMatchesLabels_order_independent:
  assumes "mset (gm_entries labels') = mset (gm_entries labels)"
  shows "termMatchesLabels t labels' = termMatchesLabels t labels"
  using mset_eq_setD [OF assms] by (simp add: termMatchesLabels_iff)

lemma termMatchesLabels_order_independent_witness:
  "termMatchesLabels \<lparr>MatchExpressions = []\<rparr> (Some [(''a'', ''1''), (''b'', ''2'')]) =
   termMatchesLabels \<lparr>MatchExpressions = []\<rparr> (Some [(''b'', ''2''), (''a'', ''1'')])"
  by (rule termMatchesLabels_order_independent) simp

end
