(* ===== verification/Batch.thy ===== *)
theory Batch
  imports Sample_Objects
begin

text \<open>
  \<open>internal/controller/batch.go\<close>: the table of instance capacities and the number of nodes a batch
  of pods needs. CPU is in millicores, memory in the units of the table; sums are \<open>int64\<close>, counts
  \<open>int32\<close>, with the conversions of the code written out.
\<close>

section \<open>Capacities\<close>

record instance_capacity =
  VCPUs :: int
  MemoryMi :: int
  GPUs :: int
  Architecture :: string

definition instanceCapacities :: "(string \<times> instance_capacity) list" where
  "instanceCapacities =
     [(''t3.medium'', \<lparr>VCPUs = 1800, MemoryMi = 3500, GPUs = 0, Architecture = ''amd64''\<rparr>),
      (''t3.large'', \<lparr>VCPUs = 1800, MemoryMi = 7200, GPUs = 0, Architecture = ''amd64''\<rparr>),
      (''t3.xlarge'', \<lparr>VCPUs = 3600, MemoryMi = 14800, GPUs = 0, Architecture = ''amd64''\<rparr>),
      (''t3.2xlarge'', \<lparr>VCPUs = 7200, MemoryMi = 29600, GPUs = 0, Architecture = ''amd64''\<rparr>),
      (''m6i.large'', \<lparr>VCPUs = 1800, MemoryMi = 7200, GPUs = 0, Architecture = ''amd64''\<rparr>),
      (''m6i.xlarge'', \<lparr>VCPUs = 3600, MemoryMi = 14800, GPUs = 0, Architecture = ''amd64''\<rparr>),
      (''m6i.2xlarge'', \<lparr>VCPUs = 7200, MemoryMi = 29600, GPUs = 0, Architecture = ''amd64''\<rparr>),
      (''m6i.4xlarge'', \<lparr>VCPUs = 14400, MemoryMi = 59200, GPUs = 0, Architecture = ''amd64''\<rparr>),
      (''m7i.large'', \<lparr>VCPUs = 1800, MemoryMi = 7200, GPUs = 0, Architecture = ''amd64''\<rparr>),
      (''m7i.xlarge'', \<lparr>VCPUs = 3600, MemoryMi = 14800, GPUs = 0, Architecture = ''amd64''\<rparr>),
      (''c6i.large'', \<lparr>VCPUs = 1800, MemoryMi = 3500, GPUs = 0, Architecture = ''amd64''\<rparr>),
      (''c6i.xlarge'', \<lparr>VCPUs = 3600, MemoryMi = 7200, GPUs = 0, Architecture = ''amd64''\<rparr>),
      (''c6i.2xlarge'', \<lparr>VCPUs = 7200, MemoryMi = 14800, GPUs = 0, Architecture = ''amd64''\<rparr>),
      (''r6i.large'', \<lparr>VCPUs = 1800, MemoryMi = 14800, GPUs = 0, Architecture = ''amd64''\<rparr>),
      (''r6i.xlarge'', \<lparr>VCPUs = 3600, MemoryMi = 29600, GPUs = 0, Architecture = ''amd64''\<rparr>),
      (''r6i.2xlarge'', \<lparr>VCPUs = 7200, MemoryMi = 59200, GPUs = 0, Architecture = ''amd64''\<rparr>),
      (''m7g.medium'', \<lparr>VCPUs = 900, MemoryMi = 3500, GPUs = 0, Architecture = ''arm64''\<rparr>),
      (''m7g.large'', \<lparr>VCPUs = 1800, MemoryMi = 7200, GPUs = 0, Architecture = ''arm64''\<rparr>),
      (''m7g.xlarge'', \<lparr>VCPUs = 3600, MemoryMi = 14800, GPUs = 0, Architecture = ''arm64''\<rparr>),
      (''m7g.2xlarge'', \<lparr>VCPUs = 7200, MemoryMi = 29600, GPUs = 0, Architecture = ''arm64''\<rparr>),
      (''c7g.medium'', \<lparr>VCPUs = 900, MemoryMi = 1800, GPUs = 0, Architecture = ''arm64''\<rparr>),
      (''c7g.large'', \<lparr>VCPUs = 1800, MemoryMi = 3500, GPUs = 0, Architecture = ''arm64''\<rparr>),
      (''c7g.xlarge'', \<lparr>VCPUs = 3600, MemoryMi = 7200, GPUs = 0, Architecture = ''arm64''\<rparr>),
      (''c7g.2xlarge'', \<lparr>VCPUs = 7200, MemoryMi = 14800, GPUs = 0, Architecture = ''arm64''\<rparr>),
      (''r7g.large'', \<lparr>VCPUs = 1800, MemoryMi = 14800, GPUs = 0, Architecture = ''arm64''\<rparr>),
      (''r7g.xlarge'', \<lparr>VCPUs = 3600, MemoryMi = 29600, GPUs = 0, Architecture = ''arm64''\<rparr>),
      (''r7g.2xlarge'', \<lparr>VCPUs = 7200, MemoryMi = 59200, GPUs = 0, Architecture = ''arm64''\<rparr>),
      (''g5.xlarge'', \<lparr>VCPUs = 3600, MemoryMi = 14800, GPUs = 1, Architecture = ''amd64''\<rparr>),
      (''g5.2xlarge'', \<lparr>VCPUs = 7200, MemoryMi = 29600, GPUs = 1, Architecture = ''amd64''\<rparr>),
      (''g5.4xlarge'', \<lparr>VCPUs = 14400, MemoryMi = 59200, GPUs = 1, Architecture = ''amd64''\<rparr>),
      (''p3.2xlarge'', \<lparr>VCPUs = 7200, MemoryMi = 56000, GPUs = 1, Architecture = ''amd64''\<rparr>),
      (''p3.8xlarge'', \<lparr>VCPUs = 28800, MemoryMi = 224000, GPUs = 4, Architecture = ''amd64''\<rparr>),
      (''p3.16xlarge'', \<lparr>VCPUs = 57600, MemoryMi = 448000, GPUs = 8, Architecture = ''amd64''\<rparr>)]"

definition defaultCapacity :: instance_capacity where
  "defaultCapacity = \<lparr>VCPUs = 1800, MemoryMi = 7200, GPUs = 0, Architecture = ''amd64''\<rparr>"

text \<open>The comma-ok lookup: the zero value and \<open>False\<close> for an unknown type.\<close>

definition zeroCapacity :: instance_capacity where
  "zeroCapacity = \<lparr>VCPUs = 0, MemoryMi = 0, GPUs = 0, Architecture = ''''\<rparr>"

definition GetInstanceCapacity :: "string \<Rightarrow> instance_capacity \<times> bool" where
  "GetInstanceCapacity instanceType =
     (case map_of instanceCapacities instanceType of
        None \<Rightarrow> (zeroCapacity, False)
      | Some cap \<Rightarrow> (cap, True))"

section \<open>Requests of a pod\<close>

fun podResourceRequests_loop :: "container list \<Rightarrow> int \<Rightarrow> int \<Rightarrow> int \<times> int" where
  "podResourceRequests_loop [] cpuMilli memMi = (cpuMilli, memMi)"
| "podResourceRequests_loop (c # cs) cpuMilli memMi =
     (let cpuMilli = (case gm_lookup (Requests c) ''cpu'' of
                        None \<Rightarrow> cpuMilli | Some cpu \<Rightarrow> int64 (cpuMilli + MilliValue cpu));
          memMi = (case gm_lookup (Requests c) ''memory'' of
                     None \<Rightarrow> memMi | Some mem \<Rightarrow> int64 (memMi + ScaledValue_Mega mem))
      in podResourceRequests_loop cs cpuMilli memMi)"

definition podResourceRequests :: "pod \<Rightarrow> int \<times> int" where
  "podResourceRequests p = podResourceRequests_loop (pod_Containers p) 0 0"

section \<open>Pods per node and nodes for a batch\<close>

fun maxRequests_loop :: "pod list \<Rightarrow> int \<Rightarrow> int \<Rightarrow> int \<times> int" where
  "maxRequests_loop [] maxCPU maxMem = (maxCPU, maxMem)"
| "maxRequests_loop (p # ps) maxCPU maxMem =
     (let (cpu, mem) = podResourceRequests p
      in maxRequests_loop ps (if cpu > maxCPU then cpu else maxCPU) (if mem > maxMem then mem else maxMem))"

definition estimatePodsPerNode :: "pod list \<Rightarrow> instance_capacity \<Rightarrow> int" where
  "estimatePodsPerNode pods capacity =
     (if length pods = 0 then 0
      else let (maxCPU, maxMem) = maxRequests_loop pods 0 0
           in if maxCPU = 0 \<and> maxMem = 0 then 1
              else let fitByCPU = (if maxCPU > 0 then int32 (go_div (VCPUs capacity) maxCPU) else MaxInt32);
                       fitByMem = (if maxMem > 0 then int32 (go_div (MemoryMi capacity) maxMem) else MaxInt32);
                       fit = min fitByCPU fitByMem
                   in if fit \<le> 0 then 1 else fit)"

definition CalculateNodesNeeded :: "pod list \<Rightarrow> instance_capacity \<Rightarrow> int \<Rightarrow> int \<Rightarrow> int" where
  "CalculateNodesNeeded pods capacity currentNodes maxNodes =
     (if currentNodes \<ge> maxNodes then 0
      else let podsPerNode = estimatePodsPerNode pods capacity;
               podsPerNode = (if podsPerNode \<le> 0 then 1 else podsPerNode);
               nodesNeeded = int32 (ceil_div (int (length pods)) podsPerNode);
               available = int32 (maxNodes - currentNodes);
               nodesNeeded = (if nodesNeeded > available then available else nodesNeeded);
               nodesNeeded = (if nodesNeeded < 0 then 0 else nodesNeeded)
           in nodesNeeded)"

section \<open>The table\<close>

lemma instanceCapacities_distinct: "distinct (map fst instanceCapacities)"
  by (simp add: instanceCapacities_def)

definition sound_capacity :: "instance_capacity \<Rightarrow> bool" where
  "sound_capacity cap \<longleftrightarrow>
     0 < VCPUs cap \<and> VCPUs cap < 2 ^ 31 \<and> 0 < MemoryMi cap \<and> MemoryMi cap < 2 ^ 31 \<and>
     0 \<le> GPUs cap \<and> Architecture cap \<in> {''amd64'', ''arm64''}"

lemma instanceCapacities_sound: "\<forall>(ty, cap) \<in> set instanceCapacities. sound_capacity cap"
  by (simp add: instanceCapacities_def sound_capacity_def)

lemma sound_defaultCapacity: "sound_capacity defaultCapacity"
  by (simp add: defaultCapacity_def sound_capacity_def)

lemma sound_lookup: "map_of instanceCapacities ty = Some cap \<Longrightarrow> sound_capacity cap"
  using instanceCapacities_sound by (auto dest: map_of_SomeD)

section \<open>The largest request of a batch\<close>

lemma maxRequests_loop_upper:
  assumes "maxRequests_loop ps c m = (c', m')"
  shows "c \<le> c' \<and> m \<le> m' \<and>
    (\<forall>p \<in> set ps. fst (podResourceRequests p) \<le> c' \<and> snd (podResourceRequests p) \<le> m')"
  using assms
proof (induction ps arbitrary: c m)
  case Nil
  then show ?case by simp
next
  case (Cons p ps)
  obtain cpu mem where r: "podResourceRequests p = (cpu, mem)" by (cases "podResourceRequests p")
  from Cons.prems r
  have "maxRequests_loop ps (if cpu > c then cpu else c) (if mem > m then mem else m) = (c', m')"
    by simp
  from Cons.IH [OF this] r show ?case by (auto split: if_splits)
qed

lemma maxRequests_loop_reached:
  assumes "maxRequests_loop ps c m = (c', m')"
  shows "c' \<in> insert c (fst ` podResourceRequests ` set ps) \<and>
    m' \<in> insert m (snd ` podResourceRequests ` set ps)"
  using assms
proof (induction ps arbitrary: c m)
  case Nil
  then show ?case by simp
next
  case (Cons p ps)
  obtain cpu mem where r: "podResourceRequests p = (cpu, mem)" by (cases "podResourceRequests p")
  from Cons.prems r
  have "maxRequests_loop ps (if cpu > c then cpu else c) (if mem > m then mem else m) = (c', m')"
    by simp
  from Cons.IH [OF this] r show ?case by (auto split: if_splits)
qed

section \<open>Pods per node\<close>

lemma estimatePodsPerNode_pos: "pods \<noteq> [] \<Longrightarrow> 1 \<le> estimatePodsPerNode pods capacity"
  by (auto simp: estimatePodsPerNode_def Let_def split: prod.splits)

lemma fit_bound:
  assumes "0 < big" and "0 \<le> cap" and "cap < 2 ^ 31"
    and "f \<le> int32 (go_div cap big)" and "0 < f"
  shows "f * big \<le> cap"
proof -
  have "cap div big \<le> cap" using assms(1,2) zdiv_mono2 [of cap 1 big] by simp
  moreover have "0 \<le> cap div big" using assms(1,2) by (simp add: pos_imp_zdiv_nonneg_iff)
  ultimately have "int32 (go_div cap big) = cap div big" using assms(1-3) by (simp add: go_int)
  with assms(1,4) have "f * big \<le> cap div big * big" by (intro mult_right_mono) auto
  also have "\<dots> \<le> cap" using assms(1) by (metis div_mult_mod_eq le_add_same_cancel1 pos_mod_sign)
  finally show ?thesis .
qed

lemma sum_list_le_length: "(\<And>x. x \<in> set xs \<Longrightarrow> f x \<le> (b::int)) \<Longrightarrow> sum_list (map f xs) \<le> int (length xs) * b"
  by (induction xs) (auto simp: algebra_simps add_mono)

lemma sum_list_bound:
  assumes "\<And>x. x \<in> set xs \<Longrightarrow> f x \<le> b" and "0 \<le> b" and "int (length xs) \<le> n" and "n * b \<le> (c::int)"
  shows "sum_list (map f xs) \<le> c"
proof -
  have "sum_list (map f xs) \<le> int (length xs) * b" using assms(1) by (rule sum_list_le_length)
  also have "\<dots> \<le> n * b" using assms(2,3) by (intro mult_right_mono)
  finally show ?thesis using assms(4) by simp
qed

text \<open>One dimension of the estimate: CPU or memory.\<close>

lemma estimate_dimension:
  assumes "0 \<le> big" and "big \<le> cap" and "0 < cap" and "cap < 2 ^ 31"
    and "0 < e" and "e \<le> (if big > 0 then int32 (go_div cap big) else MaxInt32)"
  shows "e * big \<le> cap"
proof (cases "big = 0")
  case True
  with assms show ?thesis by simp
next
  case False
  with assms show ?thesis by (intro fit_bound) auto
qed

lemma estimate_fits:
  assumes "sound_capacity cap" and max: "maxRequests_loop pods 0 0 = (maxCPU, maxMem)"
    and le: "maxCPU \<le> VCPUs cap" "maxMem \<le> MemoryMi cap" and ne: "pods \<noteq> []"
  shows "estimatePodsPerNode pods cap * maxCPU \<le> VCPUs cap \<and>
    estimatePodsPerNode pods cap * maxMem \<le> MemoryMi cap"
proof (cases "maxCPU = 0 \<and> maxMem = 0")
  case True
  with assms show ?thesis by (simp add: sound_capacity_def)
next
  case False
  let ?f = "if maxCPU > 0 then int32 (go_div (VCPUs cap) maxCPU) else MaxInt32"
  let ?g = "if maxMem > 0 then int32 (go_div (MemoryMi cap) maxMem) else MaxInt32"
  from maxRequests_loop_upper [OF max] have nn: "0 \<le> maxCPU" "0 \<le> maxMem" by auto
  from False ne max
  have e: "estimatePodsPerNode pods cap = (if min ?f ?g \<le> 0 then 1 else min ?f ?g)"
    by (auto simp: estimatePodsPerNode_def Let_def)
  show ?thesis
  proof (cases "min ?f ?g \<le> 0")
    case True
    with e le show ?thesis by simp
  next
    case pos: False
    with e have est: "estimatePodsPerNode pods cap = min ?f ?g" by simp
    have "min ?f ?g * maxCPU \<le> VCPUs cap"
      using assms(1) nn le pos by (intro estimate_dimension) (auto simp: sound_capacity_def)
    moreover have "min ?f ?g * maxMem \<le> MemoryMi cap"
      using assms(1) nn le pos by (intro estimate_dimension) (auto simp: sound_capacity_def)
    ultimately show ?thesis unfolding est by blast
  qed
qed

lemma group_fits:
  assumes "sound_capacity cap" and "maxRequests_loop pods 0 0 = (maxCPU, maxMem)"
    and "maxCPU \<le> VCPUs cap" "maxMem \<le> MemoryMi cap"
    and "set qs \<subseteq> set pods" and "int (length qs) \<le> estimatePodsPerNode pods cap"
  shows "sum_list (map (fst \<circ> podResourceRequests) qs) \<le> VCPUs cap \<and>
    sum_list (map (snd \<circ> podResourceRequests) qs) \<le> MemoryMi cap"
proof (cases "pods = []")
  case True
  with assms show ?thesis by (simp add: sound_capacity_def)
next
  case False
  from maxRequests_loop_upper [OF assms(2)]
  have nn: "0 \<le> maxCPU" "0 \<le> maxMem"
    and le: "\<And>p. p \<in> set pods \<Longrightarrow> (fst \<circ> podResourceRequests) p \<le> maxCPU"
      "\<And>p. p \<in> set pods \<Longrightarrow> (snd \<circ> podResourceRequests) p \<le> maxMem" by auto
  from estimate_fits [OF assms(1-4) False]
  have "estimatePodsPerNode pods cap * maxCPU \<le> VCPUs cap"
    "estimatePodsPerNode pods cap * maxMem \<le> MemoryMi cap" by auto
  with nn le assms(5,6) show ?thesis by (blast intro: sum_list_bound)
qed

section \<open>Nodes for a batch\<close>

lemma int32_le: "0 \<le> x \<Longrightarrow> int32 x \<le> x"
  using zmod_le_nonneg_dividend [of "x + 2 ^ 31" "2 ^ 32"] by (simp add: int32_def)

lemma CalculateNodesNeeded_range:
  "0 \<le> CalculateNodesNeeded pods cap cur mx \<and> CalculateNodesNeeded pods cap cur mx \<le> max 0 (mx - cur)"
  using int32_le [of "mx - cur"] by (auto simp: CalculateNodesNeeded_def Let_def)

lemma CalculateNodesNeeded_eq:
  assumes "0 \<le> cur" "cur < mx" "mx < 2 ^ 31" "length pods < 2 ^ 31" "pods \<noteq> []"
  shows "CalculateNodesNeeded pods cap cur mx =
    min (ceil_div (int (length pods)) (estimatePodsPerNode pods cap)) (mx - cur)"
proof -
  let ?n = "int (length pods)" and ?e = "estimatePodsPerNode pods cap"
  have e: "1 \<le> ?e" using assms(5) by (rule estimatePodsPerNode_pos)
  then have "0 \<le> ceil_div ?n ?e" "ceil_div ?n ?e \<le> ?n"
    by (simp_all add: ceil_div_nonneg ceil_div_le)
  moreover have "?n < 2 ^ 31" using assms(4) by (metis of_nat_less_iff of_nat_numeral of_nat_power)
  ultimately have "int32 (ceil_div ?n ?e) = ceil_div ?n ?e" by (simp add: go_int)
  moreover have "int32 (mx - cur) = mx - cur" using assms(1-3) by (simp add: go_int)
  ultimately show ?thesis
    using e assms(2) \<open>0 \<le> ceil_div ?n ?e\<close> by (simp add: CalculateNodesNeeded_def Let_def)
qed

section \<open>The estimate is the best one\<close>

lemma div_bounds:
  assumes "0 < big" "0 < cap" "cap < 2 ^ 31"
  shows "int32 (go_div cap big) * big \<le> cap" "cap < (int32 (go_div cap big) + 1) * (big :: int)"
proof -
  have "cap div big \<le> cap" using assms zdiv_mono2 [of cap 1 big] by simp
  moreover have "0 \<le> cap div big" using assms by (simp add: pos_imp_zdiv_nonneg_iff)
  ultimately have eq: "int32 (go_div cap big) = cap div big" using assms by (simp add: go_int)
  have split: "cap = cap div big * big + cap mod big" by simp
  moreover have "0 \<le> cap mod big" "cap mod big < big" using assms(1) by simp_all
  ultimately show "int32 (go_div cap big) * big \<le> cap" "cap < (int32 (go_div cap big) + 1) * big"
    unfolding eq by (simp_all only: distrib_right mult_1)
qed

lemma estimate_full:
  assumes "sound_capacity cap" and max: "maxRequests_loop pods 0 0 = (maxCPU, maxMem)"
    and le: "maxCPU \<le> VCPUs cap" "maxMem \<le> MemoryMi cap" and pos: "0 < maxCPU \<or> 0 < maxMem"
  shows "VCPUs cap < (estimatePodsPerNode pods cap + 1) * maxCPU \<or>
    MemoryMi cap < (estimatePodsPerNode pods cap + 1) * maxMem"
proof -
  from pos max have ne: "pods \<noteq> []" by auto
  let ?f = "if maxCPU > 0 then int32 (go_div (VCPUs cap) maxCPU) else MaxInt32"
  let ?g = "if maxMem > 0 then int32 (go_div (MemoryMi cap) maxMem) else MaxInt32"
  from maxRequests_loop_upper [OF max] have nn: "0 \<le> maxCPU" "0 \<le> maxMem" by auto
  from pos ne max
  have e: "min ?f ?g \<le> estimatePodsPerNode pods cap"
    by (auto simp: estimatePodsPerNode_def Let_def)
  have small: "int32 x \<le> MaxInt32" for x using int32_range [of x] by (simp add: MaxInt32_def)
  have sound: "0 < VCPUs cap" "VCPUs cap < 2 ^ 31" "0 < MemoryMi cap" "MemoryMi cap < 2 ^ 31"
    using assms(1) by (auto simp: sound_capacity_def)
  have cpu: "VCPUs cap < (estimatePodsPerNode pods cap + 1) * maxCPU"
    if "min ?f ?g = ?f" "0 < maxCPU"
  proof -
    have "VCPUs cap < (?f + 1) * maxCPU" using div_bounds [OF that(2) sound(1,2)] that(2) by simp
    also have "\<dots> \<le> (estimatePodsPerNode pods cap + 1) * maxCPU"
      using e that by (intro mult_right_mono) auto
    finally show ?thesis .
  qed
  have mem: "MemoryMi cap < (estimatePodsPerNode pods cap + 1) * maxMem"
    if "min ?f ?g = ?g" "0 < maxMem"
  proof -
    have "MemoryMi cap < (?g + 1) * maxMem" using div_bounds [OF that(2) sound(3,4)] that(2) by simp
    also have "\<dots> \<le> (estimatePodsPerNode pods cap + 1) * maxMem"
      using e that by (intro mult_right_mono) auto
    finally show ?thesis .
  qed
  have "min ?f ?g = ?f \<and> 0 < maxCPU \<or> min ?f ?g = ?g \<and> 0 < maxMem"
    using pos nn small [of "go_div (VCPUs cap) maxCPU"] small [of "go_div (MemoryMi cap) maxMem"]
    by (auto simp: min_def)
  with cpu mem show ?thesis by blast
qed

section \<open>Properties\<close>

text \<open>
  C26. The estimate of pods per node is the largest number of pods, each as large as the largest
  request of the batch, that a node of the given capacity holds, whenever one such pod fits.
\<close>

theorem estimatePodsPerNode_greatest:
  assumes "sound_capacity cap" and "maxRequests_loop pods 0 0 = (maxCPU, maxMem)"
    and "maxCPU \<le> VCPUs cap" and "maxMem \<le> MemoryMi cap" and "0 < maxCPU \<or> 0 < maxMem"
  shows "k \<le> estimatePodsPerNode pods cap \<longleftrightarrow> k * maxCPU \<le> VCPUs cap \<and> k * maxMem \<le> MemoryMi cap"
proof -
  let ?e = "estimatePodsPerNode pods cap"
  from assms(2,5) have "pods \<noteq> []" by auto
  from maxRequests_loop_upper [OF assms(2)] have nn: "0 \<le> maxCPU" "0 \<le> maxMem" by auto
  have up: "k * m \<le> ?e * m" if "k \<le> ?e" "0 \<le> m" for m using that by (rule mult_right_mono)
  have down: "(?e + 1) * m \<le> k * m" if "\<not> k \<le> ?e" "0 \<le> m" for m
    using that by (intro mult_right_mono) auto
  from estimate_fits [OF assms(1-4) \<open>pods \<noteq> []\<close>] estimate_full [OF assms]
    up [of maxCPU] up [of maxMem] down [of maxCPU] down [of maxMem] nn
  show ?thesis by (cases "k \<le> ?e") auto
qed

lemma estimatePodsPerNode_greatest_witness:
  "3 \<le> estimatePodsPerNode [sample_pod] defaultCapacity \<longleftrightarrow>
     3 * 1500 \<le> VCPUs defaultCapacity \<and> 3 * 2000 \<le> MemoryMi defaultCapacity"
  by (rule estimatePodsPerNode_greatest) code_simp+

text \<open>
  The number of nodes for a batch is never negative and never exceeds what \<open>maxNodes\<close> leaves,
  whatever the inputs: no overflow of the \<open>int32\<close> arithmetic can exceed the limit of the pool.
\<close>

theorem CalculateNodesNeeded_bounded:
  "0 \<le> CalculateNodesNeeded pods cap cur mx \<and> CalculateNodesNeeded pods cap cur mx \<le> max 0 (mx - cur)"
  by (rule CalculateNodesNeeded_range)

text \<open>
  C15. The number of nodes for a batch is sufficient and minimal: with the estimated pods per node it
  covers every pod unless the limit of the pool is reached, and one node fewer would not.
\<close>

theorem CalculateNodesNeeded_minimal:
  fixes pods cap cur mx
  defines "k \<equiv> CalculateNodesNeeded pods cap cur mx" and "per \<equiv> estimatePodsPerNode pods cap"
  assumes "0 \<le> cur" and "cur < mx" and "mx < 2 ^ 31" and "length pods < 2 ^ 31" and "pods \<noteq> []"
  shows "(int (length pods) \<le> k * per \<or> k = mx - cur) \<and> (k - 1) * per < int (length pods)"
proof -
  have k: "k = min (ceil_div (int (length pods)) per) (mx - cur)"
    unfolding k_def per_def using assms(3-7) by (rule CalculateNodesNeeded_eq)
  have per: "0 < per" unfolding per_def using estimatePodsPerNode_pos [OF assms(7)] by (rule less_le_trans [rotated]) simp
  let ?c = "ceil_div (int (length pods)) per"
  have "(k - 1) * per \<le> (?c - 1) * per" using k per by (intro mult_right_mono) auto
  also have "\<dots> < int (length pods)"
    using ceil_div_upper [OF per, of "int (length pods)"] by (simp add: left_diff_distrib)
  finally show ?thesis
    using ceil_div_lower [OF per, of "int (length pods)"] k by (auto simp: min_def)
qed

lemma CalculateNodesNeeded_minimal_witness:
  "(int (length [sample_pod]) \<le> CalculateNodesNeeded [sample_pod] defaultCapacity 0 3 *
       estimatePodsPerNode [sample_pod] defaultCapacity \<or>
     CalculateNodesNeeded [sample_pod] defaultCapacity 0 3 = 3 - 0) \<and>
   (CalculateNodesNeeded [sample_pod] defaultCapacity 0 3 - 1) *
     estimatePodsPerNode [sample_pod] defaultCapacity < int (length [sample_pod])"
  by (rule CalculateNodesNeeded_minimal) simp_all

text \<open>
  The capacity the provisioner calculates with, a row of the table or the default, is positive in
  both dimensions and small enough for the \<open>int32\<close> conversions, so the divisions are safe.
\<close>

theorem GetInstanceCapacity_usable:
  "sound_capacity (let (cap, ok) = GetInstanceCapacity ty in if \<not> ok then defaultCapacity else cap)"
  by (auto simp: GetInstanceCapacity_def sound_defaultCapacity dest: sound_lookup split: option.split)

end
