(* ===== verification/Instance_Selector.thy ===== *)
theory Instance_Selector
  imports Batch Slice_Sort
begin

text \<open>
  \<open>internal/controller/instance_selector.go\<close>: the instance types of a pool that fit a batch of
  pods, smallest first. The sorter is an argument, as in \<open>Matching\<close>.
\<close>

section \<open>Requirements of a batch\<close>

fun podGPURequests_loop :: "container list \<Rightarrow> int \<Rightarrow> int" where
  "podGPURequests_loop [] gpus = gpus"
| "podGPURequests_loop (c # cs) gpus =
     (case gm_lookup (Requests c) ''nvidia.com/gpu'' of
        None \<Rightarrow> podGPURequests_loop cs gpus
      | Some gpu \<Rightarrow> podGPURequests_loop cs (int64 (gpus + Value gpu)))"

definition podGPURequests :: "pod \<Rightarrow> int" where
  "podGPURequests p = podGPURequests_loop (pod_Containers p) 0"

fun maxPodRequirements_loop :: "pod list \<Rightarrow> int \<Rightarrow> int \<Rightarrow> int \<Rightarrow> int \<times> int \<times> int" where
  "maxPodRequirements_loop [] cpuMilli memMi gpus = (cpuMilli, memMi, gpus)"
| "maxPodRequirements_loop (p # ps) cpuMilli memMi gpus =
     (let (cpu, mem) = podResourceRequests p;
          gpu = podGPURequests p
      in maxPodRequirements_loop ps (if cpu > cpuMilli then cpu else cpuMilli)
           (if mem > memMi then mem else memMi) (if gpu > gpus then gpu else gpus))"

definition maxPodRequirements :: "pod list \<Rightarrow> int \<times> int \<times> int" where
  "maxPodRequirements pods = maxPodRequirements_loop pods 0 0 0"

text \<open>The three nested loops return the first value of the first matching expression.\<close>

fun arch_in_exprs :: "node_selector_requirement list \<Rightarrow> string option" where
  "arch_in_exprs [] = None"
| "arch_in_exprs (e # es) =
     (if expr_Key e = ''kubernetes.io/arch'' \<and> expr_Operator e = ''In'' \<and> length (expr_Values e) > 0
      then Some (expr_Values e ! 0) else arch_in_exprs es)"

fun arch_in_terms :: "node_selector_term list \<Rightarrow> string option" where
  "arch_in_terms [] = None"
| "arch_in_terms (t # ts) =
     (case arch_in_exprs (MatchExpressions t) of Some a \<Rightarrow> Some a | None \<Rightarrow> arch_in_terms ts)"

fun requiredArchitecture :: "pod list \<Rightarrow> string" where
  "requiredArchitecture [] = ''''"
| "requiredArchitecture (p # ps) =
     (case required_selector p of
        None \<Rightarrow> requiredArchitecture ps
      | Some req \<Rightarrow>
          (case arch_in_terms (NodeSelectorTerms req) of
             Some a \<Rightarrow> a
           | None \<Rightarrow> requiredArchitecture ps))"

fun PodsRequestGPU :: "pod list \<Rightarrow> bool" where
  "PodsRequestGPU [] = False"
| "PodsRequestGPU (p # ps) = (if podGPURequests p > 0 then True else PodsRequestGPU ps)"

section \<open>Filter and sort\<close>

text \<open>The body of the loop over the candidates: is this one appended to \<open>fits\<close>?\<close>

definition candidate_fits ::
  "int \<Rightarrow> int \<Rightarrow> int \<Rightarrow> string \<Rightarrow> instance_type_config \<Rightarrow> bool" where
  "candidate_fits maxCPU maxMem maxGPU requiredArch candidate =
     (let needsGPU = maxGPU > 0
      in case map_of instanceCapacities (itc_Name candidate) of
           None \<Rightarrow> True
         | Some cap \<Rightarrow>
             (let arch = itc_Architecture candidate;
                  arch = (if arch = '''' then Architecture cap else arch)
              in if requiredArch \<noteq> '''' \<and> arch \<noteq> requiredArch then False
                 else if needsGPU \<and> GPUs cap < maxGPU then False
                 else if VCPUs cap < maxCPU \<or> MemoryMi cap < maxMem then False
                 else True))"

definition capacity_less :: "instance_type_config \<Rightarrow> instance_type_config \<Rightarrow> bool" where
  "capacity_less a b =
     (let (ci, oki) = GetInstanceCapacity (itc_Name a);
          (cj, okj) = GetInstanceCapacity (itc_Name b)
      in if \<not> oki \<or> \<not> okj then oki
         else if VCPUs ci \<noteq> VCPUs cj then VCPUs ci < VCPUs cj
         else MemoryMi ci < MemoryMi cj)"

definition SelectInstanceTypes ::
  "((instance_type_config \<Rightarrow> instance_type_config \<Rightarrow> bool) \<Rightarrow>
      instance_type_config list \<Rightarrow> instance_type_config list) \<Rightarrow>
   pool \<Rightarrow> pod list \<Rightarrow> instance_type_config list" where
  "SelectInstanceTypes sort_Slice pl pods =
     (case AWS (pool_Spec pl) of
        None \<Rightarrow> []
      | Some aws \<Rightarrow>
          (let candidates = ResolveInstanceTypes aws
           in if length candidates = 0 then []
              else let (maxCPU, maxMem, maxGPU) = maxPodRequirements pods;
                       requiredArch = requiredArchitecture pods;
                       fits = filter (candidate_fits maxCPU maxMem maxGPU requiredArch) candidates
                   in sort_Slice capacity_less fits))"

section \<open>The requirements are upper bounds of the batch\<close>

lemma maxPodRequirements_requests:
  "maxPodRequirements_loop ps c m g = (c', m', g') \<Longrightarrow> maxRequests_loop ps c m = (c', m')"
  by (induction ps arbitrary: c m g) (auto simp: Let_def split: prod.splits)

lemma maxPodRequirements_gpu:
  "maxPodRequirements_loop ps c m g = (c', m', g') \<Longrightarrow>
   g \<le> g' \<and> (\<forall>p \<in> set ps. podGPURequests p \<le> g')"
proof (induction ps arbitrary: c m g)
  case Nil
  then show ?case by simp
next
  case (Cons p ps)
  obtain cpu mem where r: "podResourceRequests p = (cpu, mem)" by (cases "podResourceRequests p")
  from Cons.prems r
  have "maxPodRequirements_loop ps (if cpu > c then cpu else c) (if mem > m then mem else m)
     (if podGPURequests p > g then podGPURequests p else g) = (c', m', g')"
    by (simp add: Let_def)
  from Cons.IH [OF this] show ?case by (auto split: if_splits)
qed

lemma maxPodRequirements_upper:
  assumes "maxPodRequirements ps = (c, m, g)" and "p \<in> set ps"
  shows "fst (podResourceRequests p) \<le> c" "snd (podResourceRequests p) \<le> m" "podGPURequests p \<le> g"
  using assms maxRequests_loop_upper [OF maxPodRequirements_requests]
    maxPodRequirements_gpu [of ps 0 0 0 c m g]
  by (auto simp: maxPodRequirements_def)

lemma PodsRequestGPU_iff: "PodsRequestGPU ps \<longleftrightarrow> (\<exists>p \<in> set ps. 0 < podGPURequests p)"
  by (induction ps) auto

lemma maxPodRequirements_gpu_pos:
  "maxPodRequirements ps = (c, m, g) \<Longrightarrow> PodsRequestGPU ps \<Longrightarrow> 0 < g"
  unfolding PodsRequestGPU_iff using maxPodRequirements_upper(3) by fastforce

section \<open>The order of the candidates\<close>

definition known :: "instance_type_config \<Rightarrow> bool" where
  "known c = snd (GetInstanceCapacity (itc_Name c))"

definition cap_of :: "instance_type_config \<Rightarrow> instance_capacity" where
  "cap_of c = fst (GetInstanceCapacity (itc_Name c))"

lemma known_iff: "known c \<longleftrightarrow> map_of instanceCapacities (itc_Name c) = Some (cap_of c)"
  by (auto simp: known_def cap_of_def GetInstanceCapacity_def split: option.splits)

lemma capacity_less_iff:
  "capacity_less a b \<longleftrightarrow>
     (if known a \<and> known b
      then VCPUs (cap_of a) < VCPUs (cap_of b) \<or>
           VCPUs (cap_of a) = VCPUs (cap_of b) \<and> MemoryMi (cap_of a) < MemoryMi (cap_of b)
      else known a)"
  by (auto simp: capacity_less_def known_def cap_of_def Let_def split: prod.splits)

lemma capacity_less_strict_weak: "strict_weak capacity_less"
  unfolding strict_weak_def capacity_less_iff by (auto split: if_splits)

section \<open>What a selected type offers\<close>

definition offers :: "instance_type_config \<Rightarrow> string" where
  "offers c = (if itc_Architecture c = '''' then Architecture (cap_of c) else itc_Architecture c)"

lemma candidate_fits_known:
  "known c \<Longrightarrow> candidate_fits cpu mem gpu arch c \<longleftrightarrow>
     cpu \<le> VCPUs (cap_of c) \<and> mem \<le> MemoryMi (cap_of c) \<and>
     (0 < gpu \<longrightarrow> gpu \<le> GPUs (cap_of c)) \<and> (arch \<noteq> '''' \<longrightarrow> offers c = arch)"
  by (auto simp: candidate_fits_def known_iff offers_def Let_def)

lemma candidate_fits_unknown: "\<not> known c \<Longrightarrow> candidate_fits cpu mem gpu arch c"
  by (simp add: candidate_fits_def known_def GetInstanceCapacity_def split: option.splits)

locale type_sort = slice_sort srt
  for srt :: "(instance_type_config \<Rightarrow> instance_type_config \<Rightarrow> bool) \<Rightarrow>
      instance_type_config list \<Rightarrow> instance_type_config list"
begin

lemma SelectInstanceTypes_eq:
  assumes "AWS (pool_Spec pl) = Some aws" and "maxPodRequirements pods = (cpu, mem, gpu)"
  shows "SelectInstanceTypes srt pl pods =
    srt capacity_less (filter (candidate_fits cpu mem gpu (requiredArchitecture pods)) (ResolveInstanceTypes aws))"
proof (cases "ResolveInstanceTypes aws = []")
  case True
  moreover have "srt capacity_less [] = []" by simp
  ultimately show ?thesis using assms by (simp add: SelectInstanceTypes_def del: srt_Nil_iff)
next
  case False
  with assms show ?thesis by (simp add: SelectInstanceTypes_def Let_def)
qed

lemma SelectInstanceTypes_AWS: "SelectInstanceTypes srt pl pods \<noteq> [] \<Longrightarrow> AWS (pool_Spec pl) \<noteq> None"
  by (cases "AWS (pool_Spec pl)") (simp_all add: SelectInstanceTypes_def)

lemma SelectInstanceTypes_mset:
  assumes "AWS (pool_Spec pl) = Some aws" and "maxPodRequirements pods = (cpu, mem, gpu)"
  shows "mset (SelectInstanceTypes srt pl pods) =
    mset (filter (candidate_fits cpu mem gpu (requiredArchitecture pods)) (ResolveInstanceTypes aws))"
  by (simp add: SelectInstanceTypes_eq [OF assms] permutes)

text \<open>A selected candidate went through the filter, and its pool has an AWS section.\<close>

lemma SelectInstanceTypes_member:
  assumes "c \<in> set (SelectInstanceTypes srt pl pods)"
  obtains aws cpu mem gpu where "AWS (pool_Spec pl) = Some aws" "c \<in> set (ResolveInstanceTypes aws)"
    "maxPodRequirements pods = (cpu, mem, gpu)" "candidate_fits cpu mem gpu (requiredArchitecture pods) c"
proof -
  obtain aws where aws: "AWS (pool_Spec pl) = Some aws"
    using assms SelectInstanceTypes_AWS [of pl pods] by fastforce
  obtain cpu mem gpu where m: "maxPodRequirements pods = (cpu, mem, gpu)" by (metis prod_cases3)
  from assms that [OF aws _ m] show thesis by (simp add: SelectInstanceTypes_eq [OF aws m])
qed

lemma SelectInstanceTypes_fits:
  assumes "c \<in> set (SelectInstanceTypes srt pl pods)" and "known c" and "p \<in> set pods"
  shows "fst (podResourceRequests p) \<le> VCPUs (cap_of c) \<and>
    snd (podResourceRequests p) \<le> MemoryMi (cap_of c) \<and>
    podGPURequests p \<le> max 0 (GPUs (cap_of c)) \<and>
    (requiredArchitecture pods = '''' \<or> offers c = requiredArchitecture pods)"
proof -
  from assms(1) obtain cpu mem gpu where m: "maxPodRequirements pods = (cpu, mem, gpu)"
    and "candidate_fits cpu mem gpu (requiredArchitecture pods) c"
    by (rule SelectInstanceTypes_member)
  with candidate_fits_known [OF assms(2)] maxPodRequirements_upper [OF m assms(3)]
  show ?thesis by auto
qed

lemma SelectInstanceTypes_sorted:
  "sorted_wrt (\<lambda>a b. \<not> capacity_less b a) (SelectInstanceTypes srt pl pods)"
proof (cases "AWS (pool_Spec pl)")
  case None
  then show ?thesis by (simp add: SelectInstanceTypes_def)
next
  case (Some aws)
  obtain cpu mem gpu where "maxPodRequirements pods = (cpu, mem, gpu)" by (metis prod_cases3)
  then show ?thesis
    by (simp add: SelectInstanceTypes_eq [OF Some] ordered capacity_less_strict_weak)
qed

lemma group_fits_selected:
  assumes "c \<in> set (SelectInstanceTypes srt pl pods)" and "known c" and "set qs \<subseteq> set pods"
    and "int (length qs) \<le> estimatePodsPerNode pods (cap_of c)"
  shows "sum_list (map (fst \<circ> podResourceRequests) qs) \<le> VCPUs (cap_of c) \<and>
    sum_list (map (snd \<circ> podResourceRequests) qs) \<le> MemoryMi (cap_of c)"
proof -
  from assms(1) obtain cpu mem gpu where m: "maxPodRequirements pods = (cpu, mem, gpu)"
    and "candidate_fits cpu mem gpu (requiredArchitecture pods) c"
    by (rule SelectInstanceTypes_member)
  with assms(2) have le: "cpu \<le> VCPUs (cap_of c)" "mem \<le> MemoryMi (cap_of c)"
    by (auto simp: candidate_fits_known)
  from assms(2) have "sound_capacity (cap_of c)" by (auto simp: known_iff intro: sound_lookup)
  moreover from m have "maxRequests_loop pods 0 0 = (cpu, mem)"
    by (auto simp: maxPodRequirements_def dest: maxPodRequirements_requests)
  ultimately show ?thesis using le assms(3,4) by (rule group_fits)
qed

end

interpretation go_type_sort: type_sort insertion_sort_func
  by (rule type_sort.intro) (rule slice_sort_insertion)

lemma type_sort_sort_slice: "slice_sort pdq \<Longrightarrow> type_sort (sort_slice pdq)"
  by (rule type_sort.intro) (rule slice_sort_sort_slice)

section \<open>Properties\<close>

text \<open>
  Every selected type of known capacity can host every single pod of the batch: enough CPU and
  memory, enough GPUs, and the required architecture when the batch requires one.
\<close>

theorem SelectInstanceTypes_hosts:
  assumes "slice_sort pdq" and "c \<in> set (SelectInstanceTypes (sort_slice pdq) pl pods)"
    and "known c" and "p \<in> set pods"
  shows "fst (podResourceRequests p) \<le> VCPUs (cap_of c) \<and>
    snd (podResourceRequests p) \<le> MemoryMi (cap_of c) \<and>
    podGPURequests p \<le> max 0 (GPUs (cap_of c)) \<and>
    (requiredArchitecture pods = '''' \<or> offers c = requiredArchitecture pods)"
  using type_sort.SelectInstanceTypes_fits [OF type_sort_sort_slice [OF assms(1)] assms(2-4)] .

lemma SelectInstanceTypes_hosts_witness:
  "fst (podResourceRequests sample_pod) \<le> VCPUs (cap_of (sample_type ''m6i.large''))"
  by (rule SelectInstanceTypes_hosts [OF slice_sort_insertion, where pl = sample_pool and pods = "[sample_pod]",
        THEN conjunct1]) code_simp+

text \<open>
  C25. The selection is exact: the result is the pool's candidates that pass the filter, each as often
  as it is configured, and nothing else.
\<close>

theorem SelectInstanceTypes_exact:
  assumes "slice_sort pdq" and "AWS (pool_Spec pl) = Some aws" and "maxPodRequirements pods = (cpu, mem, gpu)"
  shows "mset (SelectInstanceTypes (sort_slice pdq) pl pods) =
    {# c \<in># mset (ResolveInstanceTypes aws). known c \<longrightarrow>
         cpu \<le> VCPUs (cap_of c) \<and> mem \<le> MemoryMi (cap_of c) \<and> (0 < gpu \<longrightarrow> gpu \<le> GPUs (cap_of c)) \<and>
         (requiredArchitecture pods \<noteq> '''' \<longrightarrow> offers c = requiredArchitecture pods) #}"
proof -
  have "candidate_fits cpu mem gpu (requiredArchitecture pods) c \<longleftrightarrow> (known c \<longrightarrow>
         cpu \<le> VCPUs (cap_of c) \<and> mem \<le> MemoryMi (cap_of c) \<and> (0 < gpu \<longrightarrow> gpu \<le> GPUs (cap_of c)) \<and>
         (requiredArchitecture pods \<noteq> '''' \<longrightarrow> offers c = requiredArchitecture pods))" for c
    using candidate_fits_known candidate_fits_unknown by blast
  then show ?thesis
    using type_sort.SelectInstanceTypes_mset [OF type_sort_sort_slice [OF assms(1)] assms(2,3)]
    by (simp add: mset_filter cong: filter_mset_cong)
qed

lemma SelectInstanceTypes_exact_witness:
  "mset (SelectInstanceTypes (sort_slice insertion_sort_func) sample_pool [sample_pod]) =
    {# c \<in># mset (ResolveInstanceTypes sample_aws). known c \<longrightarrow>
         1500 \<le> VCPUs (cap_of c) \<and> 2000 \<le> MemoryMi (cap_of c) \<and> (0 < (0::int) \<longrightarrow> 0 \<le> GPUs (cap_of c)) \<and>
         (requiredArchitecture [sample_pod] \<noteq> '''' \<longrightarrow> offers c = requiredArchitecture [sample_pod]) #}"
  by (rule SelectInstanceTypes_exact [OF slice_sort_insertion]) (simp add: sample_pool_def, code_simp)

text \<open>
  The candidates come smallest first: types of known capacity before the others, and among them
  by CPU and then by memory; so the first candidate needs no more than any later one.
\<close>

theorem SelectInstanceTypes_smallest_first:
  assumes "slice_sort pdq"
  shows "sorted_wrt (\<lambda>a b. known b \<longrightarrow> known a \<and>
      (VCPUs (cap_of a) < VCPUs (cap_of b) \<or>
       VCPUs (cap_of a) = VCPUs (cap_of b) \<and> MemoryMi (cap_of a) \<le> MemoryMi (cap_of b)))
    (SelectInstanceTypes (sort_slice pdq) pl pods)"
  by (rule sorted_wrt_mono_rel [OF _ type_sort.SelectInstanceTypes_sorted [OF type_sort_sort_slice [OF assms]]])
     (auto simp: capacity_less_iff split: if_splits)

lemma SelectInstanceTypes_smallest_first_witness:
  "sorted_wrt (\<lambda>a b. known b \<longrightarrow> known a \<and>
      (VCPUs (cap_of a) < VCPUs (cap_of b) \<or>
       VCPUs (cap_of a) = VCPUs (cap_of b) \<and> MemoryMi (cap_of a) \<le> MemoryMi (cap_of b)))
    (SelectInstanceTypes (sort_slice insertion_sort_func) sample_pool [sample_pod])"
  by (rule SelectInstanceTypes_smallest_first) (rule slice_sort_insertion)

text \<open>
  C14. The estimate of pods per node is safe on a selected type: any group of that many pods of the
  batch fits on one node in total CPU and total memory.
\<close>

theorem SelectInstanceTypes_packs:
  assumes "slice_sort pdq" and "c \<in> set (SelectInstanceTypes (sort_slice pdq) pl pods)" and "known c"
    and "set qs \<subseteq> set pods" and "int (length qs) \<le> estimatePodsPerNode pods (cap_of c)"
  shows "sum_list (map (fst \<circ> podResourceRequests) qs) \<le> VCPUs (cap_of c) \<and>
    sum_list (map (snd \<circ> podResourceRequests) qs) \<le> MemoryMi (cap_of c)"
  using type_sort.group_fits_selected [OF type_sort_sort_slice [OF assms(1)] assms(2-5)] .

lemma SelectInstanceTypes_packs_witness:
  "sum_list (map (fst \<circ> podResourceRequests) [sample_pod, sample_pod]) \<le> VCPUs (cap_of (sample_type ''m6i.xlarge'')) \<and>
   sum_list (map (snd \<circ> podResourceRequests) [sample_pod, sample_pod]) \<le> MemoryMi (cap_of (sample_type ''m6i.xlarge''))"
  by (rule SelectInstanceTypes_packs [OF slice_sort_insertion, where pl = sample_pool and pods = "[sample_pod]"])
     code_simp+

end
