(* ===== verification/Provisioner.thy ===== *)
theory Provisioner
  imports EC2_Provider Lifecycle Matching Instance_Selector
begin

text \<open>
  \<open>ProvisionerReconciler\<close> of \<open>internal/controller/provisioner_reconciler.go\<close>: from an
  unschedulable pod to launched instances recorded in the status of a pool. \<open>Reconcile\<close> is cut
  into the sections of its body (fetch and debounce, match, size, launch), each calling the next.
  Logging is left out.
\<close>

section \<open>Helpers\<close>

definition defaultDebouncePeriod :: duration where "defaultDebouncePeriod = 30 * second"

definition debouncePeriod :: "duration \<Rightarrow> duration" where
  "debouncePeriod DebouncePeriod = (if DebouncePeriod > 0 then DebouncePeriod else defaultDebouncePeriod)"

fun podUnschedulableSince_loop :: "pod_condition list \<Rightarrow> time" where
  "podUnschedulableSince_loop [] = zero_time"
| "podUnschedulableSince_loop (c # cs) =
     (if unschedulable_condition c then pc_LastTransitionTime c else podUnschedulableSince_loop cs)"

definition podUnschedulableSince :: "pod \<Rightarrow> time" where
  "podUnschedulableSince p = podUnschedulableSince_loop (pod_Conditions p)"

definition randomSuffix :: "world \<Rightarrow> string io" where
  "randomSuffix W = do { b \<leftarrow> rand_read W 4; State_Monad.return (hex_EncodeToString b) }"

text \<open>The event filter of the controller: an update only when the pod becomes unschedulable.\<close>

definition provisioner_UpdateFunc :: "pod \<Rightarrow> pod \<Rightarrow> bool" where
  "provisioner_UpdateFunc oldPod newPod = (IsPodUnschedulable newPod \<and> \<not> IsPodUnschedulable oldPod)"

section \<open>Launching one node\<close>

definition candidate_options ::
  "aws_config \<Rightarrow> instance_type_config \<Rightarrow> string \<Rightarrow> string \<Rightarrow> launch_options" where
  "candidate_options aws candidate nodeName userData =
     \<lparr>lo_Name = nodeName,
      lo_AMI = (if itc_AMI candidate \<noteq> '''' then itc_AMI candidate else aws_AMI aws),
      lo_InstanceType = itc_Name candidate,
      lo_SubnetID = aws_SubnetID aws,
      lo_SecurityGroupIDs = aws_SecurityGroupIDs aws,
      lo_VolumeSize = aws_VolumeSize aws,
      lo_VolumeType = aws_VolumeType aws,
      lo_UserData = userData,
      lo_Tags = aws_Tags aws\<rparr>"

fun launchWithFallback ::
  "provider \<Rightarrow> pool \<Rightarrow> instance_type_config list \<Rightarrow> string \<Rightarrow> string \<Rightarrow>
   (go_error + string \<times> string) io" where
  "launchWithFallback P pl [] nodeName userData =
     State_Monad.return (Inl (Plain ''all instance type candidates exhausted (capacity unavailable)''))"
| "launchWithFallback P pl (candidate # candidates) nodeName userData =
     (case AWS (pool_Spec pl) of
        None \<Rightarrow> State_Monad.return (Inl NilDeref)
      | Some aws \<Rightarrow>
          do {
            launched \<leftarrow> LaunchNode P (candidate_options aws candidate nodeName userData);
            (case launched of
               Inl launchErr \<Rightarrow>
                 (if launchErr = NilDeref then State_Monad.return (Inl NilDeref)
                  else if IsCapacityError launchErr
                  then launchWithFallback P pl candidates nodeName userData
                  else State_Monad.return (Inl (WrapErr (''launching '' @ itc_Name candidate) launchErr)))
             | Inr i \<Rightarrow> State_Monad.return (Inr (i, itc_Name candidate)))
          })"

section \<open>Launching the batch\<close>

definition pending_node :: "string \<Rightarrow> string \<Rightarrow> string \<Rightarrow> time \<Rightarrow> node_status" where
  "pending_node nodeName instanceID launchedType now =
     \<lparr>ns_Name = nodeName, ns_InstanceID = instanceID, ns_InstanceType = launchedType,
      ns_State = Pending, ns_LaunchedAt = now, ns_ReadyAt = None, ns_LastPodFinished = None\<rparr>"

definition add_pending :: "node_status \<Rightarrow> pool \<Rightarrow> pool" where
  "add_pending n pl =
     pl\<lparr>pool_Status := (pool_Status pl)
          \<lparr>Nodes := Nodes (pool_Status pl) @ [n],
           PendingNodes := int32 (PendingNodes (pool_Status pl) + 1)\<rparr>\<rparr>"

definition burst_node_name :: "pool \<Rightarrow> string \<Rightarrow> string" where
  "burst_node_name pl suffix = ''burst-'' @ pool_Name pl @ ''-'' @ suffix"

fun launch_loop ::
  "world \<Rightarrow> provider \<Rightarrow> instance_type_config list \<Rightarrow> bytes \<Rightarrow> nat \<Rightarrow> pool \<Rightarrow>
   (go_error + pool) io" where
  "launch_loop W P candidates configData 0 pl = State_Monad.return (Inr pl)"
| "launch_loop W P candidates configData (Suc n) pl =
     do {
       suffix \<leftarrow> randomSuffix W;
       let nodeName = burst_node_name pl suffix;
       (case PatchAndEncode (yaml_Unmarshal W) (yaml_Marshal W) configData nodeName of
          Inl err \<Rightarrow> launch_loop W P candidates configData n pl
        | Inr userData \<Rightarrow>
            do {
              launched \<leftarrow> launchWithFallback P pl candidates nodeName userData;
              (case launched of
                 Inl launchErr \<Rightarrow>
                   (if launchErr = NilDeref then State_Monad.return (Inl NilDeref)
                    else launch_loop W P candidates configData n pl)
               | Inr (instanceID, launchedType) \<Rightarrow>
                   do {
                     now \<leftarrow> time_now W;
                     launch_loop W P candidates configData n
                       (add_pending (pending_node nodeName instanceID launchedType now) pl)
                   })
            })
     }"

definition annotate_provisioned :: "pod \<Rightarrow> pod" where
  "annotate_provisioned p =
     p\<lparr>pod_Annotations := gm_put provisionedAnnotation labelValueTrue (pod_Annotations p)\<rparr>"

definition provisioner_launch ::
  "world \<Rightarrow> provider \<Rightarrow> pod \<Rightarrow> pool \<Rightarrow> instance_type_config list \<Rightarrow> int \<Rightarrow> reconcile_result io" where
  "provisioner_launch W P p pl candidates nodesNeeded =
     do {
       secret \<leftarrow> get_secret W (pool_Namespace pl, MachineConfigSecret (Talos (pool_Spec pl)));
       (case secret of
          Inl err \<Rightarrow> State_Monad.return (Inl (WrapErr ''getting Talos config secret'' err))
        | Inr data \<Rightarrow>
            (let configKey = MachineConfigKey (Talos (pool_Spec pl));
                 configKey = (if configKey = '''' then ''worker.yaml'' else configKey)
             in case gm_lookup data configKey of
                  None \<Rightarrow> State_Monad.return (Inl (Plain ''key not found in secret''))
                | Some configData \<Rightarrow>
                    do {
                      batch \<leftarrow> launch_loop W P candidates configData (nat nodesNeeded) pl;
                      (case batch of
                         Inl panic \<Rightarrow> State_Monad.return (Inl panic)
                       | Inr pl \<Rightarrow>
                           do {
                             (err, pl) \<leftarrow> update_status W pl;
                             (case err of
                                Some err \<Rightarrow> State_Monad.return (Inl (WrapErr ''updating pool status'' err))
                              | None \<Rightarrow>
                                  do {
                                    err \<leftarrow> update_pod W (annotate_provisioned p);
                                    State_Monad.return no_requeue
                                  })
                           })
                    }))
     }"

section \<open>Sizing the batch\<close>

definition sort_pools :: "world \<Rightarrow> (pool \<Rightarrow> pool \<Rightarrow> bool) \<Rightarrow> pool list \<Rightarrow> pool list" where
  "sort_pools W = sort_slice (pdqsort_pools W)"

definition sort_types :: "world \<Rightarrow> (instance_type_config \<Rightarrow> instance_type_config \<Rightarrow> bool) \<Rightarrow>
    instance_type_config list \<Rightarrow> instance_type_config list" where
  "sort_types W = sort_slice (pdqsort_types W)"

definition matching_pods :: "world \<Rightarrow> pool \<Rightarrow> pod list \<Rightarrow> pod list" where
  "matching_pods W pl pods =
     filter (\<lambda>q. IsPodUnschedulable q \<and> MatchPodToPool (sort_pools W) q [pl] \<noteq> None) pods"

definition currentNodes :: "pool \<Rightarrow> int" where
  "currentNodes pl = int32 (ActiveNodes (pool_Status pl) + PendingNodes (pool_Status pl))"

definition provisioner_size :: "world \<Rightarrow> provider \<Rightarrow> pod \<Rightarrow> pool \<Rightarrow> reconcile_result io" where
  "provisioner_size W P p pl =
     (if currentNodes pl \<ge> MaxNodes (Scaling (pool_Spec pl))
      then State_Monad.return (requeue_after (30 * second))
      else do {
        podList \<leftarrow> list_pods W;
        (case podList of
           Inl err \<Rightarrow> State_Monad.return (Inl (WrapErr ''listing pods'' err))
         | Inr items \<Rightarrow>
             (let matchingPods = matching_pods W pl items;
                  candidates = SelectInstanceTypes (sort_types W) pl matchingPods
              in if length candidates = 0 then State_Monad.return (requeue_after (30 * second))
                 else
                   let selectedType = candidates ! 0;
                       (capacity, ok) = GetInstanceCapacity (itc_Name selectedType);
                       capacity = (if \<not> ok then defaultCapacity else capacity);
                       nodesNeeded = CalculateNodesNeeded matchingPods capacity (currentNodes pl)
                                       (MaxNodes (Scaling (pool_Spec pl)))
                   in if nodesNeeded \<le> 0 then State_Monad.return (requeue_after (30 * second))
                      else provisioner_launch W P p pl candidates nodesNeeded))
      })"

section \<open>Matching and the whole handler\<close>

definition provisioned :: "pod \<Rightarrow> bool" where
  "provisioned p = (pod_Annotations p \<noteq> None \<and> gm_get (pod_Annotations p) provisionedAnnotation = labelValueTrue)"

definition provisioner_match :: "world \<Rightarrow> provider \<Rightarrow> pod \<Rightarrow> reconcile_result io" where
  "provisioner_match W P p =
     do {
       poolList \<leftarrow> list_pools W;
       (case poolList of
          Inl err \<Rightarrow> State_Monad.return (Inl (WrapErr ''listing BurstNodePools'' err))
        | Inr items \<Rightarrow>
            (case MatchPodToPool (sort_pools W) p items of
               None \<Rightarrow> State_Monad.return no_requeue
             | Some pl \<Rightarrow>
                 if provisioned p then State_Monad.return no_requeue
                 else do {
                   fetched \<leftarrow> get_pool W (pool_Namespace pl, pool_Name pl);
                   (case fetched of
                      Inl err \<Rightarrow> State_Monad.return (Inl (WrapErr ''re-fetching pool'' err))
                    | Inr pl \<Rightarrow> provisioner_size W P p pl)
                 }))
     }"

definition within_debounce :: "world \<Rightarrow> duration \<Rightarrow> pod \<Rightarrow> bool io" where
  "within_debounce W DebouncePeriod p =
     (if IsBurstEnabled p then State_Monad.return False
      else let unschedulableSince = podUnschedulableSince p
           in if unschedulableSince = zero_time then State_Monad.return True
              else do {
                now \<leftarrow> time_now W;
                State_Monad.return (time_sub now unschedulableSince < debouncePeriod DebouncePeriod)
              })"

definition ProvisionerReconciler_Reconcile ::
  "world \<Rightarrow> provider \<Rightarrow> duration \<Rightarrow> nname \<Rightarrow> reconcile_result io" where
  "ProvisionerReconciler_Reconcile W P DebouncePeriod req =
     do {
       fetched \<leftarrow> get_pod W req;
       (case fetched of
          Inl err \<Rightarrow> State_Monad.return (if IsNotFound err then no_requeue else Inl err)
        | Inr p \<Rightarrow>
            if \<not> IsPodUnschedulable p then State_Monad.return no_requeue
            else do {
              wait \<leftarrow> within_debounce W DebouncePeriod p;
              (if wait then State_Monad.return (requeue_after (debouncePeriod DebouncePeriod))
               else provisioner_match W P p)
            })
     }"

text \<open>The reconciler with its fields; the API client is the world, and the scheme is not read.\<close>

record provisioner_reconciler =
  pr_CloudProvider :: provider
  pr_DebouncePeriod :: duration

definition provisioner_handler :: "world \<Rightarrow> provisioner_reconciler \<Rightarrow> nname \<Rightarrow> reconcile_result io" where
  "provisioner_handler W r = ProvisionerReconciler_Reconcile W (pr_CloudProvider r) (pr_DebouncePeriod r)"

section \<open>What a batch adds to the pool\<close>

lemma add_pending_simps [simp]:
  "Nodes (pool_Status (add_pending n pl)) = Nodes (pool_Status pl) @ [n]"
  "ActiveNodes (pool_Status (add_pending n pl)) = ActiveNodes (pool_Status pl)"
  "PendingNodes (pool_Status (add_pending n pl)) = int32 (PendingNodes (pool_Status pl) + 1)"
  "pool_Spec (add_pending n pl) = pool_Spec pl"
  "pool_Name (add_pending n pl) = pool_Name pl"
  "pool_Namespace (add_pending n pl) = pool_Namespace pl"
  by (simp_all add: add_pending_def)

definition add_all :: "node_status list \<Rightarrow> pool \<Rightarrow> pool" where
  "add_all ns pl = foldl (\<lambda>pl n. add_pending n pl) pl ns"

lemma add_all_simps [simp]:
  "add_all [] pl = pl"
  "add_all (n # ns) pl = add_all ns (add_pending n pl)"
  by (simp_all add: add_all_def)

lemma add_all_frame [simp]:
  "Nodes (pool_Status (add_all ns pl)) = Nodes (pool_Status pl) @ ns"
  "ActiveNodes (pool_Status (add_all ns pl)) = ActiveNodes (pool_Status pl)"
  "pool_Spec (add_all ns pl) = pool_Spec pl"
  "pool_Name (add_all ns pl) = pool_Name pl"
  "pool_Namespace (add_all ns pl) = pool_Namespace pl"
  by (induction ns arbitrary: pl) simp_all

lemma add_pending_status:
  "add_pending n pl = pl\<lparr>pool_Status := (pool_Status pl)\<lparr>Nodes := Nodes (pool_Status pl) @ [n],
     PendingNodes := int32 (PendingNodes (pool_Status pl) + 1)\<rparr>\<rparr>"
  by (simp add: add_pending_def)

lemma same_version_trans: "same_version a b \<Longrightarrow> same_version b c \<Longrightarrow> same_version a c"
  by (auto simp: same_version_def)

lemma same_version_add_all: "same_version pl (add_all ns pl)"
proof (induction ns arbitrary: pl)
  case Nil
  show ?case unfolding same_version_def by (intro exI [of _ "pool_Status pl"]) simp
next
  case (Cons n ns)
  have "same_version pl (add_pending n pl)"
    unfolding same_version_def by (auto simp: add_pending_status)
  with Cons.IH show ?case by (auto intro: same_version_trans)
qed

text \<open>Each addition is a launch of the lifecycle while the pool has room.\<close>

lemma add_all_life:
  "0 \<le> PendingNodes (pool_Status pl) \<Longrightarrow> 0 \<le> ActiveNodes (pool_Status pl) \<Longrightarrow> mx < 2 ^ 31 \<Longrightarrow>
   list_all (in_state Pending) ns \<Longrightarrow>
   ActiveNodes (pool_Status pl) + PendingNodes (pool_Status pl) + int (length ns) \<le> mx \<Longrightarrow>
   (life (ns_InstanceID ` set ns) mx)\<^sup>*\<^sup>* (pool_Status pl) (pool_Status (add_all ns pl))"
proof (induction ns arbitrary: pl)
  case Nil
  then show ?case by simp
next
  case (Cons n ns)
  have wrap: "int32 (PendingNodes (pool_Status pl) + 1) = PendingNodes (pool_Status pl) + 1"
    using Cons.prems by (intro int32_small) auto
  have "life (ns_InstanceID ` set (n # ns)) mx (pool_Status pl) (pool_Status (add_pending n pl))"
    unfolding add_pending_status wrap
    using life.launched [of n "ns_InstanceID ` set (n # ns)"] Cons.prems by simp
  moreover have "(life (ns_InstanceID ` set (n # ns)) mx)\<^sup>*\<^sup>* (pool_Status (add_pending n pl)) (pool_Status (add_all ns (add_pending n pl)))"
    using Cons.prems wrap by (intro life_star_mono [OF Cons.IH]) auto
  ultimately show ?case by (simp add: converse_rtranclp_into_rtranclp)
qed

lemma tracked_add_all:
  "tracked (pool_Status (add_all ns pl)) = tracked (pool_Status pl) + mset (map ns_InstanceID ns)"
  by (simp add: tracked_def)

lemma add_all_follows:
  assumes "list_all (in_state Pending) ns"
    and "int (length ns) \<le> max 0 (pool_max pl - currentNodes pl)"
  shows "follows (mset (map ns_InstanceID ns)) pl (add_all ns pl)"
proof -
  have "(life (ns_InstanceID ` set ns) (pool_max pl))\<^sup>*\<^sup>* (pool_Status pl) (pool_Status (add_all ns pl))" if ok: "pool_ok pl"
  proof -
    note c = pool_ok_counters [OF ok]
    have "currentNodes pl = ActiveNodes (pool_Status pl) + PendingNodes (pool_Status pl)"
      unfolding currentNodes_def using c by (intro int32_small) auto
    with assms c show ?thesis by (intro add_all_life) auto
  qed
  then show ?thesis by (simp add: follows_def same_version_add_all tracked_add_all)
qed

section \<open>What a batch does to the cloud\<close>

text \<open>A stretch of a run that touches no Kubernetes object.\<close>

fun is_launching :: "event \<Rightarrow> bool" where
  "is_launching (EvNow t) = True"
| "is_launching (EvRandRead b) = True"
| "is_launching e = is_cloud e"

lemma launching_frame:
  "list_all is_launching es \<Longrightarrow> pools_written es = [] \<and> pools_read es = [] \<and> bases es = []"
proof (induction es)
  case (Cons e es)
  then show ?case by (cases e) auto
qed simp

lemma cloud_launching: "list_all is_cloud es \<Longrightarrow> list_all is_launching es"
proof (induction es)
  case (Cons e es)
  then show ?case by (cases e) auto
qed simp

definition batch_result :: "nat \<Rightarrow> pool \<Rightarrow> pool \<Rightarrow> event list \<Rightarrow> bool" where
  "batch_result n pl pl' es \<longleftrightarrow>
     (\<exists>ns. pl' = add_all ns pl \<and> list_all (in_state Pending) ns \<and> length ns \<le> n \<and>
        map ns_InstanceID ns = launched es \<and> terminated es = [] \<and> list_all is_launching es)"

lemma batch_result_skip: "batch_result n pl pl' es \<Longrightarrow> batch_result (Suc n) pl pl' es"
  unfolding batch_result_def by force

lemma batch_result_add:
  assumes "batch_result n (add_pending m pl) pl' es" "in_state Pending m"
    "list_all is_cloud fs" "terminated fs = []" "launched fs = [ns_InstanceID m]"
  shows "batch_result (Suc n) pl pl' (fs @ EvNow t # es)"
proof -
  from assms(1) obtain ns where "pl' = add_all ns (add_pending m pl)" "list_all (in_state Pending) ns"
    "length ns \<le> n" "map ns_InstanceID ns = launched es" "terminated es = []" "list_all is_launching es"
    by (auto simp: batch_result_def)
  with assms(2-5) show ?thesis
    unfolding batch_result_def by (intro exI [of _ "m # ns"]) (simp add: cloud_launching)
qed

lemma batch_result_rand: "batch_result n pl pl' (EvRandRead b # es) = batch_result n pl pl' es"
  by (simp add: batch_result_def)

text \<open>A batch may also end in the panic of a pool without an \<open>aws\<close> section; then nothing is launched.\<close>

definition loop_result :: "nat \<Rightarrow> pool \<Rightarrow> go_error + pool \<Rightarrow> event list \<Rightarrow> bool" where
  "loop_result n pl r es \<longleftrightarrow>
     (case r of
        Inl e \<Rightarrow> e = NilDeref \<and> AWS (pool_Spec pl) = None \<and> launched es = [] \<and> terminated es = [] \<and>
          list_all is_launching es
      | Inr pl' \<Rightarrow> batch_result n pl pl' es)"

lemma loop_result_skip:
  "loop_result n pl r fs \<Longrightarrow> list_all is_cloud es \<Longrightarrow> terminated es = [] \<Longrightarrow> launched es = [] \<Longrightarrow>
   loop_result (Suc n) pl r (EvRandRead b # es @ fs)"
  by (auto simp: loop_result_def batch_result_def cloud_launching le_SucI split: sum.splits)

lemma loop_result_add:
  "loop_result n (add_pending m pl) r fs \<Longrightarrow> in_state Pending m \<Longrightarrow> AWS (pool_Spec pl) \<noteq> None \<Longrightarrow>
   list_all is_cloud es \<Longrightarrow> terminated es = [] \<Longrightarrow> launched es = [ns_InstanceID m] \<Longrightarrow>
   loop_result (Suc n) pl r (EvRandRead b # es @ EvNow t # fs)"
  by (auto simp: loop_result_def batch_result_rand intro: batch_result_add split: sum.splits)

context cloud_provider
begin

lemma launchWithFallback_spec:
  "emits (launchWithFallback P pl cs nm ud) (\<lambda>r es. list_all is_cloud es \<and> terminated es = [] \<and>
     launched es = (case r of Inl _ \<Rightarrow> [] | Inr x \<Rightarrow> [fst x]) \<and>
     (r = Inl NilDeref \<longrightarrow> AWS (pool_Spec pl) = None) \<and> (\<forall>x. r = Inr x \<longrightarrow> AWS (pool_Spec pl) \<noteq> None))"
proof (induction cs)
  case Nil
  then show ?case by (simp add: emits_return)
next
  case (Cons c cs)
  show ?case
    unfolding launchWithFallback.simps
    by (intro emits_rules emits_bind [OF launch_spec])
       (auto intro!: emits_return emits_mono [OF Cons.IH] split: sum.split)
qed

lemma launch_loop_spec:
  "emits (launch_loop W P cs cd n pl) (\<lambda>r es. loop_result n pl r es)"
proof (induction n arbitrary: pl)
  case 0
  then show ?case
    by (auto simp: loop_result_def batch_result_def intro!: emits_return exI [of _ "[]"])
next
  case (Suc n)
  have skip: "emits (launch_loop W P cs cd n pl) (\<lambda>r fs. loop_result (Suc n) pl r (EvRandRead b # es @ fs))"
    if "list_all is_cloud es" "terminated es = []" "launched es = []" for es b
    using that Suc.IH [of pl] by (auto elim!: emits_mono intro: loop_result_skip)
  have add: "emits (launch_loop W P cs cd n (add_pending m pl))
      (\<lambda>r fs. loop_result (Suc n) pl r (EvRandRead b # es @ EvNow t # fs))"
    if "in_state Pending m" "list_all is_cloud es" "terminated es = []" "launched es = [ns_InstanceID m]"
      "AWS (pool_Spec pl) \<noteq> None" for es b t m
    using that Suc.IH [of "add_pending m pl"] by (auto elim!: emits_mono intro!: loop_result_add)
  have stop: "loop_result (Suc n) pl (Inl NilDeref) (EvRandRead b # es)"
    if "list_all is_cloud es" "terminated es = []" "launched es = []" "AWS (pool_Spec pl) = None" for es b
    using that by (simp add: loop_result_def cloud_launching)
  show ?case
    unfolding launch_loop.simps randomSuffix_def world_calls
      State_Monad.bind_assoc State_Monad.bind_left_identity Let_def
    by (intro emits_rules emits_bind [OF launchWithFallback_spec])
       (auto intro: skip [of "[]", simplified] skip add stop simp: pending_node_def)
qed

end

section \<open>What a reconcile launches and writes\<close>

text \<open>
  Either nothing is launched and no status is written, or one status is written: the pool of this
  run with one pending node per launched instance, at most \<open>k\<close> of them.
\<close>

definition accounted :: "int \<Rightarrow> pool \<Rightarrow> event list \<Rightarrow> bool" where
  "accounted k pl es \<longleftrightarrow>
     terminated es = [] \<and>
     (launched es = [] \<and> pools_written es = [] \<or>
      (\<exists>ns. pools_written es = [add_all ns pl] \<and> map ns_InstanceID ns = launched es \<and>
         list_all (in_state Pending) ns \<and> int (length ns) \<le> max 0 k))"

lemma accounted_none: "terminated es = [] \<Longrightarrow> launched es = [] \<Longrightarrow> pools_written es = [] \<Longrightarrow> accounted k pl es"
  by (simp add: accounted_def)

lemma accounted_mono: "accounted k pl es \<Longrightarrow> k \<le> k' \<Longrightarrow> accounted k' pl es"
  unfolding accounted_def by force

lemma accounted_batch:
  assumes "batch_result (nat k) pl pl' es" "terminated fs = []" "launched fs = []" "pools_written fs = [pl']"
  shows "accounted k pl (es @ fs)"
  using assms launching_frame [of es] by (auto simp: accounted_def batch_result_def)

lemma accounted_disciplined_batch:
  assumes "batch_result (nat k) pl pl' es" "k \<le> max 0 (pool_max pl - currentNodes pl)"
    "\<And>e. e \<in> set fs \<Longrightarrow> write_of e = []"
  shows "disciplined {#} [pl] (es @ EvUpdateStatus pl' r # fs)"
proof -
  from assms(1) obtain ns where ns: "pl' = add_all ns pl" "list_all (in_state Pending) ns"
    "length ns \<le> nat k" "map ns_InstanceID ns = launched es" "list_all is_launching es" by (auto simp: batch_result_def)
  have f: "follows (mset (launched es)) pl pl'"
    unfolding ns(1) ns(4) [symmetric] using assms(2) ns(2,3) by (intro add_all_follows) auto
  have "pools_written fs = []" using assms(3) by (simp add: pools_written_def)
  with f launching_frame [OF ns(5)] show ?thesis
    by (simp add: disciplined_append disciplined_no_write at_hand_no_write)
qed

lemma secret_head:
  "accounted k pl (EvGetSecret a r # es) = accounted k pl es"
  "disciplined M B (EvGetSecret a r # es) = disciplined M B es"
  by (simp_all add: accounted_def)

context cloud_provider
begin

lemma provisioner_launch_spec:
  assumes "k \<le> max 0 (pool_max pl - currentNodes pl)"
  shows "emits (provisioner_launch W P p pl cs k) (\<lambda>r es. accounted k pl es \<and> disciplined {#} [pl] es)"
proof -
  have batch: "accounted k pl (es @ fs) \<and> disciplined {#} [pl] (es @ fs)"
    if "loop_result (nat k) pl (Inr pl') es" "fs = EvUpdateStatus pl' r # gs" "gs = [] \<or> (\<exists>q e. gs = [EvUpdatePod q e])"
    for pl' es fs gs r
    using that accounted_batch [of k pl pl' es fs] accounted_disciplined_batch [OF _ assms, of pl' es gs r]
    by (auto simp: loop_result_def)
  have panic: "accounted k pl es \<and> disciplined {#} [pl] es" if "loop_result (nat k) pl (Inl e) es" for e es
    using that launching_frame [of es] by (auto simp: loop_result_def intro!: accounted_none disciplined_no_write)
  show ?thesis
    unfolding provisioner_launch_def world_calls
    by (intro emits_rules emits_bind [OF launch_loop_spec])
       (auto simp del: disciplined.simps simp: secret_head batch panic 
          split: option.split intro!: emits_rules disciplined_no_write accounted_none)
qed

end

section \<open>The whole handler\<close>

text \<open>How many nodes may still be added to a pool.\<close>

definition room :: "pool \<Rightarrow> int" where
  "room pl = max 0 (pool_max pl - currentNodes pl)"

text \<open>
  A run of the provisioner launches nothing and writes nothing, or it writes one pool that it read,
  with exactly one new pending node per launched instance, within the room of that pool.
\<close>

definition well_accounted :: "event list \<Rightarrow> bool" where
  "well_accounted es \<longleftrightarrow>
     terminated es = [] \<and>
     (launched es = [] \<and> pools_written es = [] \<or>
      (\<exists>pl \<in> set (pools_read es). accounted (room pl) pl es))"

lemma accounted_head:
  "terminated_of e = [] \<Longrightarrow> launched_of e = [] \<Longrightarrow> write_of e = [] \<Longrightarrow> accounted k pl (e # es) = accounted k pl es"
  by (simp add: accounted_def)

lemma well_accounted_none: "terminated es = [] \<Longrightarrow> launched es = [] \<Longrightarrow> pools_written es = [] \<Longrightarrow> well_accounted es"
  by (simp add: well_accounted_def)

lemma well_accounted_some: "accounted (room pl) pl es \<Longrightarrow> pl \<in> set (pools_read es) \<Longrightarrow> well_accounted es"
  by (auto simp: well_accounted_def accounted_def)

lemma well_accounted_head:
  "terminated_of e = [] \<Longrightarrow> launched_of e = [] \<Longrightarrow> write_of e = [] \<Longrightarrow> read_of e = [] \<Longrightarrow>
   well_accounted (e # es) = well_accounted es"
  by (simp add: well_accounted_def accounted_head)

context cloud_provider
begin

lemma provisioner_size_spec:
  "emits (provisioner_size W P p pl) (\<lambda>r es. accounted (room pl) pl es \<and> disciplined {#} [pl] es)"
proof -
  have launch: "emits (provisioner_launch W P p pl cs (CalculateNodesNeeded ps cap (currentNodes pl) (MaxNodes (Scaling (pool_Spec pl)))))
      (\<lambda>r es. accounted (room pl) pl (EvListPods l # es) \<and> disciplined {#} [pl] es)" for cs ps cap l
    using CalculateNodesNeeded_range [of ps cap "currentNodes pl" "MaxNodes (Scaling (pool_Spec pl))"]
    by (intro emits_mono [OF provisioner_launch_spec])
       (auto simp: pool_max_def room_def accounted_head elim: accounted_mono)
  show ?thesis
    unfolding provisioner_size_def world_calls
    by (intro emits_rules launch) (simp_all add: accounted_none launch)
qed

lemma provisioner_match_spec:
  "emits (provisioner_match W P p) (\<lambda>r es. well_accounted es \<and> disciplined M B es)"
proof -
  have size: "emits (provisioner_size W P p pl) (\<lambda>r es.
      well_accounted (EvListPools l # EvGetPool k (Inr pl) # es) \<and>
      disciplined M C es)" if "pl \<in> set C" for pl l k M C
    by (rule emits_mono [OF provisioner_size_spec]) (use that in
       \<open>auto intro!: well_accounted_some [of pl] simp: accounted_head elim: disciplined_later\<close>)
  show ?thesis
    unfolding provisioner_match_def world_calls
    by (intro emits_rules) (simp_all add: well_accounted_none size)
qed

lemma within_debounce_spec:
  "emits (within_debounce W d p) (\<lambda>r es. es = [] \<or> (\<exists>t. es = [EvNow t]))"
  unfolding within_debounce_def world_calls Let_def
  by (intro emits_rules) auto

lemma provisioner_spec:
  "emits (ProvisionerReconciler_Reconcile W P d req) (\<lambda>r es. well_accounted es \<and> disciplined {#} [] es)"
  unfolding ProvisionerReconciler_Reconcile_def world_calls
  by (intro emits_rules emits_bind [OF within_debounce_spec] emits_mono [OF provisioner_match_spec])
     (auto simp: well_accounted_none well_accounted_head)

end

end
