(* ===== verification/Provisioner_Runs.thy ===== *)
theory Provisioner_Runs
  imports Provisioner
begin

text \<open>
  What the runs of the provisioner show: the fallback over the instance types, the conditions under
  which it acts, the order in which it marks a pod, its course when the calls succeed, and the
  properties of the component.
\<close>

section \<open>Fallback\<close>

text \<open>
  The answers EC2 gave to a series of launches: the candidates are tried in their order, the next
  one only after a capacity error; the result is the first success, or a failure.
\<close>

definition capacity_answer :: "go_error + ec2_instance list \<Rightarrow> bool" where
  "capacity_answer a = (case a of Inl e \<Rightarrow> IsCapacityError e | Inr _ \<Rightarrow> False)"

definition attempted ::
  "aws_config \<Rightarrow> string \<Rightarrow> string \<Rightarrow> instance_type_config list \<Rightarrow> go_error + string \<times> string \<Rightarrow>
   event list \<Rightarrow> bool" where
  "attempted aws nm ud cs r es \<longleftrightarrow>
     (\<exists>as. length as \<le> length cs \<and>
        es = map2 (\<lambda>c a. EvRunInstances (launch_input (candidate_options aws c nm ud)) a) cs as \<and>
        list_all capacity_answer (butlast as) \<and>
        (case r of
           Inr (i, t) \<Rightarrow> as \<noteq> [] \<and> t = itc_Name (cs ! (length as - 1)) \<and>
             (\<exists>x xs. last as = Inr (x # xs) \<and> i = aws_ToString (ei_InstanceId x))
         | Inl e \<Rightarrow> list_all capacity_answer as \<and> length as = length cs \<or>
             as \<noteq> [] \<and> \<not> capacity_answer (last as) \<and> (\<forall>xs. last as = Inr xs \<longrightarrow> xs = [])))"

lemma attempted_next:
  assumes "attempted aws nm ud cs r es" "IsCapacityError e"
  shows "attempted aws nm ud (c # cs) r
    (EvRunInstances (launch_input (candidate_options aws c nm ud)) (Inl e) # es)"
proof -
  from assms(1) obtain as where as: "length as \<le> length cs"
    "es = map2 (\<lambda>c a. EvRunInstances (launch_input (candidate_options aws c nm ud)) a) cs as"
    "list_all capacity_answer (butlast as)"
    "case r of
       Inr (i, t) \<Rightarrow> as \<noteq> [] \<and> t = itc_Name (cs ! (length as - 1)) \<and>
         (\<exists>x xs. last as = Inr (x # xs) \<and> i = aws_ToString (ei_InstanceId x))
     | Inl e \<Rightarrow> list_all capacity_answer as \<and> length as = length cs \<or>
         as \<noteq> [] \<and> \<not> capacity_answer (last as) \<and> (\<forall>xs. last as = Inr xs \<longrightarrow> xs = [])"
    unfolding attempted_def by blast
  have "capacity_answer (Inl e)" using assms(2) by (simp add: capacity_answer_def)
  with as show ?thesis
    unfolding attempted_def
    by (intro exI [of _ "Inl e # as"]) (auto split: sum.splits simp: nth_Cons')
qed

lemma launchWithFallback_attempted:
  assumes "AWS (pool_Spec pl) = Some aws"
  shows "emits (launchWithFallback (ec2_provider W) pl cs nm ud) (\<lambda>r es. attempted aws nm ud cs r es)"
proof (induction cs)
  case Nil
  show ?case by (simp add: emits_return attempted_def)
next
  case (Cons c cs)
  have stop: "attempted aws nm ud (c # cs) r [EvRunInstances (launch_input (candidate_options aws c nm ud)) a]"
    if "case r of
       Inr (i, t) \<Rightarrow> t = itc_Name c \<and> (\<exists>x xs. a = Inr (x # xs) \<and> i = aws_ToString (ei_InstanceId x))
     | Inl e \<Rightarrow> \<not> capacity_answer a \<and> (\<forall>xs. a = Inr xs \<longrightarrow> xs = [])" for r a
    using that unfolding attempted_def by (intro exI [of _ "[a]"]) (auto split: sum.splits)
  show ?case
    unfolding launchWithFallback.simps assms option.case ec2_provider_simps EC2Provider_LaunchNode_def
      world_calls State_Monad.bind_assoc State_Monad.bind_left_identity
    by (intro emits_rules)
       (auto split: sum.splits if_splits simp: capacity_answer_def neq_Nil_conv
          intro!: emits_rules stop emits_mono [OF Cons.IH] attempted_next)
qed

section \<open>When the provisioner acts\<close>

text \<open>What the pod and the pools a run read must look like for it to act.\<close>

definition pod_ready_to_burst :: "duration \<Rightarrow> pod \<Rightarrow> event list \<Rightarrow> bool" where
  "pod_ready_to_burst d p es \<longleftrightarrow>
     IsPodUnschedulable p \<and>
     (IsBurstEnabled p \<or>
      podUnschedulableSince p \<noteq> zero_time \<and>
      (\<exists>t. EvNow t \<in> set es \<and> debouncePeriod d \<le> time_sub t (podUnschedulableSince p)))"

definition matched_with_room :: "world \<Rightarrow> pod \<Rightarrow> event list \<Rightarrow> bool" where
  "matched_with_room W p es \<longleftrightarrow>
     (\<exists>items q pl. EvListPools (Inr items) \<in> set es \<and> MatchPodToPool (sort_pools W) p items = Some q \<and>
        EvGetPool (pool_Namespace q, pool_Name q) (Inr pl) \<in> set es \<and>
        currentNodes pl < MaxNodes (Scaling (pool_Spec pl)))"

lemma matched_with_room_Cons: "matched_with_room W p es \<Longrightarrow> matched_with_room W p (e # es)"
  unfolding matched_with_room_def by (metis list.set_intros(2))

context cloud_provider
begin

lemma size_acts:
  "emits (provisioner_size W P p pl) (\<lambda>r es. acts es \<longrightarrow> currentNodes pl < MaxNodes (Scaling (pool_Spec pl)))"
proof (cases "currentNodes pl < MaxNodes (Scaling (pool_Spec pl))")
  case True
  then show ?thesis by (simp add: emits_mono [OF provisioner_size_spec])
next
  case False
  then show ?thesis by (simp add: provisioner_size_def emits_return)
qed

lemma match_acts:
  "emits (provisioner_match W P p) (\<lambda>r es. acts es \<longrightarrow> \<not> provisioned p \<and> matched_with_room W p es)"
proof -
  have size: "emits (provisioner_size W P p pl) (\<lambda>r es. acts es \<longrightarrow>
      matched_with_room W p (EvListPools (Inr items) # EvGetPool (pool_Namespace q, pool_Name q) (Inr pl) # es))"
    if "MatchPodToPool (sort_pools W) p items = Some q" for items q pl
    using that by (intro emits_mono [OF size_acts]) (auto simp: matched_with_room_def)
  show ?thesis
    unfolding provisioner_match_def world_calls
    by (intro emits_rules) (simp_all add: size)
qed

lemma reconcile_acts:
  "emits (ProvisionerReconciler_Reconcile W P d req) (\<lambda>r es. acts es \<longrightarrow>
     (\<exists>p fs. es = EvGetPod req (Inr p) # fs \<and> pod_ready_to_burst d p fs \<and> \<not> provisioned p \<and>
        matched_with_room W p fs))"
proof -
  have debounce: "emits (within_debounce W d p) (\<lambda>wait es. (es = [] \<or> (\<exists>t. es = [EvNow t])) \<and>
      (\<not> wait \<longrightarrow> IsPodUnschedulable p \<longrightarrow> pod_ready_to_burst d p es))" for p
    unfolding within_debounce_def world_calls Let_def pod_ready_to_burst_def
    by (intro emits_rules) auto
  have more: "pod_ready_to_burst d p (es @ fs)" if "pod_ready_to_burst d p es" for p es fs
    using that by (auto simp: pod_ready_to_burst_def)
  note more [of _ "[]", simplified, intro] more [of _ "[_]", simplified, intro]
  show ?thesis
    unfolding ProvisionerReconciler_Reconcile_def world_calls
    by (intro emits_rules emits_bind [OF debounce] emits_mono [OF match_acts])
       (auto intro: matched_with_room_Cons)
qed

end

section \<open>Marking the pod\<close>

fun pod_write_of :: "event \<Rightarrow> pod list" where
  "pod_write_of (EvUpdatePod p r) = [p]"
| "pod_write_of _ = []"

definition pods_written :: "event list \<Rightarrow> pod list" where
  "pods_written es = concat (map pod_write_of es)"

lemma pods_written_simps [simp]:
  "pods_written [] = []"
  "pods_written (e # es) = pod_write_of e @ pods_written es"
  "pods_written (es @ fs) = pods_written es @ pods_written fs"
  by (simp_all add: pods_written_def)

lemma launching_pods: "list_all is_launching es \<Longrightarrow> pods_written es = []"
proof (induction es)
  case (Cons e es)
  then show ?case by (cases e) auto
qed simp

text \<open>The pod is marked at most once, by the last call, right after an accepted status update.\<close>

definition marked_last :: "pod \<Rightarrow> event list \<Rightarrow> bool" where
  "marked_last p es \<longleftrightarrow>
     pods_written es = [] \<or>
     (\<exists>as pl rv r. es = as @ [EvUpdateStatus pl (Inr rv), EvUpdatePod (annotate_provisioned p) r] \<and>
        pods_written as = [])"

lemma marked_last_none: "pods_written es = [] \<Longrightarrow> marked_last p es"
  by (simp add: marked_last_def)

lemma marked_last_now:
  "pods_written es = [] \<Longrightarrow> marked_last p (es @ [EvUpdateStatus pl (Inr rv), EvUpdatePod (annotate_provisioned p) r])"
  unfolding marked_last_def by blast

lemma marked_last_Cons:
  assumes "pod_write_of e = []" "write_of e = []"
  shows "marked_last p (e # es) = marked_last p es"
proof -
  have "(\<exists>as pl rv r. e # es = as @ [EvUpdateStatus pl (Inr rv), EvUpdatePod (annotate_provisioned p) r] \<and>
        pods_written as = []) \<longleftrightarrow>
    (\<exists>as pl rv r. es = as @ [EvUpdateStatus pl (Inr rv), EvUpdatePod (annotate_provisioned p) r] \<and>
        pods_written as = [])" (is "?l \<longleftrightarrow> ?r")
  proof
    assume ?l
    with assms show ?r by (auto simp: Cons_eq_append_conv)
  next
    assume ?r
    then obtain as pl rv r where "es = as @ [EvUpdateStatus pl (Inr rv), EvUpdatePod (annotate_provisioned p) r]"
      "pods_written as = []" by blast
    with assms show ?l
      by (intro exI [of _ "e # as"] exI [of _ pl] exI [of _ rv] exI [of _ r]) simp
  qed
  with assms show ?thesis by (simp add: marked_last_def)
qed

lemmas marked_last_simps = marked_last_none marked_last_now marked_last_Cons

context cloud_provider
begin

lemma launch_marks: "emits (provisioner_launch W P p pl cs k) (\<lambda>r es. marked_last p es)"
proof -
  have loop: "pods_written es = []" if "loop_result n pl r es" for n r es
    using that by (auto simp: loop_result_def batch_result_def launching_pods split: sum.splits)
  show ?thesis
    unfolding provisioner_launch_def world_calls
    by (intro emits_rules emits_bind [OF launch_loop_spec])
       (auto split: option.split intro!: emits_rules dest!: loop simp: marked_last_simps)
qed

lemma reconcile_marks:
  "emits (ProvisionerReconciler_Reconcile W P d req) (\<lambda>r es.
     pods_written es = [] \<or> (\<exists>p fs. es = EvGetPod req (Inr p) # fs \<and> marked_last p fs))"
proof -
  have size: "emits (provisioner_size W P p pl) (\<lambda>r es. marked_last p es)" for p pl
    unfolding provisioner_size_def world_calls
    by (intro emits_rules emits_mono [OF launch_marks]) (simp_all add: marked_last_simps)
  have match: "emits (provisioner_match W P p) (\<lambda>r es. marked_last p es)" for p
    unfolding provisioner_match_def world_calls
    by (intro emits_rules emits_mono [OF size]) (simp_all add: marked_last_simps)
  show ?thesis
    unfolding ProvisionerReconciler_Reconcile_def world_calls
    by (intro emits_rules emits_bind [OF within_debounce_spec] emits_mono [OF match])
       (auto simp: marked_last_simps)
qed

end

section \<open>When the world cooperates\<close>

definition launches_succeed :: "world \<Rightarrow> bool" where
  "launches_succeed W \<longleftrightarrow> (\<forall>h i. \<exists>x xs. w_RunInstances W h i = Inr (x # xs))"

definition status_accepted :: "world \<Rightarrow> bool" where
  "status_accepted W \<longleftrightarrow> (\<forall>h p. \<exists>rv. w_UpdateStatus W h p = Inr rv)"

lemma launch_succeeds:
  assumes "launches_succeed W"
  shows "emits (EC2Provider_LaunchNode W opts) (\<lambda>r es. (\<exists>i. r = Inr i) \<and> count_launched es = 1)"
proof -
  obtain x xs where ok: "w_RunInstances W h i = Inr (x h i # xs h i)" for h i
    using assms unfolding launches_succeed_def by metis
  show ?thesis
    unfolding EC2Provider_LaunchNode_def world_calls
    by (rule emits_bind_answer, rule emits_return) (simp add: ok)
qed

lemma fallback_succeeds:
  assumes "launches_succeed W" "AWS (pool_Spec pl) \<noteq> None" "cs \<noteq> []"
  shows "emits (launchWithFallback (ec2_provider W) pl cs nm ud) (\<lambda>r es. (\<exists>x. r = Inr x) \<and> count_launched es = 1)"
proof -
  from assms(2) obtain aws where aws: "AWS (pool_Spec pl) = Some aws" by auto
  from assms(3) obtain c cs' where cs: "cs = c # cs'" by (cases cs) auto
  show ?thesis
    unfolding cs launchWithFallback.simps aws option.case ec2_provider_simps
    by (rule emits_bind [OF launch_succeeds [OF assms(1)]]) (auto intro!: emits_return)
qed

lemma loop_succeeds:
  assumes "launches_succeed W" "cs \<noteq> []"
    and "\<And>nm. \<exists>ud. PatchAndEncode (yaml_Unmarshal W) (yaml_Marshal W) cd nm = Inr ud"
  shows "AWS (pool_Spec pl) \<noteq> None \<Longrightarrow>
    emits (launch_loop W (ec2_provider W) cs cd n pl) (\<lambda>r es. (\<exists>pl'. r = Inr pl') \<and> count_launched es = n)"
proof (induction n arbitrary: pl)
  case 0
  then show ?case by (simp add: emits_return)
next
  case (Suc n)
  obtain ud where ud: "PatchAndEncode (yaml_Unmarshal W) (yaml_Marshal W) cd nm = Inr (ud nm)" for nm
    using assms(3) by metis
  show ?case
    unfolding launch_loop.simps randomSuffix_def world_calls
      State_Monad.bind_assoc State_Monad.bind_left_identity Let_def ud sum.case
    using Suc.prems
    by (intro emits_rules emits_bind [OF fallback_succeeds [OF assms(1) _ assms(2)]])
       (auto intro!: emits_rules emits_mono [OF Suc.IH])
qed

text \<open>The opposite: EC2 starts no instance, whatever it answers.\<close>

lemma fallback_fails:
  assumes "\<And>h i x xs. w_RunInstances W h i \<noteq> Inr (x # xs)" "AWS (pool_Spec pl) \<noteq> None"
  shows "emits (launchWithFallback (ec2_provider W) pl cs nm ud)
    (\<lambda>r es. (\<exists>err. r = Inl err \<and> err \<noteq> NilDeref) \<and> launched es = [])"
proof -
  obtain aws where aws: "AWS (pool_Spec pl) = Some aws" using assms(2) by auto
  have fail: "emits (EC2Provider_LaunchNode W opts) (\<lambda>r es. (\<exists>err. r = Inl err \<and> err \<noteq> NilDeref) \<and> launched es = [])"
    for opts
    unfolding EC2Provider_LaunchNode_def world_calls
    by (rule emits_bind_answer, rule emits_return) (use assms(1) in \<open>auto split: sum.splits list.splits simp: neq_Nil_conv\<close>)
  show ?thesis
  proof (induction cs)
    case (Cons c cs)
    show ?case
      unfolding launchWithFallback.simps aws option.case ec2_provider_simps
      by (rule emits_bind [OF fail]) (auto intro!: emits_return emits_mono [OF Cons.IH])
  qed (simp add: emits_return)
qed

lemma loop_fails:
  assumes "\<And>h i x xs. w_RunInstances W h i \<noteq> Inr (x # xs)" "AWS (pool_Spec pl) \<noteq> None"
  shows "emits (launch_loop W (ec2_provider W) cs cd n pl) (\<lambda>r es. r = Inr pl \<and> launched es = [])"
proof (induction n)
  case (Suc n)
  show ?case
    unfolding launch_loop.simps randomSuffix_def world_calls
      State_Monad.bind_assoc State_Monad.bind_left_identity Let_def
    by (intro emits_rules emits_bind [OF fallback_fails [OF assms]] emits_mono [OF Suc.IH])
       (auto intro!: emits_mono [OF Suc.IH])
qed (simp add: emits_return)

lemma update_answered:
  assumes "status_accepted W"
  shows "emits (update_status W q) (\<lambda>r es. \<exists>rv. r = (None, q\<lparr>pool_ResourceVersion := rv\<rparr>) \<and>
    es = [EvUpdateStatus q (Inr rv)])"
proof -
  obtain rv where st: "w_UpdateStatus W h p = Inr (rv h p)" for h p
    using assms unfolding status_accepted_def by metis
  show ?thesis
    unfolding update_status_def
    by (rule emits_bind_answer, rule emits_return) (simp add: st)
qed

lemma provisioned_annotated: "provisioned (annotate_provisioned p)"
proof -
  have "gm_put provisionedAnnotation labelValueTrue m \<noteq> None" for m by (simp add: gm_put_def)
  then show ?thesis by (simp add: provisioned_def annotate_provisioned_def)
qed

text \<open>A run for a marked pod changes nothing.\<close>

lemma marked_pod_idle:
  assumes "\<forall>h. w_GetPod W h req = Inr (annotate_provisioned p)"
  shows "\<not> acts (calls_of (ProvisionerReconciler_Reconcile W (ec2_provider W) d req) h)"
proof
  let ?m = "ProvisionerReconciler_Reconcile W (ec2_provider W) d req"
  assume "acts (calls_of ?m h)"
  with emitsD [OF ec2.reconcile_acts [of W W d req], of h] obtain q es where
    "calls_of ?m h = EvGetPod req (Inr q) # es" "\<not> provisioned q" by (auto simp: pod_ready_to_burst_def)
  moreover have first: "emits ?m (\<lambda>r es. hd es = EvGetPod req (Inr (annotate_provisioned p)))"
    unfolding ProvisionerReconciler_Reconcile_def get_pod_def
    by (rule emits_bind_answer)
       (auto simp: assms intro!: emits_rules emits_bind [OF ec2.within_debounce_spec] emits_mono [OF ec2.match_acts])
  ultimately show False using emitsD [OF first, of h] provisioned_annotated [of p] by simp
qed

text \<open>A batch is delivered when the secret is usable, launches succeed and status updates are accepted.\<close>

lemma launch_delivers:
  assumes "launches_succeed W" "status_accepted W" "AWS (pool_Spec pl) \<noteq> None" "cs \<noteq> []"
    and "\<And>h key. w_GetSecret W h key = Inr data"
    and "gm_lookup data (if MachineConfigKey (Talos (pool_Spec pl)) = '''' then ''worker.yaml''
        else MachineConfigKey (Talos (pool_Spec pl))) = Some cd"
    and "\<And>nm. \<exists>ud. PatchAndEncode (yaml_Unmarshal W) (yaml_Marshal W) cd nm = Inr ud"
  shows "emits (provisioner_launch W (ec2_provider W) p pl cs k) (\<lambda>r es. r = no_requeue \<and> count_launched es = nat k \<and>
    (\<exists>fs x. es = fs @ [EvUpdatePod (annotate_provisioned p) x]))"
  unfolding provisioner_launch_def world_calls
  by (rule emits_bind_answer, simp only: assms(5) sum.case Let_def assms(6) option.case,
      rule emits_bind [OF loop_succeeds [OF assms(1,4,7,3)]], clarsimp, rule emits_bind [OF update_answered [OF assms(2)]])
     (auto intro!: emits_rules)

section \<open>What sizing a batch reads of a pod\<close>

text \<open>Pods that differ in their annotations only are alike to the provisioner's sizing.\<close>

definition marked_some :: "(pod \<Rightarrow> bool) \<Rightarrow> pod \<Rightarrow> pod" where
  "marked_some marked q = (if marked q then annotate_provisioned q else q)"

lemma marked_some_fields [simp]:
  "pod_Containers (marked_some f q) = pod_Containers q"
  "pod_Tolerations (marked_some f q) = pod_Tolerations q"
  "pod_Affinity (marked_some f q) = pod_Affinity q"
  "pod_Conditions (marked_some f q) = pod_Conditions q"
  by (simp_all add: marked_some_def annotate_provisioned_def)

lemma marked_some_requests [simp]:
  "podResourceRequests (marked_some f q) = podResourceRequests q"
  "podGPURequests (marked_some f q) = podGPURequests q"
  "required_selector (marked_some f q) = required_selector q"
  "IsPodUnschedulable (marked_some f q) = IsPodUnschedulable q"
  "podMatchesPool (marked_some f q) pl = podMatchesPool q pl"
  by (simp_all add: podResourceRequests_def podGPURequests_def required_selector_def IsPodUnschedulable_def
      podMatchesPool_satisfies_rules satisfies_rules_def)

lemma marked_some_batch [simp]:
  "maxRequests_loop (map (marked_some f) ps) c m = maxRequests_loop ps c m"
  "maxPodRequirements_loop (map (marked_some f) ps) c m g = maxPodRequirements_loop ps c m g"
  "requiredArchitecture (map (marked_some f) ps) = requiredArchitecture ps"
  by (induction ps arbitrary: c m g) (auto split: option.split prod.split)

lemma marked_some_size [simp]:
  "SelectInstanceTypes srt pl (map (marked_some f) ps) = SelectInstanceTypes srt pl ps"
  "estimatePodsPerNode (map (marked_some f) ps) cap = estimatePodsPerNode ps cap"
  by (simp_all add: SelectInstanceTypes_def maxPodRequirements_def estimatePodsPerNode_def Let_def split: option.split)

lemma matching_pods_eq:
  assumes "slice_sort (pdqsort_pools W)"
  shows "matching_pods W pl pods = filter (\<lambda>q. IsPodUnschedulable q \<and> podMatchesPool q pl) pods"
  using pool_sort.MatchPodToPool_None [OF pool_sort_sort_slice [OF assms], where pls = "[pl]"]
  by (auto simp: matching_pods_def sort_pools_def intro!: filter_cong)

text \<open>The nodes a batch needs, were there no limit.\<close>

definition needed :: "world \<Rightarrow> pool \<Rightarrow> pod list \<Rightarrow> int" where
  "needed W pl pods =
     (let ms = filter (\<lambda>q. IsPodUnschedulable q \<and> podMatchesPool q pl) pods;
          (cap, ok) = GetInstanceCapacity (itc_Name (SelectInstanceTypes (sort_types W) pl ms ! 0))
      in ceil_div (int (length ms)) (estimatePodsPerNode ms (if \<not> ok then defaultCapacity else cap)))"

lemma podMatchesPool_spec: "pool_Spec pl' = pool_Spec pl \<Longrightarrow> podMatchesPool q pl' = podMatchesPool q pl"
  by (simp add: podMatchesPool_def)

lemma needed_marked:
  assumes "pool_Spec pl' = pool_Spec pl"
  shows "needed W pl' (map (marked_some f) pods) = needed W pl pods"
proof -
  have "filter (\<lambda>q. IsPodUnschedulable q \<and> podMatchesPool q pl') (map (marked_some f) pods) =
      map (marked_some f) (filter (\<lambda>q. IsPodUnschedulable q \<and> podMatchesPool q pl) pods)"
    using assms by (simp add: filter_map o_def podMatchesPool_spec [OF assms])
  moreover have "SelectInstanceTypes srt pl' ps = SelectInstanceTypes srt pl ps" for srt ps
    using assms by (simp add: SelectInstanceTypes_def)
  ultimately show ?thesis by (simp add: needed_def Let_def)
qed

lemma calls_of_call:
  assumes "emits (f (answer h)) R"
  shows "calls_of (State_Monad.bind (call answer ev) f) h =
    ev (answer h) # calls_of (f (answer h)) (h @ [ev (answer h)])"
proof -
  from assms obtain es where "snd (run_state (f (answer h)) (h @ [ev (answer h)])) = (h @ [ev (answer h)]) @ es"
    unfolding emits_def by blast
  then show ?thesis by (simp add: calls_of_def)
qed

lemma size_delivers:
  fixes W pl pods
  defines "ms \<equiv> filter (\<lambda>q. IsPodUnschedulable q \<and> podMatchesPool q pl) pods"
  assumes deliver: "\<And>cs k. cs \<noteq> [] \<Longrightarrow>
      emits (provisioner_launch W (ec2_provider W) p pl cs k) (\<lambda>r es. count_launched es = nat k)"
    and "slice_sort (pdqsort_pools W)" and "w_ListPods W h = Inr pods" and "ms \<noteq> []"
    and "SelectInstanceTypes (sort_types W) pl ms \<noteq> []"
    and "0 \<le> currentNodes pl" and "pool_max pl < 2 ^ 31" and "length pods < 2 ^ 31"
  shows "count_launched (calls_of (provisioner_size W (ec2_provider W) p pl) h) =
    nat (min (needed W pl pods) (pool_max pl - currentNodes pl))"
proof (cases "currentNodes pl < pool_max pl")
  case False
  then show ?thesis by (simp add: provisioner_size_def calls_of_def pool_max_def)
next
  case True
  let ?cs = "SelectInstanceTypes (sort_types W) pl ms"
  obtain cap ok where cap: "GetInstanceCapacity (itc_Name (?cs ! 0)) = (cap, ok)" by (cases "GetInstanceCapacity (itc_Name (?cs ! 0))")
  let ?cap = "if \<not> ok then defaultCapacity else cap"
  let ?k = "CalculateNodesNeeded ms ?cap (currentNodes pl) (MaxNodes (Scaling (pool_Spec pl)))"
  have "length ms < 2 ^ 31" unfolding ms_def using assms(9) by (metis length_filter_le order_le_less_trans)
  then have k: "?k = min (needed W pl pods) (pool_max pl - currentNodes pl)"
    unfolding needed_def Let_def ms_def [symmetric] cap prod.case pool_max_def [symmetric]
    by (intro CalculateNodesNeeded_eq assms(5,7,8) True)
  let ?rest = "if ?k \<le> 0 then State_Monad.return (requeue_after (30 * second))
    else provisioner_launch W (ec2_provider W) p pl ?cs ?k"
  have "emits ?rest (\<lambda>r es. count_launched es = nat ?k)"
    using assms(6) by (auto intro!: emits_return deliver)
  note rest = this emitsD [OF this, of "h @ [EvListPods (Inr pods)]"]
  from True have room: "\<not> currentNodes pl \<ge> MaxNodes (Scaling (pool_Spec pl))" by (simp add: pool_max_def)
  have "count_launched (calls_of (provisioner_size W (ec2_provider W) p pl) h) = nat ?k"
    unfolding provisioner_size_def list_pods_def if_not_P [OF room]
    by (subst calls_of_call [where R = "\<lambda>r es. count_launched es = nat ?k"])
       (use rest assms(6) in \<open>simp_all add: assms(4) matching_pods_eq [OF assms(3)] ms_def [symmetric] cap Let_def\<close>)
  then show ?thesis unfolding k .
qed

lemma currentNodes_add_all:
  assumes "0 \<le> ActiveNodes (pool_Status pl)" "0 \<le> PendingNodes (pool_Status pl)"
    and "ActiveNodes (pool_Status pl) + PendingNodes (pool_Status pl) + int (length ns) < 2 ^ 31"
  shows "currentNodes (add_all ns pl) = currentNodes pl + int (length ns)"
proof -
  have "PendingNodes (pool_Status (add_all ns q)) = PendingNodes (pool_Status q) + int (length ns)"
    if "0 \<le> PendingNodes (pool_Status q)" "PendingNodes (pool_Status q) + int (length ns) < 2 ^ 31" for q
    using that
  proof (induction ns arbitrary: q)
    case (Cons n ns)
    have "int32 (PendingNodes (pool_Status q) + 1) = PendingNodes (pool_Status q) + 1"
      using Cons.prems by (intro int32_small) auto
    with Cons.IH [of "add_pending n q"] Cons.prems show ?case by simp
  qed simp
  from this [of pl] assms show ?thesis by (simp add: currentNodes_def int32_small)
qed

section \<open>Properties\<close>

text \<open>
  C5. What one reconcile of a pod does to the cloud and to the pools, whatever EC2 and the API server
  answer: it terminates nothing, and either it launches nothing and writes no pool, or it writes
  exactly one pool, a version it read in this run with the launched instances appended in order, each
  as a pending node under the ID EC2 answered, at most as many as \<open>MaxNodes\<close> minus the nodes of that version.
\<close>

theorem provisioner_accounts_for_launches:
  fixes W d req h
  defines "es \<equiv> calls_of (ProvisionerReconciler_Reconcile W (ec2_provider W) d req) h"
  shows "terminated es = [] \<and>
    (launched es = [] \<and> pools_written es = [] \<or>
     (\<exists>pl \<in> set (pools_read es). \<exists>ns. pools_written es = [add_all ns pl] \<and>
        map ns_InstanceID ns = launched es \<and> list_all (in_state Pending) ns \<and>
        int (length ns) \<le> max 0 (MaxNodes (Scaling (pool_Spec pl)) - currentNodes pl)))"
  using emitsD [OF ec2.provisioner_spec [of W W d req], of h, folded es_def]
  unfolding well_accounted_def accounted_def room_def pool_max_def by fastforce

text \<open>
  The status writes of the provisioner refine the lifecycle of a pool: each is a chain of launch
  steps on the version it was computed from.
\<close>

theorem provisioner_refines_lifecycle:
  "disciplined {#} [] (calls_of (ProvisionerReconciler_Reconcile W (ec2_provider W) d req) h)"
  using emitsD [OF ec2.provisioner_spec [of W W d req], of h] by blast

text \<open>
  C8. The provisioner changes something only for a pod it found unschedulable and not yet marked,
  that is burst-enabled or has been unschedulable for the debounce period, and only when a pool
  matches it and the re-fetched pool has room.
\<close>

theorem provisioner_acts_only_when_due:
  assumes "list_ex is_effect (calls_of (ProvisionerReconciler_Reconcile W (ec2_provider W) d req) h)"
  shows "\<exists>p es. calls_of (ProvisionerReconciler_Reconcile W (ec2_provider W) d req) h = EvGetPod req (Inr p) # es \<and>
    IsPodUnschedulable p \<and> \<not> provisioned p \<and>
    (IsBurstEnabled p \<or> podUnschedulableSince p \<noteq> zero_time \<and>
       (\<exists>t. EvNow t \<in> set es \<and> debouncePeriod d \<le> time_sub t (podUnschedulableSince p))) \<and>
    (\<exists>items q pl. EvListPools (Inr items) \<in> set es \<and> MatchPodToPool (sort_pools W) p items = Some q \<and>
       EvGetPool (pool_Namespace q, pool_Name q) (Inr pl) \<in> set es \<and>
       currentNodes pl < MaxNodes (Scaling (pool_Spec pl)))"
  using emitsD [OF ec2.reconcile_acts [of W W d req], of h] assms
  unfolding acts_def pod_ready_to_burst_def matched_with_room_def by blast

lemma provisioner_acts_only_when_due_witness:
  "IsPodUnschedulable sample_pod \<and> \<not> provisioned sample_pod"
proof -
  let ?m = "ProvisionerReconciler_Reconcile sample_world (ec2_provider sample_world) 0 (''default'', ''web'')"
  have "list_ex is_effect (calls_of ?m [])" by code_simp
  from provisioner_acts_only_when_due [OF this] obtain p es where
    p: "calls_of ?m [] = EvGetPod (''default'', ''web'') (Inr p) # es" "IsPodUnschedulable p" "\<not> provisioned p"
    by blast
  have "hd (calls_of ?m []) = EvGetPod (''default'', ''web'') (Inr sample_pod)" by code_simp
  with p show ?thesis by simp
qed

text \<open>
  A pod is marked as provisioned at most once in a run, by the last call, and only directly after
  the API server accepted a status update; so a run that fails before never marks the pod.
\<close>

theorem provisioner_marks_last:
  fixes W d req h
  defines "es \<equiv> calls_of (ProvisionerReconciler_Reconcile W (ec2_provider W) d req) h"
  shows "pods_written es = [] \<or>
    (\<exists>p as pl rv r. es = EvGetPod req (Inr p) # as @ [EvUpdateStatus pl (Inr rv), EvUpdatePod (annotate_provisioned p) r] \<and>
       pods_written as = [])"
  using emitsD [OF ec2.reconcile_marks [of W W d req], of h, folded es_def]
  unfolding marked_last_def by auto

text \<open>
  C23. The fallback over instance types: the candidates are launched in their order, a later one only
  after a capacity error of all before; the first success decides the instance and type reported,
  and a failure means that the last answer was another failure or every candidate was out of
  capacity.
\<close>

theorem launchWithFallback_order:
  assumes "AWS (pool_Spec pl) = Some aws"
  shows "attempted aws nm ud cs (outcome_of (launchWithFallback (ec2_provider W) pl cs nm ud) h)
    (calls_of (launchWithFallback (ec2_provider W) pl cs nm ud) h)"
  by (rule emitsD [OF launchWithFallback_attempted [OF assms]])

lemma launchWithFallback_order_witness:
  "attempted sample_aws ''n'' '''' [sample_type ''m6i.large'']
     (outcome_of (launchWithFallback (ec2_provider sample_world) sample_pool [sample_type ''m6i.large''] ''n'' '''') [])
     (calls_of (launchWithFallback (ec2_provider sample_world) sample_pool [sample_type ''m6i.large''] ''n'' '''') [])"
  by (rule launchWithFallback_order) (simp add: sample_pool_def)

text \<open>
  The names of two nodes of a pool are equal only when the random bytes behind them are: the hex
  suffix loses nothing.
\<close>

theorem burst_node_name_injective:
  "burst_node_name pl (hex_EncodeToString as) = burst_node_name pl (hex_EncodeToString bs) \<longleftrightarrow> as = bs"
  by (simp add: burst_node_name_def hex_inj)



text \<open>
  When the status update after a launch is refused, the instance runs but no status knows it and
  the pod is not marked, so the next run for the same pod launches another one: two instances for
  one pod, none of them recorded.
\<close>

theorem provisioner_relaunches_after_refused_status:
  "\<exists>W. let m = ProvisionerReconciler_Reconcile W (ec2_provider W) 0 (''default'', ''web'');
           h = calls_of m [];
           h' = calls_of m h
        in count_launched h = 1 \<and> count_launched h' = 1 \<and> pods_written (h @ h') = [] \<and>
           bases (filter (\<lambda>e. write_of e \<noteq> []) (h @ h')) = []"
proof -
  let ?W = "sample_world\<lparr>w_UpdateStatus := \<lambda>h p. Inl (KubeError False ''conflict'')\<rparr>"
  show ?thesis by (rule exI [of _ ?W]) code_simp
qed

text \<open>
  C20. When the world cooperates, the batch is delivered: if the secret holds a configuration that can be
  patched, every launch succeeds and status updates are accepted, then exactly the requested number of
  instances is launched, the run ends without error or requeue, and its last call marks the pod.
\<close>

theorem provisioner_delivers:
  fixes W p pl cs k h
  defines "m \<equiv> provisioner_launch W (ec2_provider W) p pl cs k"
  assumes "launches_succeed W" and "status_accepted W"
    and "AWS (pool_Spec pl) \<noteq> None" and "cs \<noteq> []"
    and "\<And>h key. w_GetSecret W h key = Inr data"
    and "gm_lookup data (if MachineConfigKey (Talos (pool_Spec pl)) = '''' then ''worker.yaml''
        else MachineConfigKey (Talos (pool_Spec pl))) = Some cd"
    and "\<And>nm. \<exists>ud. PatchAndEncode (yaml_Unmarshal W) (yaml_Marshal W) cd nm = Inr ud"
  shows "outcome_of m h = no_requeue \<and> count_launched (calls_of m h) = nat k \<and>
    (\<exists>es r. calls_of m h = es @ [EvUpdatePod (annotate_provisioned p) r])"
proof -
  have "emits m (\<lambda>r es. r = no_requeue \<and> count_launched es = nat k \<and>
      (\<exists>fs x. es = fs @ [EvUpdatePod (annotate_provisioned p) x]))"
    unfolding m_def by (rule launch_delivers [OF assms(2-8)])
  from emitsD [OF this, of h] show ?thesis by blast
qed

lemma provisioner_delivers_witness:
  "count_launched (calls_of (provisioner_launch sample_world (ec2_provider sample_world) sample_pod sample_pool
     [sample_type ''m6i.large''] 2) []) = 2"
proof -
  have "outcome_of (provisioner_launch sample_world (ec2_provider sample_world) sample_pod sample_pool
      [sample_type ''m6i.large''] 2) [] = no_requeue \<and>
    count_launched (calls_of (provisioner_launch sample_world (ec2_provider sample_world) sample_pod sample_pool
      [sample_type ''m6i.large''] 2) []) = nat 2 \<and>
    (\<exists>es r. calls_of (provisioner_launch sample_world (ec2_provider sample_world) sample_pod sample_pool
      [sample_type ''m6i.large''] 2) [] = es @ [EvUpdatePod (annotate_provisioned sample_pod) r])"
  proof (rule provisioner_delivers)
    show "launches_succeed sample_world" "status_accepted sample_world" "AWS (pool_Spec sample_pool) \<noteq> None"
      "w_GetSecret sample_world h key = Inr (Some [(''worker.yaml'', [])])" for h key
      by (simp_all add: launches_succeed_def status_accepted_def sample_world_def sample_pool_def)
    show "\<exists>ud. PatchAndEncode (yaml_Unmarshal sample_world) (yaml_Marshal sample_world) [] nm = Inr ud" for nm
      by (simp add: sample_world_def PatchAndEncode_def PatchHostname_def sample_unmarshal_def sample_marshal_def
          as_map_def gm_lookup_def gm_put_def)
  qed (simp_all add: sample_pool_def gm_lookup_def)
  then show ?thesis by simp
qed

text \<open>
  C37. Batches overlap. Let every call succeed, and let the run for one pod have sized and recorded its
  batch. A later run for another pod, on the pool as it is stored then, sizes its batch by all
  unschedulable pods that match, those included that are marked by now, and not by the capacity
  that is already pending: where the first launched as many nodes as the pods need, the second
  launches the same number again, up to what \<open>MaxNodes\<close> leaves.
\<close>

theorem provisioner_overlapping_batches:
  fixes W pl pods ns rv marked
  defines "ms \<equiv> filter (\<lambda>q. IsPodUnschedulable q \<and> podMatchesPool q pl) pods"
    and "need \<equiv> needed W pl pods" and "free \<equiv> MaxNodes (Scaling (pool_Spec pl)) - currentNodes pl"
    and "pl' \<equiv> (add_all ns pl)\<lparr>pool_ResourceVersion := rv\<rparr>"
  assumes "launches_succeed W" and "status_accepted W"
    and "AWS (pool_Spec pl) \<noteq> None" and "\<And>h key. w_GetSecret W h key = Inr data"
    and "gm_lookup data (if MachineConfigKey (Talos (pool_Spec pl)) = '''' then ''worker.yaml''
        else MachineConfigKey (Talos (pool_Spec pl))) = Some cd"
    and "\<And>nm. \<exists>ud. PatchAndEncode (yaml_Unmarshal W) (yaml_Marshal W) cd nm = Inr ud"
    and "slice_sort (pdqsort_pools W)" and "ms \<noteq> []" and "SelectInstanceTypes (sort_types W) pl ms \<noteq> []"
    and "pool_ok pl" and "length pods < 2 ^ 31"
    and "w_ListPods W h = Inr pods"
    and "int (length ns) = min need free" and "w_ListPods W h' = Inr (map (marked_some marked) pods)"
  shows "count_launched (calls_of (provisioner_size W (ec2_provider W) p pl) h) = nat (min need free) \<and>
    count_launched (calls_of (provisioner_size W (ec2_provider W) p' pl') h') = nat (min need (free - min need free))"
proof -
  have deliver: "emits (provisioner_launch W (ec2_provider W) q pl'' cs k) (\<lambda>r es. count_launched es = nat k)"
    if "cs \<noteq> []" "pool_Spec pl'' = pool_Spec pl" for q pl'' cs k
    using assms(7,9) that(2)
    by (intro emits_mono [OF launch_delivers [OF assms(5,6) _ that(1) assms(8) _ assms(10)]]) auto
  note c = pool_ok_counters [OF assms(14)]
  have cur: "currentNodes pl = ActiveNodes (pool_Status pl) + PendingNodes (pool_Status pl)"
    unfolding currentNodes_def using c by (intro int32_small) auto
  have free: "0 \<le> currentNodes pl" "pool_max pl < 2 ^ 31" "free = pool_max pl - currentNodes pl"
    using c cur by (simp_all add: free_def pool_max_def)
  have "currentNodes (add_all ns pl) = currentNodes pl + int (length ns)"
    using c cur assms(17) free by (intro currentNodes_add_all) auto
  then have pl': "pool_Spec pl' = pool_Spec pl" "pool_max pl' = pool_max pl"
    "currentNodes pl' = currentNodes pl + int (length ns)"
    by (simp_all add: pl'_def pool_max_def currentNodes_def)
  let ?mark = "map (marked_some marked)"
  have ms': "filter (\<lambda>q. IsPodUnschedulable q \<and> podMatchesPool q pl') (?mark pods) = ?mark ms"
    by (simp add: ms_def filter_map o_def podMatchesPool_spec [OF pl'(1)])
  have types: "SelectInstanceTypes srt pl' ps = SelectInstanceTypes srt pl ps" for srt ps
    using pl'(1) by (simp add: SelectInstanceTypes_def)
  have "count_launched (calls_of (provisioner_size W (ec2_provider W) p pl) h) = nat (min need free)"
    unfolding need_def free(3)
    by (rule size_delivers [OF deliver assms(11,16)]) (use assms(12,13,15) free in \<open>simp_all add: ms_def\<close>)
  moreover have "count_launched (calls_of (provisioner_size W (ec2_provider W) p' pl') h') =
      nat (min (needed W pl' (?mark pods)) (pool_max pl' - currentNodes pl'))"
    by (rule size_delivers [OF deliver assms(11,18)])
       (use assms(12,13,15) free pl' in \<open>simp_all add: ms' types\<close>)
  ultimately show ?thesis
    using assms(17) free(3) by (simp add: needed_marked [OF pl'(1)] need_def pl' diff_diff_eq)
qed

text \<open>One pod, marked after the first run, and two nodes for it.\<close>

definition marking_world :: world where
  "marking_world = sample_world
     \<lparr>w_ListPods := \<lambda>h. Inr (map (marked_some (\<lambda>q. h \<noteq> [])) [sample_pod])\<rparr>"

lemma provisioner_overlapping_batches_witness:
  "count_launched (calls_of (provisioner_size marking_world (ec2_provider marking_world) sample_pod sample_pool) []) = 1 \<and>
   count_launched (calls_of (provisioner_size marking_world (ec2_provider marking_world) sample_pod
     ((add_all [pending_node ''n'' ''i'' ''m6i.large'' 1] sample_pool)\<lparr>pool_ResourceVersion := 2\<rparr>)) [EvNow 1]) = 1"
proof -
  have facts: "needed marking_world sample_pool [sample_pod] = 1" "currentNodes sample_pool = 0"
    "MaxNodes (Scaling (pool_Spec sample_pool)) = 3" "podMatchesPool sample_pod sample_pool"
    "IsPodUnschedulable sample_pod" "pool_ok sample_pool"
    "SelectInstanceTypes (sort_types marking_world) sample_pool [sample_pod] \<noteq> []" by code_simp+
  have patch: "\<exists>ud. PatchAndEncode (yaml_Unmarshal marking_world) (yaml_Marshal marking_world) [] nm = Inr ud" for nm
    by (simp add: marking_world_def sample_world_def PatchAndEncode_def PatchHostname_def sample_unmarshal_def
        sample_marshal_def as_map_def gm_lookup_def gm_put_def)
  have world: "launches_succeed marking_world" "status_accepted marking_world" "AWS (pool_Spec sample_pool) \<noteq> None"
    "w_GetSecret marking_world h key = Inr (Some [(''worker.yaml'', [])])" "slice_sort (pdqsort_pools marking_world)"
    "w_ListPods marking_world [] = Inr [sample_pod]"
    "w_ListPods marking_world [EvNow 1] = Inr (map (marked_some (\<lambda>q. True)) [sample_pod])" for h key
    by (simp_all add: launches_succeed_def status_accepted_def marking_world_def sample_world_def sample_pool_def
        marked_some_def slice_sort_insertion)
  have "count_launched (calls_of (provisioner_size marking_world (ec2_provider marking_world) sample_pod sample_pool) []) = nat (min 1 3) \<and>
   count_launched (calls_of (provisioner_size marking_world (ec2_provider marking_world) sample_pod
     ((add_all [pending_node ''n'' ''i'' ''m6i.large'' 1] sample_pool)\<lparr>pool_ResourceVersion := 2\<rparr>)) [EvNow 1]) = nat (min 1 (3 - min 1 3))"
    using provisioner_overlapping_batches [OF world(1-4) _ patch world(5), where pods = "[sample_pod]" and h = "[]"
        and ns = "[pending_node ''n'' ''i'' ''m6i.large'' 1]" and h' = "[EvNow 1]" and marked = "\<lambda>q. True" and rv = 2
        and p = sample_pod and p' = sample_pod] facts world(6,7)
    by (simp add: sample_pool_def gm_lookup_def)
  then show ?thesis by simp
qed

end
