(* ===== verification/Node_Ready.thy ===== *)
theory Node_Ready
  imports EC2_Provider Lifecycle
begin

text \<open>
  \<open>NodeReadyReconciler\<close> of \<open>internal/controller/provisioner_reconciler.go\<close>: a pending burst node
  becomes running when its Kubernetes node is ready, or is terminated after the boot timeout.
\<close>

section \<open>The model\<close>

definition isNodeReady :: "node \<Rightarrow> bool" where
  "isNodeReady n = list_ex (\<lambda>c. nc_Type c = ''Ready'' \<and> nc_Status c = ''True'') (node_Conditions n)"

definition has_prefix :: "string \<Rightarrow> string \<Rightarrow> bool" where
  "has_prefix s pre = (take (length pre) s = pre)"

definition managed_node :: "node \<Rightarrow> bool" where
  "managed_node n = (gm_get (node_Labels n) managedLabel = labelValueTrue)"

text \<open>\<open>nodeStatus\<close> is a pointer into \<open>pool.Status.Nodes\<close>: its fields change inside the pool.\<close>

definition set_node :: "nat \<Rightarrow> (node_status \<Rightarrow> node_status) \<Rightarrow> pool \<Rightarrow> pool" where
  "set_node j f pl =
     pl\<lparr>pool_Status := (pool_Status pl)
          \<lparr>Nodes := (Nodes (pool_Status pl))[j := f (Nodes (pool_Status pl) ! j)]\<rparr>\<rparr>"

definition mark_ready :: "nat \<Rightarrow> time \<Rightarrow> pool \<Rightarrow> pool" where
  "mark_ready j now pl =
     (let pl = set_node j (\<lambda>n. n\<lparr>ns_State := Running, ns_ReadyAt := Some now\<rparr>) pl
      in pl\<lparr>pool_Status := (pool_Status pl)
             \<lparr>PendingNodes := int32 (PendingNodes (pool_Status pl) - 1),
              ActiveNodes := int32 (ActiveNodes (pool_Status pl) + 1)\<rparr>\<rparr>)"

definition drop_timed_out :: "nat \<Rightarrow> pool \<Rightarrow> pool" where
  "drop_timed_out j pl =
     pl\<lparr>pool_Status := (pool_Status pl)
          \<lparr>Nodes := remove_at j (Nodes (pool_Status pl)),
           PendingNodes := int32 (PendingNodes (pool_Status pl) - 1)\<rparr>\<rparr>"

definition pool_bootTimeout :: "pool \<Rightarrow> duration" where
  "pool_bootTimeout pl =
     (let bootTimeout = BootTimeout (Scaling (pool_Spec pl))
      in if bootTimeout = 0 then 5 * minute else bootTimeout)"

definition status_result :: "go_error option \<times> pool \<Rightarrow> reconcile_result" where
  "status_result r =
     (case fst r of Some err \<Rightarrow> Inl (WrapErr ''updating pool status'' err) | None \<Rightarrow> no_requeue)"

definition node_became_ready :: "world \<Rightarrow> node \<Rightarrow> pool \<Rightarrow> nat \<Rightarrow> reconcile_result io" where
  "node_became_ready W n pl j =
     do {
       now \<leftarrow> time_now W;
       err \<leftarrow> update_node W (n\<lparr>node_Labels := gm_copy (node_Labels n) (NodeLabels (pool_Spec pl))\<rparr>);
       r \<leftarrow> update_status W (mark_ready j now pl);
       State_Monad.return (status_result r)
     }"

definition check_boot_timeout :: "world \<Rightarrow> provider \<Rightarrow> pool \<Rightarrow> nat \<Rightarrow> reconcile_result io" where
  "check_boot_timeout W P pl j =
     do {
       now \<leftarrow> time_now W;
       (if time_sub now (ns_LaunchedAt (Nodes (pool_Status pl) ! j)) > pool_bootTimeout pl
        then do {
          err \<leftarrow> TerminateNode P (ns_InstanceID (Nodes (pool_Status pl) ! j));
          r \<leftarrow> update_status W (drop_timed_out j pl);
          State_Monad.return (status_result r)
        }
        else State_Monad.return (requeue_after (15 * second)))
     }"

fun scan_nodes :: "world \<Rightarrow> provider \<Rightarrow> node \<Rightarrow> pool \<Rightarrow> nat list \<Rightarrow> reconcile_result option io" where
  "scan_nodes W P n pl [] = State_Monad.return None"
| "scan_nodes W P n pl (j # js) =
     (let nodeStatus = Nodes (pool_Status pl) ! j
      in if ns_Name nodeStatus \<noteq> node_Name n then scan_nodes W P n pl js
         else if ns_State nodeStatus = Pending \<and> isNodeReady n
         then do { r \<leftarrow> node_became_ready W n pl j; State_Monad.return (Some r) }
         else if ns_State nodeStatus = Pending
         then do { r \<leftarrow> check_boot_timeout W P pl j; State_Monad.return (Some r) }
         else scan_nodes W P n pl js)"

fun scan_pools :: "world \<Rightarrow> provider \<Rightarrow> node \<Rightarrow> pool list \<Rightarrow> reconcile_result io" where
  "scan_pools W P n [] = State_Monad.return no_requeue"
| "scan_pools W P n (pl # pls) =
     do {
       r \<leftarrow> scan_nodes W P n pl [0..<length (Nodes (pool_Status pl))];
       (case r of None \<Rightarrow> scan_pools W P n pls | Some x \<Rightarrow> State_Monad.return x)
     }"

definition NodeReadyReconciler_Reconcile :: "world \<Rightarrow> provider \<Rightarrow> string \<Rightarrow> reconcile_result io" where
  "NodeReadyReconciler_Reconcile W P req =
     do {
       got \<leftarrow> get_node W req;
       (case got of
          Inl err \<Rightarrow> State_Monad.return (if IsNotFound err then no_requeue else Inl err)
        | Inr n \<Rightarrow>
            if \<not> managed_node n \<and> \<not> has_prefix (node_Name n) ''burst-''
            then State_Monad.return no_requeue
            else do {
              poolList \<leftarrow> list_pools W;
              (case poolList of
                 Inl err \<Rightarrow> State_Monad.return (Inl err)
               | Inr items \<Rightarrow> scan_pools W P n items)
            })
     }"

record node_ready_reconciler =
  nr_CloudProvider :: provider

definition node_ready_handler :: "world \<Rightarrow> node_ready_reconciler \<Rightarrow> string \<Rightarrow> reconcile_result io" where
  "node_ready_handler W r = NodeReadyReconciler_Reconcile W (nr_CloudProvider r)"

section \<open>The writes are lifecycle steps\<close>

lemma mark_ready_follows:
  assumes "j < length (Nodes (pool_Status pl))" "ns_State (Nodes (pool_Status pl) ! j) = Pending"
  shows "follows M pl (mark_ready j now pl)"
proof -
  let ?st = "pool_Status pl"
  let ?st' = "(with_node j (\<lambda>n. n\<lparr>ns_State := Running, ns_ReadyAt := Some now\<rparr>) ?st)
      \<lparr>PendingNodes := int32 (PendingNodes ?st - 1), ActiveNodes := int32 (ActiveNodes ?st + 1)\<rparr>"
  have eq: "mark_ready j now pl = pl\<lparr>pool_Status := ?st'\<rparr>"
    by (simp add: mark_ready_def set_node_def with_node_def Let_def)
  have "life (set_mset M) (pool_max pl) ?st ?st'" if "pool_ok pl"
    using life.ready [OF assms, of "set_mset M" "pool_max pl" now] pool_ok_counters [OF that]
      count_pending_pos [OF assms] by (simp add: int32_small counters_ok_def)
  then show ?thesis unfolding eq by (rule followsI) simp_all
qed

lemma drop_timed_out_follows:
  assumes "j < length (Nodes (pool_Status pl))" "ns_State (Nodes (pool_Status pl) ! j) = Pending"
  shows "follows M pl (drop_timed_out j pl)"
proof -
  let ?st = "pool_Status pl"
  let ?st' = "(without_node j ?st)\<lparr>PendingNodes := int32 (PendingNodes ?st - 1)\<rparr>"
  have eq: "drop_timed_out j pl = pl\<lparr>pool_Status := ?st'\<rparr>"
    by (simp add: drop_timed_out_def without_node_def)
  have "life (set_mset M) (pool_max pl) ?st ?st'" if "pool_ok pl"
    using life.timed_out [OF assms, of "set_mset M" "pool_max pl"] pool_ok_counters [OF that]
      count_pending_pos [OF assms] by (simp add: int32_small counters_ok_def)
  then show ?thesis unfolding eq by (rule followsI) simp_all
qed

context cloud_provider
begin

lemma node_became_ready_disciplined:
  assumes "j < length (Nodes (pool_Status pl))" "ns_State (Nodes (pool_Status pl) ! j) = Pending"
  shows "emits (node_became_ready W n pl j) (\<lambda>r es. disciplined {#} [pl] es)"
  unfolding node_became_ready_def world_calls
  by (intro emits_rules) (simp_all add: mark_ready_follows [OF assms])

lemma check_boot_timeout_disciplined:
  assumes "j < length (Nodes (pool_Status pl))" "ns_State (Nodes (pool_Status pl) ! j) = Pending"
  shows "emits (check_boot_timeout W P pl j) (\<lambda>r es. disciplined {#} [pl] es)"
  unfolding check_boot_timeout_def world_calls
  by (intro emits_rules emits_bind [OF terminate_spec])
     (auto simp: disciplined_append cloud_disciplined drop_timed_out_follows [OF assms])

lemma scan_nodes_disciplined:
  "list_all (\<lambda>j. j < length (Nodes (pool_Status pl))) js \<Longrightarrow>
   emits (scan_nodes W P n pl js) (\<lambda>r es. disciplined {#} [pl] es)"
proof (induction js)
  case Nil
  then show ?case by (simp add: emits_return)
next
  case (Cons j js)
  then have j: "j < length (Nodes (pool_Status pl))" by simp
  from Cons show ?case
    by (auto simp: Let_def intro!: emits_return
        emits_bind [OF node_became_ready_disciplined [OF j]]
        emits_bind [OF check_boot_timeout_disciplined [OF j]])
qed

lemma scan_pools_disciplined: "emits (scan_pools W P n pls) (\<lambda>r es. disciplined {#} pls es)"
proof (induction pls)
  case Nil
  then show ?case by (simp add: emits_return)
next
  case (Cons pl pls)
  have nodes: "emits (scan_nodes W P n pl [0..<length (Nodes (pool_Status pl))]) (\<lambda>r es. disciplined {#} [pl] es)"
    by (rule scan_nodes_disciplined) (simp add: list_all_iff)
  have rest: "emits (scan_pools W P n pls) (\<lambda>r fs. disciplined M (pl # pls @ bases es) fs)" for es M
    by (rule emits_mono [OF Cons.IH]) (auto elim: disciplined_later)
  have first: "disciplined {#} (pl # pls) es" if "disciplined {#} [pl] es" for es
    using that by (rule disciplined_later) simp
  show ?case
    unfolding scan_pools.simps
    by (rule emits_bind [OF nodes])
       (auto simp: disciplined_append first intro!: emits_case_option emits_return emits_mono [OF rest])
qed

lemma node_ready_disciplined:
  "emits (NodeReadyReconciler_Reconcile W P req) (\<lambda>r es. disciplined {#} [] es)"
  unfolding NodeReadyReconciler_Reconcile_def world_calls
  by (intro emits_rules emits_mono [OF scan_pools_disciplined]) (auto elim: disciplined_later)

end

section \<open>When the handler acts\<close>

text \<open>What a run does for the pending node \<open>j\<close> of a pool: it becomes running, or is given up.\<close>

definition handled :: "node \<Rightarrow> pool \<Rightarrow> nat \<Rightarrow> event list \<Rightarrow> bool" where
  "handled n pl j es \<longleftrightarrow>
     count_launched es = 0 \<and>
     (if isNodeReady n
      then terminated es = [] \<and> (\<exists>t. EvNow t \<in> set es \<and> pools_written es = [mark_ready j t pl])
      else terminated es = [ns_InstanceID (Nodes (pool_Status pl) ! j)] \<and>
        pools_written es = [drop_timed_out j pl] \<and>
        (\<exists>t. EvNow t \<in> set es \<and>
           pool_bootTimeout pl < time_sub t (ns_LaunchedAt (Nodes (pool_Status pl) ! j))))"

definition pending_entry :: "node \<Rightarrow> pool \<Rightarrow> nat \<Rightarrow> bool" where
  "pending_entry n pl j \<longleftrightarrow> j < length (Nodes (pool_Status pl)) \<and>
     ns_Name (Nodes (pool_Status pl) ! j) = node_Name n \<and> ns_State (Nodes (pool_Status pl) ! j) = Pending"

definition idle_run :: "event list \<Rightarrow> bool" where
  "idle_run es \<longleftrightarrow> \<not> acts es \<and> terminated es = [] \<and> pools_written es = []"

lemma ready_handled:
  "isNodeReady n \<Longrightarrow> emits (node_became_ready W n pl j) (\<lambda>r es. handled n pl j es)"
  unfolding node_became_ready_def world_calls
  by (intro emits_rules) (auto simp: handled_def)

lemma labels_written:
  "emits (node_became_ready W n pl j) (\<lambda>r es. \<forall>m x. EvUpdateNode m x \<in> set es \<longrightarrow>
     m = n\<lparr>node_Labels := gm_copy (node_Labels n) (NodeLabels (pool_Spec pl))\<rparr>)"
  unfolding node_became_ready_def world_calls
  by (intro emits_rules) auto

context cloud_provider
begin

lemma timeout_handled:
  "\<not> isNodeReady n \<Longrightarrow>
   emits (check_boot_timeout W P pl j) (\<lambda>r es. handled n pl j es \<or> idle_run es)"
  unfolding check_boot_timeout_def world_calls
  by (intro emits_rules emits_bind [OF terminate_spec])
     (auto simp: handled_def idle_run_def cloud_writes_nothing)

lemma scan_nodes_handled:
  "set js \<subseteq> {..<length (Nodes (pool_Status pl))} \<Longrightarrow>
   emits (scan_nodes W P n pl js) (\<lambda>r es. r \<noteq> None \<and> (\<exists>j. pending_entry n pl j \<and> handled n pl j es) \<or>
     idle_run es \<and> (r = None \<longrightarrow> es = []))"
proof (induction js)
  case Nil
  then show ?case by (simp add: emits_return idle_run_def)
next
  case (Cons j js)
  show ?case
  proof (cases "pending_entry n pl j")
    case True
    then have "emits (State_Monad.bind (node_became_ready W n pl j) (\<lambda>r. State_Monad.return (Some r)))
        (\<lambda>r es. r \<noteq> None \<and> (\<exists>j. pending_entry n pl j \<and> handled n pl j es) \<or> idle_run es \<and> (r = None \<longrightarrow> es = []))"
      if "isNodeReady n" using that by (intro emits_bind [OF ready_handled] emits_return) auto
    moreover from True
    have "emits (State_Monad.bind (check_boot_timeout W P pl j) (\<lambda>r. State_Monad.return (Some r)))
        (\<lambda>r es. r \<noteq> None \<and> (\<exists>j. pending_entry n pl j \<and> handled n pl j es) \<or> idle_run es \<and> (r = None \<longrightarrow> es = []))"
      if "\<not> isNodeReady n" using that by (intro emits_bind [OF timeout_handled] emits_return) auto
    ultimately show ?thesis using True by (simp add: pending_entry_def)
  next
    case False
    with Cons.prems
    have "scan_nodes W P n pl (j # js) = scan_nodes W P n pl js" by (auto simp: pending_entry_def Let_def)
    with Cons show ?thesis by simp
  qed
qed

lemma scan_pools_handled:
  "emits (scan_pools W P n pls) (\<lambda>r es.
     (\<exists>pl \<in> set pls. \<exists>j. pending_entry n pl j \<and> handled n pl j es) \<or> idle_run es)"
proof (induction pls)
  case Nil
  then show ?case by (simp add: emits_return idle_run_def)
next
  case (Cons pl pls)
  show ?case
    unfolding scan_pools.simps
    by (intro emits_bind [OF scan_nodes_handled])
       (auto intro!: emits_return emits_mono [OF Cons.IH] split: option.split simp: idle_run_def)
qed

lemma node_ready_handled:
  "emits (NodeReadyReconciler_Reconcile W P req) (\<lambda>r es. idle_run es \<or>
     (\<exists>n items fs. es = EvGetNode req (Inr n) # EvListPools (Inr items) # fs \<and>
        (managed_node n \<or> has_prefix (node_Name n) ''burst-'') \<and>
        (\<exists>pl \<in> set items. \<exists>j. pending_entry n pl j \<and> handled n pl j fs)))"
  unfolding NodeReadyReconciler_Reconcile_def world_calls
  by (intro emits_rules emits_mono [OF scan_pools_handled]) (auto simp: idle_run_def)

end

context cloud_provider
begin

lemma node_ready_sourced: "emits (NodeReadyReconciler_Reconcile W P req) (\<lambda>r es. sourced [] es)"
proof (rule emits_mono [OF node_ready_handled])
  fix es
  assume "idle_run es \<or> (\<exists>n items fs. es = EvGetNode req (Inr n) # EvListPools (Inr items) # fs \<and>
      (managed_node n \<or> has_prefix (node_Name n) ''burst-'') \<and>
      (\<exists>pl \<in> set items. \<exists>j. pending_entry n pl j \<and> handled n pl j fs))"
  then show "sourced [] es"
  proof
    assume "idle_run es"
    then show ?thesis by (simp add: idle_run_def sourced_none)
  next
    assume "\<exists>n items fs. es = EvGetNode req (Inr n) # EvListPools (Inr items) # fs \<and>
      (managed_node n \<or> has_prefix (node_Name n) ''burst-'') \<and>
      (\<exists>pl \<in> set items. \<exists>j. pending_entry n pl j \<and> handled n pl j fs)"
    then obtain n items fs pl j where es: "es = EvGetNode req (Inr n) # EvListPools (Inr items) # fs"
      and pl: "pl \<in> set items" "pending_entry n pl j" "handled n pl j fs" by blast
    from pl have "sourced items fs"
      by (intro sourced_from) (auto simp: handled_def pending_entry_def dest: tracked_nth split: if_splits)
    with es show ?thesis by simp
  qed
qed

end

section \<open>What becomes of the node's labels\<close>

definition labelled_by :: "pool \<Rightarrow> node \<Rightarrow> event list \<Rightarrow> bool" where
  "labelled_by pl n es \<longleftrightarrow> (\<forall>m x. EvUpdateNode m x \<in> set es \<longrightarrow>
     m = n\<lparr>node_Labels := gm_copy (node_Labels n) (NodeLabels (pool_Spec pl))\<rparr>)"

lemma cloud_labels_nothing: "list_all is_cloud es \<Longrightarrow> EvUpdateNode m x \<notin> set es"
  by (auto simp: list_all_iff)

lemma map_of_foldl_update_cases:
  "map_of (foldl (\<lambda>d (k, v). AList.update k v d) d0 es) k = Some v \<Longrightarrow>
   map_of d0 k = Some v \<or> (k, v) \<in> set es"
proof (induction es arbitrary: d0)
  case (Cons e es)
  obtain a b where "e = (a, b)" by (cases e)
  with Cons.prems Cons.IH [of "AList.update a b d0"] show ?case
    by (auto simp: update_conv' split: if_splits)
qed simp

lemma managed_after_copy:
  assumes "managed_node (n\<lparr>node_Labels := gm_copy (node_Labels n) (NodeLabels (pool_Spec pl))\<rparr>)"
  shows "managed_node n \<or> (managedLabel, labelValueTrue) \<in> set (gm_entries (NodeLabels (pool_Spec pl)))"
proof -
  from assms have "gm_lookup (gm_copy (node_Labels n) (NodeLabels (pool_Spec pl))) managedLabel = Some labelValueTrue"
    by (auto simp: managed_node_def gm_get_def labelValueTrue_def split: option.splits)
  from map_of_foldl_update_cases [OF this [unfolded gm_lookup_def gm_copy_def gm_entries_simps]]
  show ?thesis by (auto simp: managed_node_def gm_get_def gm_lookup_def)
qed

context cloud_provider
begin

lemma timeout_labels: "emits (check_boot_timeout W P pl j) (\<lambda>r es. labelled_by pl n es)"
  unfolding check_boot_timeout_def world_calls
  by (intro emits_rules emits_bind [OF terminate_spec]) (auto simp: labelled_by_def cloud_labels_nothing)

lemma scan_nodes_labels:
  "emits (scan_nodes W P n pl js) (\<lambda>r es. labelled_by pl n es \<and> (r = None \<longrightarrow> es = []))"
proof (induction js)
  case Nil
  then show ?case by (simp add: emits_return labelled_by_def)
next
  case (Cons j js)
  have "emits (State_Monad.bind (node_became_ready W n pl j) (\<lambda>r. State_Monad.return (Some r)))
      (\<lambda>r es. labelled_by pl n es \<and> (r = None \<longrightarrow> es = []))"
    by (intro emits_bind [OF labels_written] emits_return) (auto simp: labelled_by_def)
  moreover have "emits (State_Monad.bind (check_boot_timeout W P pl j) (\<lambda>r. State_Monad.return (Some r)))
      (\<lambda>r es. labelled_by pl n es \<and> (r = None \<longrightarrow> es = []))"
    by (intro emits_bind [OF timeout_labels] emits_return) auto
  ultimately show ?case using Cons by (simp add: Let_def)
qed

lemma scan_pools_labels:
  "emits (scan_pools W P n pls) (\<lambda>r es. \<forall>m x. EvUpdateNode m x \<in> set es \<longrightarrow>
     (\<exists>pl \<in> set pls. m = n\<lparr>node_Labels := gm_copy (node_Labels n) (NodeLabels (pool_Spec pl))\<rparr>))"
proof (induction pls)
  case Nil
  then show ?case by (simp add: emits_return)
next
  case (Cons pl pls)
  show ?case
    unfolding scan_pools.simps
    by (intro emits_bind [OF scan_nodes_labels])
       (auto intro!: emits_return emits_mono [OF Cons.IH] split: option.split simp: labelled_by_def)
qed

lemma node_ready_labels:
  "emits (NodeReadyReconciler_Reconcile W P req) (\<lambda>r es.
     (\<forall>m x. EvUpdateNode m x \<notin> set es) \<or>
     (\<exists>n items fs. es = EvGetNode req (Inr n) # EvListPools (Inr items) # fs \<and>
        (\<forall>m x. EvUpdateNode m x \<in> set fs \<longrightarrow>
          (\<exists>pl \<in> set items. m = n\<lparr>node_Labels := gm_copy (node_Labels n) (NodeLabels (pool_Spec pl))\<rparr>))))"
  unfolding NodeReadyReconciler_Reconcile_def world_calls
  by (intro emits_rules emits_mono [OF scan_pools_labels]) auto

end

section \<open>What a run does, exactly\<close>

text \<open>The first entry of that name in state pending, over the pools as listed.\<close>

definition is_waiting :: "string \<Rightarrow> pool \<times> nat \<Rightarrow> bool" where
  "is_waiting nm = (\<lambda>(pl, j). ns_Name (Nodes (pool_Status pl) ! j) = nm \<and> ns_State (Nodes (pool_Status pl) ! j) = Pending)"

definition all_entries :: "pool list \<Rightarrow> (pool \<times> nat) list" where
  "all_entries items = concat (map (\<lambda>pl. map (Pair pl) [0..<length (Nodes (pool_Status pl))]) items)"

definition first_waiting :: "string \<Rightarrow> pool list \<Rightarrow> (pool \<times> nat) option" where
  "first_waiting nm items = List.find (is_waiting nm) (all_entries items)"

definition settle :: "world \<Rightarrow> provider \<Rightarrow> node \<Rightarrow> pool \<times> nat \<Rightarrow> reconcile_result io" where
  "settle W P n = (\<lambda>(pl, j). if isNodeReady n then node_became_ready W n pl j else check_boot_timeout W P pl j)"

lemma scan_nodes_find:
  "scan_nodes W P n pl js =
     (case List.find (is_waiting (node_Name n)) (map (Pair pl) js) of
        None \<Rightarrow> State_Monad.return None
      | Some x \<Rightarrow> do { r \<leftarrow> settle W P n x; State_Monad.return (Some r) })"
  by (induction js) (auto simp: is_waiting_def settle_def Let_def)

lemma find_append: "List.find Q (xs @ ys) = (case List.find Q xs of None \<Rightarrow> List.find Q ys | Some x \<Rightarrow> Some x)"
  by (induction xs) auto

lemma scan_pools_find:
  "scan_pools W P n items =
     (case first_waiting (node_Name n) items of None \<Rightarrow> State_Monad.return no_requeue | Some x \<Rightarrow> settle W P n x)"
  by (induction items)
     (auto simp: first_waiting_def all_entries_def scan_nodes_find find_append State_Monad.bind_assoc split: option.split)

section \<open>Properties\<close>

text \<open>
  The status writes of the node-ready handler refine the lifecycle: each is one step, pending to
  running or the removal of a pending node, on the version it was read from.
\<close>

theorem node_ready_refines_lifecycle:
  "disciplined {#} [] (calls_of (NodeReadyReconciler_Reconcile W (ec2_provider W) req) h)"
  by (rule emitsD [OF ec2.node_ready_disciplined])

text \<open>
  C9. The node-ready handler changes something only for a burst node that some listed pool tracks as
  pending under that name. If the node is ready, no instance is terminated and exactly this entry
  becomes running at a time read from the clock; if not, the clock shows that the boot timeout of the
  pool has passed, the instance of this entry is terminated and the entry removed.
\<close>

theorem node_ready_acts_on_pending:
  assumes "list_ex is_effect (calls_of (NodeReadyReconciler_Reconcile W (ec2_provider W) req) h)"
  shows "\<exists>n items es pl j.
    calls_of (NodeReadyReconciler_Reconcile W (ec2_provider W) req) h =
      EvGetNode req (Inr n) # EvListPools (Inr items) # es \<and>
    (managed_node n \<or> has_prefix (node_Name n) ''burst-'') \<and>
    pl \<in> set items \<and> j < length (Nodes (pool_Status pl)) \<and>
    ns_Name (Nodes (pool_Status pl) ! j) = node_Name n \<and> ns_State (Nodes (pool_Status pl) ! j) = Pending \<and>
    count_launched es = 0 \<and>
    (if isNodeReady n
     then terminated es = [] \<and> (\<exists>t. EvNow t \<in> set es \<and> pools_written es = [mark_ready j t pl])
     else terminated es = [ns_InstanceID (Nodes (pool_Status pl) ! j)] \<and>
       pools_written es = [drop_timed_out j pl] \<and>
       (\<exists>t. EvNow t \<in> set es \<and>
          pool_bootTimeout pl < time_sub t (ns_LaunchedAt (Nodes (pool_Status pl) ! j))))"
  using emitsD [OF ec2.node_ready_handled [of W W req], of h] assms
  unfolding idle_run_def acts_def handled_def pending_entry_def by blast

definition waiting_pool :: pool where
  "waiting_pool = sample_pool\<lparr>pool_Status := \<lparr>ActiveNodes = 0, PendingNodes = 1, Nodes = [sample_status Pending], Conditions = []\<rparr>\<rparr>"

lemma node_ready_acts_on_pending_witness:
  "\<exists>n j es. isNodeReady n \<and> terminated es = [] \<and> pools_written es = [mark_ready j 1000000000000 waiting_pool]"
proof -
  let ?W = "sample_world\<lparr>w_ListPools := \<lambda>h. Inr [waiting_pool]\<rparr>"
  let ?m = "NodeReadyReconciler_Reconcile ?W (ec2_provider ?W) ''burst-general-00000000''"
  have "list_ex is_effect (calls_of ?m [])" by code_simp
  from node_ready_acts_on_pending [OF this] obtain n items es pl j t where
    c: "calls_of ?m [] = EvGetNode ''burst-general-00000000'' (Inr n) # EvListPools (Inr items) # es"
    and pl: "pl \<in> set items" and r: "isNodeReady n \<Longrightarrow> terminated es = [] \<and> EvNow t \<in> set es \<and>
      pools_written es = [mark_ready j t pl]" by (auto split: if_splits)
  have "take 2 (calls_of ?m []) = [EvGetNode ''burst-general-00000000'' (Inr sample_node), EvListPools (Inr [waiting_pool])]"
    "list_all (\<lambda>e. case e of EvNow t \<Rightarrow> t = 1000000000000 | _ \<Rightarrow> True) (calls_of ?m [])"
    "isNodeReady sample_node" by code_simp+
  with c pl r show ?thesis by (intro exI [of _ n] exI [of _ j] exI [of _ es]) (auto simp: list_all_iff)
qed

text \<open>
  C21. What a run of the node-ready handler does, call by call, for a burst node that exists: without a
  pending entry of its name in the listed pools it only reads. Otherwise, for the first such entry: a
  ready node gets the labels of the pool and the entry is written as running at the time read; a node
  that is not ready is left alone, to be looked at again after 15 seconds, until the boot timeout has
  passed; then the instance of the entry is terminated and the entry removed, even if that failed.
\<close>

theorem node_ready_exact:
  fixes W req h
  defines "m \<equiv> NodeReadyReconciler_Reconcile W (ec2_provider W) req"
  assumes "\<And>h. w_GetNode W h req = Inr n" and "managed_node n \<or> has_prefix (node_Name n) ''burst-''"
    and "\<And>h. w_ListPools W h = Inr items" and "\<And>h. w_Now W h = now" and "\<And>h x. w_UpdateNode W h x = u"
    and "\<And>h ids. w_TerminateInstances W h ids = t" and "\<And>h x. w_UpdateStatus W h x = a"
  shows "case first_waiting (node_Name n) items of
      None \<Rightarrow> calls_of m h = [EvGetNode req (Inr n), EvListPools (Inr items)] \<and> outcome_of m h = no_requeue
    | Some (pl, j) \<Rightarrow>
        if isNodeReady n then
          calls_of m h = [EvGetNode req (Inr n), EvListPools (Inr items), EvNow now,
            EvUpdateNode (n\<lparr>node_Labels := gm_copy (node_Labels n) (NodeLabels (pool_Spec pl))\<rparr>) u,
            EvUpdateStatus (mark_ready j now pl) a] \<and>
          outcome_of m h = (case a of Inl err \<Rightarrow> Inl (WrapErr ''updating pool status'' err) | Inr rv \<Rightarrow> no_requeue)
        else if time_sub now (ns_LaunchedAt (Nodes (pool_Status pl) ! j)) \<le> pool_bootTimeout pl then
          calls_of m h = [EvGetNode req (Inr n), EvListPools (Inr items), EvNow now] \<and>
          outcome_of m h = requeue_after (15 * second)
        else
          calls_of m h = [EvGetNode req (Inr n), EvListPools (Inr items), EvNow now,
            EvTerminateInstances [ns_InstanceID (Nodes (pool_Status pl) ! j)] t, EvUpdateStatus (drop_timed_out j pl) a] \<and>
          outcome_of m h = (case a of Inl err \<Rightarrow> Inl (WrapErr ''updating pool status'' err) | Inr rv \<Rightarrow> no_requeue)"
  using assms(3)
  by (auto simp: m_def NodeReadyReconciler_Reconcile_def scan_pools_find settle_def node_became_ready_def
      check_boot_timeout_def EC2Provider_TerminateNode_def update_status_def world_calls assms(2,4-8)
      outcome_of_def calls_of_def status_result_def Let_def split: option.split sum.split)

lemma node_ready_exact_witness:
  "outcome_of (NodeReadyReconciler_Reconcile (sample_world\<lparr>w_ListPools := \<lambda>h. Inr [waiting_pool]\<rparr>)
     (ec2_provider (sample_world\<lparr>w_ListPools := \<lambda>h. Inr [waiting_pool]\<rparr>)) ''burst-general-00000000'') [] = no_requeue"
proof -
  have "has_prefix (node_Name sample_node) ''burst-''" "isNodeReady sample_node"
    "first_waiting (node_Name sample_node) [waiting_pool] = Some (waiting_pool, 0)" by code_simp+
  then show ?thesis
    using node_ready_exact [of "sample_world\<lparr>w_ListPools := \<lambda>h. Inr [waiting_pool]\<rparr>" "''burst-general-00000000''"
        sample_node "[waiting_pool]" 1000000000000 None None "Inr 2" "[]"]
    by (simp add: sample_world_def)
qed

text \<open>
  The node-ready handler adds the labels of the pool's specification and no others: a node it
  writes carries the managed label only if it had it before or the pool's \<open>nodeLabels\<close> list it. The
  handler does not apply the label by which the reaper and the orphan check recognise burst nodes.
\<close>

theorem node_ready_never_adds_managed:
  assumes "EvUpdateNode m x \<in> set (calls_of (NodeReadyReconciler_Reconcile W (ec2_provider W) req) h)"
    and "managed_node m"
  shows "\<exists>n items pl.
    EvGetNode req (Inr n) \<in> set (calls_of (NodeReadyReconciler_Reconcile W (ec2_provider W) req) h) \<and>
    EvListPools (Inr items) \<in> set (calls_of (NodeReadyReconciler_Reconcile W (ec2_provider W) req) h) \<and>
    pl \<in> set items \<and> node_Name m = node_Name n \<and>
    (managed_node n \<or> (managedLabel, labelValueTrue) \<in> set (gm_entries (NodeLabels (pool_Spec pl))))"
proof -
  from emitsD [OF ec2.node_ready_labels [of W W req], of h] assms(1) obtain n items pl where
    "EvGetNode req (Inr n) \<in> set (calls_of (NodeReadyReconciler_Reconcile W (ec2_provider W) req) h)"
    "EvListPools (Inr items) \<in> set (calls_of (NodeReadyReconciler_Reconcile W (ec2_provider W) req) h)"
    "pl \<in> set items" and m: "m = n\<lparr>node_Labels := gm_copy (node_Labels n) (NodeLabels (pool_Spec pl))\<rparr>"
    by (fastforce simp del: node.simps)
  moreover from m have "node_Name m = node_Name n" by simp
  moreover note managed_after_copy [OF assms(2) [unfolded m]]
  ultimately show ?thesis by blast
qed

lemma node_ready_never_adds_managed_witness:
  "\<exists>(n::node) (pl::pool). managed_node n \<or> (managedLabel, labelValueTrue) \<in> set (gm_entries (NodeLabels (pool_Spec pl)))"
proof -
  let ?n = "sample_node\<lparr>node_Labels := Some [(managedLabel, labelValueTrue)]\<rparr>"
  let ?W = "sample_world\<lparr>w_ListPools := \<lambda>h. Inr [waiting_pool], w_GetNode := \<lambda>h key. Inr ?n\<rparr>"
  let ?m = "NodeReadyReconciler_Reconcile ?W (ec2_provider ?W) ''burst-general-00000000''"
  have "calls_of ?m [] ! 3 = EvUpdateNode ?n None" "3 < length (calls_of ?m [])" by code_simp+
  then have "EvUpdateNode ?n None \<in> set (calls_of ?m [])" by (metis nth_mem)
  moreover have "managed_node ?n" by code_simp
  ultimately show ?thesis using node_ready_never_adds_managed [of ?n None] by blast
qed

end
