(* ===== verification/Node_Drain.thy ===== *)
theory Node_Drain
  imports World
begin

text \<open>
  \<open>internal/drain/drain.go\<close>: cordon and drain of a node through the typed client. The draining
  itself is kubectl's library, a parameter of the world.
\<close>

type_synonym drainer = duration

definition NewDrainer :: "duration \<Rightarrow> drainer" where "NewDrainer timeout = timeout"

definition CordonNode :: "world \<Rightarrow> string \<Rightarrow> go_error option io" where
  "CordonNode W nodeName =
     do {
       got \<leftarrow> client_get_node W nodeName;
       (case got of
          Inl err \<Rightarrow> State_Monad.return (Some (WrapErr (''getting node '' @ nodeName) err))
        | Inr n \<Rightarrow> client_update_node W (n\<lparr>node_Unschedulable := True\<rparr>))
     }"

definition drain_config :: "drainer \<Rightarrow> drain_helper" where
  "drain_config timeout =
     \<lparr>Force = True, GracePeriodSeconds = - 1, IgnoreAllDaemonSets = True, DeleteEmptyDirData = True,
      drain_Timeout = timeout\<rparr>"

definition DrainNode :: "world \<Rightarrow> drainer \<Rightarrow> string \<Rightarrow> go_error option io" where
  "DrainNode W timeout nodeName =
     do {
       drained \<leftarrow> run_node_drain W (drain_config timeout) nodeName;
       State_Monad.return
         (case drained of None \<Rightarrow> None | Some err \<Rightarrow> Some (WrapErr (''draining node '' @ nodeName) err))
     }"

fun is_drain_call :: "string \<Rightarrow> event \<Rightarrow> bool" where
  "is_drain_call n (EvClientGetNode m r) = (m = n)"
| "is_drain_call n (EvClientUpdateNode x r) = node_Unschedulable x"
| "is_drain_call n (EvRunNodeDrain d m r) = (m = n)"
| "is_drain_call n _ = False"

lemma cordon_calls [only_rules]: "only_calls (is_drain_call n) (CordonNode W n)"
  unfolding CordonNode_def world_calls by (intro only_rules) simp_all

lemma drain_calls [only_rules]: "only_calls (is_drain_call n) (DrainNode W t n)"
  unfolding DrainNode_def world_calls by (intro only_rules) simp_all

text \<open>What a cordon looks like on the trace: the node is read and, if that worked, written as unschedulable.\<close>

definition cordon_course :: "string \<Rightarrow> event list \<Rightarrow> bool" where
  "cordon_course m es \<longleftrightarrow>
     (\<exists>e. es = [EvClientGetNode m (Inl e)]) \<or>
     (\<exists>x r. es = [EvClientGetNode m (Inr x), EvClientUpdateNode (x\<lparr>node_Unschedulable := True\<rparr>) r])"

lemma cordon_courses: "emits (CordonNode W m) (\<lambda>r es. cordon_course m es)"
  unfolding CordonNode_def world_calls cordon_course_def by (intro emits_rules) auto

lemma cordon_course_calls: "cordon_course m es \<Longrightarrow> list_all (is_drain_call m) es"
  by (auto simp: cordon_course_def)

end
