(* ===== verification/Reaper.thy ===== *)
theory Reaper
  imports Node_Ready Node_Drain
begin

text \<open>
  \<open>ReaperReconciler\<close> of \<open>internal/controller/reaper_reconciler.go\<close>: the idle timer of a running
  node and, after the cooldown, its teardown in the order cordon, drain, terminate, delete, forget.
\<close>

section \<open>Helpers\<close>

definition defaultReaperCheckInterval :: duration where "defaultReaperCheckInterval = 60 * second"
definition defaultCooldownPeriod :: duration where "defaultCooldownPeriod = 5 * minute"

definition reaper_checkInterval :: "duration \<Rightarrow> duration" where
  "reaper_checkInterval CheckInterval =
     (if CheckInterval > 0 then CheckInterval else defaultReaperCheckInterval)"

fun find_index :: "string \<Rightarrow> node_status list \<Rightarrow> nat \<Rightarrow> nat option" where
  "find_index nodeName [] j = None"
| "find_index nodeName (n # ns) j = (if ns_Name n = nodeName then Some j else find_index nodeName ns (Suc j))"

fun find_pool :: "string \<Rightarrow> pool list \<Rightarrow> (pool \<times> nat) option" where
  "find_pool nodeName [] = None"
| "find_pool nodeName (pl # pls) =
     (case find_index nodeName (Nodes (pool_Status pl)) 0 of
        Some j \<Rightarrow> Some (pl, j)
      | None \<Rightarrow> find_pool nodeName pls)"

definition findPoolAndNode :: "world \<Rightarrow> string \<Rightarrow> (go_error + (pool \<times> nat) option) io" where
  "findPoolAndNode W nodeName =
     do {
       poolList \<leftarrow> list_pools W;
       State_Monad.return
         (case poolList of
            Inl err \<Rightarrow> Inl (WrapErr ''listing pools'' err)
          | Inr items \<Rightarrow> Inr (find_pool nodeName items))
     }"

definition isDaemonSetPod :: "pod \<Rightarrow> bool" where
  "isDaemonSetPod p = list_ex (\<lambda>kind. kind = ''DaemonSet'') (pod_OwnerKinds p)"

fun idle_loop :: "pod list \<Rightarrow> bool" where
  "idle_loop [] = True"
| "idle_loop (p # ps) =
     (if isDaemonSetPod p then idle_loop ps
      else if pod_Phase p = ''Succeeded'' \<or> pod_Phase p = ''Failed'' then idle_loop ps
      else False)"

definition isNodeIdle :: "world \<Rightarrow> string \<Rightarrow> (go_error + bool) io" where
  "isNodeIdle W nodeName =
     do {
       podList \<leftarrow> list_pods_on_node W nodeName;
       State_Monad.return (case podList of Inl err \<Rightarrow> Inl err | Inr items \<Rightarrow> Inr (idle_loop items))
     }"

text \<open>The field indexer behind the pod list of a node, and the event filter of the controller.\<close>

definition nodeName_index :: "pod \<Rightarrow> string list" where
  "nodeName_index p = (if pod_NodeName p = '''' then [] else [pod_NodeName p])"

definition reaper_event_filter :: "strmap \<Rightarrow> bool" where
  "reaper_event_filter labels =
     (case labels of None \<Rightarrow> False | Some _ \<Rightarrow> gm_get labels managedLabel = labelValueTrue)"

section \<open>Teardown\<close>

definition set_state :: "nat \<Rightarrow> node_state \<Rightarrow> pool \<Rightarrow> pool" where
  "set_state j st pl = set_node j (\<lambda>n. n\<lparr>ns_State := st\<rparr>) pl"

definition forget_node :: "nat \<Rightarrow> pool \<Rightarrow> pool" where
  "forget_node j pl =
     (let active = int32 (ActiveNodes (pool_Status pl) - 1);
          active = (if active < 0 then 0 else active)
      in pl\<lparr>pool_Status := (pool_Status pl)
              \<lparr>Nodes := remove_at j (Nodes (pool_Status pl)), ActiveNodes := active\<rparr>\<rparr>)"

text \<open>Steps 3 to 5.\<close>

definition teardown_terminate :: "world \<Rightarrow> provider \<Rightarrow> node \<Rightarrow> pool \<Rightarrow> nat \<Rightarrow> reconcile_result io" where
  "teardown_terminate W P n pl j =
     do {
       (err, pl) \<leftarrow> update_status W (set_state j Terminating pl);
       (case err of
          Some err \<Rightarrow> State_Monad.return (Inl err)
        | None \<Rightarrow>
            do {
              err \<leftarrow> TerminateNode P (ns_InstanceID (Nodes (pool_Status pl) ! j));
              (case err of
                 Some err \<Rightarrow>
                   State_Monad.return
                     (Inl (WrapErr (''terminating instance '' @ ns_InstanceID (Nodes (pool_Status pl) ! j)) err))
               | None \<Rightarrow>
                   do {
                     err \<leftarrow> delete_node W (node_Name n);
                     (err, pl) \<leftarrow> update_status W (forget_node j pl);
                     (case err of
                        Some err \<Rightarrow>
                          State_Monad.return (Inl (WrapErr ''updating pool status after teardown'' err))
                      | None \<Rightarrow> State_Monad.return no_requeue)
                   })
            })
     }"

text \<open>Step 2.\<close>

definition teardown_drain ::
  "world \<Rightarrow> provider \<Rightarrow> drainer option \<Rightarrow> node \<Rightarrow> pool \<Rightarrow> nat \<Rightarrow> reconcile_result io" where
  "teardown_drain W P Drainer n pl j =
     do {
       (err, pl) \<leftarrow> update_status W (set_state j Draining pl);
       (case err of
          Some err \<Rightarrow> State_Monad.return (Inl err)
        | None \<Rightarrow>
            do {
              (case Drainer of
                 None \<Rightarrow> State_Monad.return None
               | Some d \<Rightarrow> DrainNode W d (node_Name n));
              teardown_terminate W P n pl j
            })
     }"

text \<open>Step 1.\<close>

definition teardown ::
  "world \<Rightarrow> provider \<Rightarrow> drainer option \<Rightarrow> node \<Rightarrow> pool \<Rightarrow> nat \<Rightarrow> reconcile_result io" where
  "teardown W P Drainer n pl j =
     do {
       (err, pl) \<leftarrow> update_status W (set_state j Cordoned pl);
       (case err of
          Some err \<Rightarrow> State_Monad.return (Inl err)
        | None \<Rightarrow>
            do {
              (case Drainer of
                 None \<Rightarrow> State_Monad.return None
               | Some d \<Rightarrow> CordonNode W (node_Name n));
              teardown_drain W P Drainer n pl j
            })
     }"

section \<open>The handler\<close>

definition cooldown_of :: "pool \<Rightarrow> duration" where
  "cooldown_of pl =
     (let cooldown = CooldownPeriod (Scaling (pool_Spec pl))
      in if cooldown = 0 then defaultCooldownPeriod else cooldown)"

definition status_or_interval :: "duration \<Rightarrow> go_error option \<times> pool \<Rightarrow> reconcile_result" where
  "status_or_interval interval r =
     (case fst r of Some err \<Rightarrow> Inl err | None \<Rightarrow> requeue_after interval)"

definition reap_idle ::
  "world \<Rightarrow> provider \<Rightarrow> drainer option \<Rightarrow> duration \<Rightarrow> node \<Rightarrow> pool \<Rightarrow> nat \<Rightarrow> reconcile_result io" where
  "reap_idle W P Drainer interval n pl j =
     do {
       now \<leftarrow> time_now W;
       (case ns_LastPodFinished (Nodes (pool_Status pl) ! j) of
          None \<Rightarrow>
            do {
              r \<leftarrow> update_status W (set_node j (\<lambda>n. n\<lparr>ns_LastPodFinished := Some now\<rparr>) pl);
              State_Monad.return (status_or_interval interval r)
            }
        | Some since \<Rightarrow>
            do {
              now \<leftarrow> time_now W;
              (let cooldown = cooldown_of pl;
                   idleDuration = time_sub now since
               in if idleDuration < cooldown
                  then State_Monad.return (requeue_after (int64 (cooldown - idleDuration)))
                  else teardown W P Drainer n pl j)
            })
     }"

definition reap_running ::
  "world \<Rightarrow> provider \<Rightarrow> drainer option \<Rightarrow> duration \<Rightarrow> node \<Rightarrow> pool \<Rightarrow> nat \<Rightarrow> reconcile_result io" where
  "reap_running W P Drainer interval n pl j =
     do {
       idle \<leftarrow> isNodeIdle W (node_Name n);
       (case idle of
          Inl err \<Rightarrow> State_Monad.return (Inl (WrapErr ''checking if node is idle'' err))
        | Inr idle \<Rightarrow>
            if \<not> idle
            then do {
              r \<leftarrow> update_status W (set_node j (\<lambda>n. n\<lparr>ns_LastPodFinished := None\<rparr>) pl);
              State_Monad.return (status_or_interval interval r)
            }
            else reap_idle W P Drainer interval n pl j)
     }"

definition ReaperReconciler_Reconcile ::
  "world \<Rightarrow> provider \<Rightarrow> drainer option \<Rightarrow> duration \<Rightarrow> string \<Rightarrow> reconcile_result io" where
  "ReaperReconciler_Reconcile W P Drainer CheckInterval req =
     do {
       got \<leftarrow> get_node W req;
       (case got of
          Inl err \<Rightarrow> State_Monad.return (if IsNotFound err then no_requeue else Inl err)
        | Inr n \<Rightarrow>
            if \<not> managed_node n then State_Monad.return no_requeue
            else do {
              found \<leftarrow> findPoolAndNode W (node_Name n);
              (case found of
                 Inl err \<Rightarrow> State_Monad.return (Inl err)
               | Inr None \<Rightarrow> State_Monad.return (requeue_after (reaper_checkInterval CheckInterval))
               | Inr (Some (pl, nodeIdx)) \<Rightarrow>
                   if ns_State (Nodes (pool_Status pl) ! nodeIdx) \<noteq> Running
                   then State_Monad.return (requeue_after (reaper_checkInterval CheckInterval))
                   else reap_running W P Drainer (reaper_checkInterval CheckInterval) n pl nodeIdx)
            })
     }"

text \<open>\<open>Drainer\<close> is a pointer.\<close>

record reaper_reconciler =
  re_CloudProvider :: provider
  re_Drainer :: "drainer option"
  re_CheckInterval :: duration

definition reaper_handler :: "world \<Rightarrow> reaper_reconciler \<Rightarrow> string \<Rightarrow> reconcile_result io" where
  "reaper_handler W r = ReaperReconciler_Reconcile W (re_CloudProvider r) (re_Drainer r) (re_CheckInterval r)"

section \<open>The writes are lifecycle steps\<close>

lemma set_node_simps [simp]:
  "Nodes (pool_Status (set_node j f pl)) = (Nodes (pool_Status pl))[j := f (Nodes (pool_Status pl) ! j)]"
  "pool_Spec (set_node j f pl) = pool_Spec pl"
  "pool_Name (set_node j f pl) = pool_Name pl"
  "pool_Namespace (set_node j f pl) = pool_Namespace pl"
  "ActiveNodes (pool_Status (set_node j f pl)) = ActiveNodes (pool_Status pl)"
  "PendingNodes (pool_Status (set_node j f pl)) = PendingNodes (pool_Status pl)"
  by (simp_all add: set_node_def)

lemma set_node_follows:
  assumes "life (set_mset M) (pool_max pl) (pool_Status pl) (with_node j f (pool_Status pl))"
    and "ns_InstanceID (f (Nodes (pool_Status pl) ! j)) = ns_InstanceID (Nodes (pool_Status pl) ! j)"
  shows "follows M pl (set_node j f pl)"
proof -
  have "set_node j f pl = pl\<lparr>pool_Status := with_node j f (pool_Status pl)\<rparr>"
    by (simp add: set_node_def with_node_def)
  with assms show ?thesis by (simp add: followsI)
qed

lemma set_state_follows:
  assumes "j < length (Nodes (pool_Status pl))"
    and "(ns_State (Nodes (pool_Status pl) ! j), st) \<in> {(Running, Cordoned), (Cordoned, Draining), (Draining, Terminating)}"
  shows "follows M pl (set_state j st pl)"
  unfolding set_state_def
  using assms by (intro set_node_follows) (auto intro: life.intros)

lemma forget_node_follows:
  assumes "j < length (Nodes (pool_Status pl))" "ns_State (Nodes (pool_Status pl) ! j) = Terminating"
  shows "follows M pl (forget_node j pl)"
proof -
  let ?st = "pool_Status pl"
  let ?a = "int32 (ActiveNodes ?st - 1)"
  let ?st' = "(without_node j ?st)\<lparr>ActiveNodes := (if ?a < 0 then 0 else ?a)\<rparr>"
  have eq: "forget_node j pl = pl\<lparr>pool_Status := ?st'\<rparr>"
    by (simp add: forget_node_def without_node_def Let_def)
  have "life (set_mset M) (pool_max pl) ?st ?st'" if "pool_ok pl"
    using life.torn_down [OF assms, of "set_mset M" "pool_max pl"] pool_ok_started [OF that assms(1)] assms(2)
    by simp
  then show ?thesis unfolding eq by (rule followsI) simp_all
qed

text \<open>A node further in its teardown, as the next step finds it.\<close>

lemma set_state_nth [simp]:
  "j < length (Nodes (pool_Status pl)) \<Longrightarrow>
   Nodes (pool_Status (set_state j st pl)) ! j = (Nodes (pool_Status pl) ! j)\<lparr>ns_State := st\<rparr>"
  "length (Nodes (pool_Status (set_state j st pl))) = length (Nodes (pool_Status pl))"
  by (simp_all add: set_state_def)

lemma drain_call_writes_nothing: "list_all (is_drain_call n) es \<Longrightarrow> pools_written es = []"
  by (induction es) (auto elim!: is_drain_call.elims)

lemma find_index_nth:
  "find_index nm ns k = Some j \<Longrightarrow> k \<le> j \<and> j - k < length ns \<and> ns_Name (ns ! (j - k)) = nm"
  by (induction ns arbitrary: k) (fastforce split: if_splits simp: nth_Cons' Suc_diff_le)+

lemma find_pool_nth:
  "find_pool nm pls = Some (pl, j) \<Longrightarrow>
   pl \<in> set pls \<and> j < length (Nodes (pool_Status pl)) \<and> ns_Name (Nodes (pool_Status pl) ! j) = nm"
  by (induction pls) (auto split: option.splits dest: find_index_nth)

context cloud_provider
begin

lemma teardown_terminate_disciplined:
  assumes "j < length (Nodes (pool_Status pl))" "ns_State (Nodes (pool_Status pl) ! j) = Draining"
  shows "emits (teardown_terminate W P n pl j) (\<lambda>r es. disciplined {#} [pl] es)"
  unfolding teardown_terminate_def world_calls
  using assms
  by (intro emits_rules emits_bind [OF terminate_spec])
     (auto simp: disciplined_append cloud_disciplined set_state_follows intro!: forget_node_follows)

lemma teardown_drain_disciplined:
  assumes "j < length (Nodes (pool_Status pl))" "ns_State (Nodes (pool_Status pl) ! j) = Cordoned"
  shows "emits (teardown_drain W P D n pl j) (\<lambda>r es. disciplined {#} [pl] es)"
proof -
  have drained: "emits (case D of None \<Rightarrow> State_Monad.return None | Some d \<Rightarrow> DrainNode W d (node_Name n))
      (\<lambda>r es. list_all (is_drain_call (node_Name n)) es)"
    using only_case_option [of "is_drain_call (node_Name n)" "State_Monad.return None"
        "\<lambda>d. DrainNode W d (node_Name n)" D, OF only_return drain_calls]
    by (simp add: only_calls_def)
  show ?thesis
    unfolding teardown_drain_def
    using assms
    by (intro emits_rules emits_bind [OF drained])
       (auto simp: disciplined_append disciplined_no_write drain_call_writes_nothing set_state_follows
          intro!: emits_mono [OF teardown_terminate_disciplined] elim: disciplined_later)
qed

lemma teardown_disciplined:
  assumes "j < length (Nodes (pool_Status pl))" "ns_State (Nodes (pool_Status pl) ! j) = Running"
  shows "emits (teardown W P D n pl j) (\<lambda>r es. disciplined {#} [pl] es)"
proof -
  have cordoned: "emits (case D of None \<Rightarrow> State_Monad.return None | Some d \<Rightarrow> CordonNode W (node_Name n))
      (\<lambda>r es. list_all (is_drain_call (node_Name n)) es)"
    using only_case_option [of "is_drain_call (node_Name n)" "State_Monad.return None"
        "\<lambda>d. CordonNode W (node_Name n)" D, OF only_return cordon_calls]
    by (simp add: only_calls_def)
  show ?thesis
    unfolding teardown_def
    using assms
    by (intro emits_rules emits_bind [OF cordoned])
       (auto simp: disciplined_append disciplined_no_write drain_call_writes_nothing set_state_follows
          intro!: emits_mono [OF teardown_drain_disciplined] elim: disciplined_later)
qed

lemma reap_running_disciplined:
  assumes "j < length (Nodes (pool_Status pl))" "ns_State (Nodes (pool_Status pl) ! j) = Running"
  shows "emits (reap_running W P D i n pl j) (\<lambda>r es. disciplined {#} [pl] es)"
  unfolding reap_running_def isNodeIdle_def reap_idle_def world_calls
    State_Monad.bind_assoc State_Monad.bind_left_identity
  using assms
  by (intro emits_rules)
     (auto simp: Let_def intro!: emits_return set_node_follows life.busy life.idle
        emits_mono [OF teardown_disciplined] elim: disciplined_later)

lemma reaper_disciplined:
  "emits (ReaperReconciler_Reconcile W P D i req) (\<lambda>r es. disciplined {#} [] es)"
proof -
  have found: "emits (reap_running W P D k n pl j) (\<lambda>r es. disciplined M pls es)"
    if "find_pool nm pls = Some (pl, j)" "ns_State (Nodes (pool_Status pl) ! j) = Running" for k n nm pl j pls M
    using find_pool_nth [OF that(1)] that(2)
    by (intro emits_mono [OF reap_running_disciplined]) (auto elim: disciplined_later)
  show ?thesis
    unfolding ReaperReconciler_Reconcile_def findPoolAndNode_def world_calls
      State_Monad.bind_assoc State_Monad.bind_left_identity
    by (intro emits_rules) (auto intro: found split: sum.splits)
qed

end

section \<open>The course of a teardown\<close>

definition untouched :: "event list \<Rightarrow> bool" where
  "untouched es \<longleftrightarrow> terminated es = [] \<and> deleted es = []"

lemma untouched_simps [simp]:
  "untouched []"
  "terminated_of e = [] \<Longrightarrow> deleted_of e = [] \<Longrightarrow> untouched (e # es) = untouched es"
  "untouched (es @ fs) \<longleftrightarrow> untouched es \<and> untouched fs"
  by (auto simp: untouched_def)

lemma drain_calls_untouched: "list_all (is_drain_call n) es \<Longrightarrow> untouched es"
proof (induction es)
  case (Cons e es)
  then show ?case by (cases e) auto
qed simp

definition at_version :: "nat \<Rightarrow> pool \<Rightarrow> pool" where
  "at_version rv pl = pl\<lparr>pool_ResourceVersion := rv\<rparr>"

text \<open>
  Steps 3 to 5 after step 2 left the pool as \<open>pl\<close>: the node is terminating, its instance is
  terminated, and then, exactly if the cloud did not refuse, the node is deleted and forgotten.
\<close>

definition terminate_course :: "node \<Rightarrow> pool \<Rightarrow> nat \<Rightarrow> event list \<Rightarrow> bool" where
  "terminate_course n pl j es \<longleftrightarrow>
     (\<exists>rv ts rest. es = EvUpdateStatus (set_state j Terminating pl) (Inr rv) # ts @ rest \<and>
        list_all is_cloud ts \<and> terminated ts = [ns_InstanceID (Nodes (pool_Status pl) ! j)] \<and>
        (refused ts \<and> rest = [] \<or> \<not> refused ts \<and>
         (\<exists>d u. rest = [EvDeleteNode (node_Name n) d,
                        EvUpdateStatus (forget_node j (at_version rv (set_state j Terminating pl))) u])))"

definition drain_course :: "drainer option \<Rightarrow> node \<Rightarrow> pool \<Rightarrow> nat \<Rightarrow> event list \<Rightarrow> bool" where
  "drain_course D n pl j es \<longleftrightarrow>
     (\<exists>rv ds rest. es = EvUpdateStatus (set_state j Draining pl) (Inr rv) # ds @ rest \<and>
        (case D of None \<Rightarrow> ds = [] | Some d \<Rightarrow> \<exists>r. ds = [EvRunNodeDrain (drain_config d) (node_Name n) r]) \<and>
        terminate_course n (at_version rv (set_state j Draining pl)) j rest)"

definition teardown_course :: "drainer option \<Rightarrow> node \<Rightarrow> pool \<Rightarrow> nat \<Rightarrow> event list \<Rightarrow> bool" where
  "teardown_course D n pl j es \<longleftrightarrow>
     (\<exists>rv cs rest. es = EvUpdateStatus (set_state j Cordoned pl) (Inr rv) # cs @ rest \<and>
        (case D of None \<Rightarrow> cs = [] | Some d \<Rightarrow> cordon_course (node_Name n) cs) \<and>
        drain_course D n (at_version rv (set_state j Cordoned pl)) j rest)"

lemma terminate_course_intros:
  assumes "list_all is_cloud ts" "terminated ts = [ns_InstanceID (Nodes (pool_Status pl) ! j)]"
  shows "refused ts \<Longrightarrow> terminate_course n pl j (EvUpdateStatus (set_state j Terminating pl) (Inr rv) # ts)"
    and "\<not> refused ts \<Longrightarrow> terminate_course n pl j (EvUpdateStatus (set_state j Terminating pl) (Inr rv) # ts @
      [EvDeleteNode (node_Name n) d, EvUpdateStatus (forget_node j (at_version rv (set_state j Terminating pl))) u])"
  unfolding terminate_course_def
  by (rule exI [of _ rv], rule exI [of _ ts], rule exI [of _ "[]"], simp add: assms)
     (rule exI [of _ rv], rule exI [of _ ts], rule exI, intro conjI, rule refl, simp_all add: assms)

lemma drain_node_calls:
  "emits (case D of None \<Rightarrow> State_Monad.return None | Some d \<Rightarrow> DrainNode W d m)
     (\<lambda>r es. case D of None \<Rightarrow> es = [] | Some d \<Rightarrow> \<exists>r. es = [EvRunNodeDrain (drain_config d) m r])"
  unfolding DrainNode_def world_calls
  by (intro emits_rules) auto

lemma drain_node_untouched:
  "(case D of None \<Rightarrow> es = [] | Some d \<Rightarrow> \<exists>r. es = [EvRunNodeDrain (drain_config d) m r]) \<Longrightarrow> untouched es"
  by (auto split: option.splits)

lemma cordon_node_calls:
  "emits (case D of None \<Rightarrow> State_Monad.return None | Some d \<Rightarrow> CordonNode W m)
     (\<lambda>r es. case D of None \<Rightarrow> es = [] | Some d \<Rightarrow> cordon_course m es)"
  by (cases D) (simp_all add: emits_return cordon_courses)

lemma cordon_node_drain_calls:
  "(case D of None \<Rightarrow> es = [] | Some d \<Rightarrow> cordon_course m es) \<Longrightarrow> list_all (is_drain_call m) es"
  by (cases D) (simp_all add: cordon_course_calls)

context cloud_provider
begin

lemma terminate_courses:
  assumes "j < length (Nodes (pool_Status pl))"
  shows "emits (teardown_terminate W P n pl j) (\<lambda>r es. untouched es \<or> terminate_course n pl j es)"
proof -
  have ids: "ns_InstanceID (Nodes (pool_Status (set_state j Terminating pl)) ! j) =
      ns_InstanceID (Nodes (pool_Status pl) ! j)" using assms by simp
  show ?thesis
    unfolding teardown_terminate_def world_calls
    by (intro emits_rules emits_bind [OF terminate_spec])
       (auto simp: terminate_course_intros [unfolded at_version_def] ids simp del: untouched_simps(3))
qed

lemma drain_courses:
  assumes "j < length (Nodes (pool_Status pl))"
  shows "emits (teardown_drain W P D n pl j) (\<lambda>r es. untouched es \<or> drain_course D n pl j es)"
  unfolding teardown_drain_def
  by (intro emits_rules emits_bind [OF drain_node_calls])
     (auto simp: drain_course_def at_version_def assms dest: drain_node_untouched
        intro!: emits_mono [OF terminate_courses])

lemma teardown_courses:
  assumes "j < length (Nodes (pool_Status pl))"
  shows "emits (teardown W P D n pl j) (\<lambda>r es. untouched es \<or> teardown_course D n pl j es)"
  unfolding teardown_def
  by (intro emits_rules emits_bind [OF cordon_node_calls])
     (auto simp: teardown_course_def at_version_def assms dest: drain_calls_untouched [OF cordon_node_drain_calls]
        intro!: emits_mono [OF drain_courses])

end

section \<open>When a node is torn down\<close>

lemma idle_loop_iff:
  "idle_loop pods \<longleftrightarrow> (\<forall>p \<in> set pods. isDaemonSetPod p \<or> pod_Phase p \<in> {''Succeeded'', ''Failed''})"
  by (induction pods) auto

text \<open>What the run saw before it began: the node, its entry, its pods and the clock.\<close>

definition due :: "node \<Rightarrow> pool list \<Rightarrow> pod list \<Rightarrow> time \<Rightarrow> pool \<Rightarrow> nat \<Rightarrow> bool" where
  "due n items pods t pl j \<longleftrightarrow>
     managed_node n \<and> find_pool (node_Name n) items = Some (pl, j) \<and>
     ns_State (Nodes (pool_Status pl) ! j) = Running \<and> idle_loop pods \<and>
     (\<exists>since. ns_LastPodFinished (Nodes (pool_Status pl) ! j) = Some since \<and> cooldown_of pl \<le> time_sub t since)"

context cloud_provider
begin

lemma reap_running_courses:
  assumes "managed_node n" "find_pool (node_Name n) items = Some (pl, j)"
    "ns_State (Nodes (pool_Status pl) ! j) = Running"
  shows "emits (reap_running W P D i n pl j) (\<lambda>r es. untouched es \<or>
    (\<exists>pods t0 t fs. es = EvListPodsOnNode (node_Name n) (Inr pods) # EvNow t0 # EvNow t # fs \<and>
       due n items pods t pl j \<and> teardown_course D n pl j fs))"
proof -
  from find_pool_nth [OF assms(2)] have j: "j < length (Nodes (pool_Status pl))" by simp
  have down: "emits (teardown W P D n pl j) (\<lambda>r es. untouched es \<or>
      due n items pods t pl j \<and> teardown_course D n pl j es)"
    if "idle_loop pods" "ns_LastPodFinished (Nodes (pool_Status pl) ! j) = Some since" "\<not> time_sub t since < cooldown_of pl"
    for pods since t
    using that assms by (intro emits_mono [OF teardown_courses [OF j]]) (auto simp: due_def)
  show ?thesis
    unfolding reap_running_def isNodeIdle_def reap_idle_def world_calls Let_def
      State_Monad.bind_assoc State_Monad.bind_left_identity
    by (intro emits_rules) (auto simp: down intro!: emits_return split: sum.splits)
qed

lemma reaper_courses:
  "emits (ReaperReconciler_Reconcile W P D i req) (\<lambda>r es. untouched es \<or>
    (\<exists>n items pods t0 t pl j fs. es = EvGetNode req (Inr n) # EvListPools (Inr items) #
         EvListPodsOnNode (node_Name n) (Inr pods) # EvNow t0 # EvNow t # fs \<and>
       due n items pods t pl j \<and> teardown_course D n pl j fs))"
proof -
  have run: "emits (reap_running W P D k n pl j) (\<lambda>r es. untouched es \<or>
      (\<exists>pods t0 t pl j fs. es = EvListPodsOnNode (node_Name n) (Inr pods) # EvNow t0 # EvNow t # fs \<and>
         due n items pods t pl j \<and> teardown_course D n pl j fs))"
    if "managed_node n" "find_pool (node_Name n) items = Some (pl, j)"
      "ns_State (Nodes (pool_Status pl) ! j) = Running" for k n items pl j
    by (rule emits_mono [OF reap_running_courses [OF that]]) blast
  show ?thesis
    unfolding ReaperReconciler_Reconcile_def findPoolAndNode_def world_calls
      State_Monad.bind_assoc State_Monad.bind_left_identity
    by (intro emits_rules) (auto split: sum.splits simp: run)
qed

end

lemma teardown_course_terminated:
  assumes "teardown_course D n pl j es" "j < length (Nodes (pool_Status pl))"
  shows "terminated es = [ns_InstanceID (Nodes (pool_Status pl) ! j)]"
proof -
  have drains: "terminated ds = []"
    if "list_all (is_drain_call m) ds \<or> (case D of None \<Rightarrow> ds = [] | Some d \<Rightarrow> \<exists>r. ds = [EvRunNodeDrain (drain_config d) m r])"
    for ds m
    using that drain_calls_untouched [of m ds] drain_node_untouched [of ds m D] by (auto simp: untouched_def)
  have final: "terminated es = [ns_InstanceID (Nodes (pool_Status p) ! j)]" if "terminate_course n p j es" for p es
    using that by (auto simp: terminate_course_def)
  from assms(1) obtain rv cs rest rv' ds rest' where
    "es = EvUpdateStatus (set_state j Cordoned pl) (Inr rv) # cs @ rest"
    "case D of None \<Rightarrow> cs = [] | Some d \<Rightarrow> cordon_course (node_Name n) cs"
    "rest = EvUpdateStatus (set_state j Draining (at_version rv (set_state j Cordoned pl))) (Inr rv') # ds @ rest'"
    "case D of None \<Rightarrow> ds = [] | Some d \<Rightarrow> \<exists>r. ds = [EvRunNodeDrain (drain_config d) (node_Name n) r]"
    "terminate_course n (at_version rv' (set_state j Draining (at_version rv (set_state j Cordoned pl)))) j rest'"
    unfolding teardown_course_def drain_course_def by blast
  with drains [of "node_Name n" cs] cordon_node_drain_calls [of cs "node_Name n" D] drains [of "node_Name n" ds] final assms(2) show ?thesis
    by (simp add: at_version_def)
qed

context cloud_provider
begin

lemma reaper_sourced: "emits (ReaperReconciler_Reconcile W P D i req) (\<lambda>r es. sourced [] es)"
proof (rule emits_mono [OF reaper_courses])
  fix es
  assume "untouched es \<or> (\<exists>n items pods t0 t pl j fs. es = EvGetNode req (Inr n) # EvListPools (Inr items) #
      EvListPodsOnNode (node_Name n) (Inr pods) # EvNow t0 # EvNow t # fs \<and>
      due n items pods t pl j \<and> teardown_course D n pl j fs)"
  then show "sourced [] es"
  proof (elim disjE exE conjE)
    fix n items pods t0 t pl j fs
    assume es: "es = EvGetNode req (Inr n) # EvListPools (Inr items) #
        EvListPodsOnNode (node_Name n) (Inr pods) # EvNow t0 # EvNow t # fs"
      and d: "due n items pods t pl j" "teardown_course D n pl j fs"
    from d(1) have pl: "pl \<in> set items" "j < length (Nodes (pool_Status pl))"
      by (auto simp: due_def dest: find_pool_nth)
    from pl have "sourced items fs"
      by (intro sourced_from) (auto simp: teardown_course_terminated [OF d(2)] dest: tracked_nth)
    with es show ?thesis by simp
  qed (simp add: untouched_def sourced_none)
qed

end

section \<open>Properties\<close>

text \<open>
  The status writes of the reaper refine the lifecycle of a pool: the idle timer of a running
  node, then running, cordoned, draining, terminating and gone, one step at a time.
\<close>

theorem reaper_refines_lifecycle:
  "disciplined {#} [] (calls_of (ReaperReconciler_Reconcile W (ec2_provider W) D i req) h)"
  by (rule emitsD [OF ec2.reaper_disciplined])

text \<open>
  C6. The reaper terminates an instance or deletes a node only for a managed node that a pool tracks
  as running, with nothing but daemon-set pods and finished pods on it, whose idle timer was set and
  has run for the cooldown of the pool. It then does so in order: cordoned is recorded, the node is
  read and written as unschedulable (with a drainer; a failed read is passed over); draining is
  recorded, the node is drained; terminating is recorded, the instance of that entry is terminated;
  then, exactly if EC2 did not refuse, the node is deleted and its entry removed.
\<close>

theorem reaper_tears_down_only_due:
  fixes W D i req h
  defines "es \<equiv> calls_of (ReaperReconciler_Reconcile W (ec2_provider W) D i req) h"
  assumes "terminated es \<noteq> [] \<or> deleted es \<noteq> []"
  shows "\<exists>n items pods t0 t pl j since fs.
    es = EvGetNode req (Inr n) # EvListPools (Inr items) # EvListPodsOnNode (node_Name n) (Inr pods) #
      EvNow t0 # EvNow t # fs \<and>
    managed_node n \<and> find_pool (node_Name n) items = Some (pl, j) \<and>
    ns_State (Nodes (pool_Status pl) ! j) = Running \<and>
    (\<forall>p \<in> set pods. isDaemonSetPod p \<or> pod_Phase p \<in> {''Succeeded'', ''Failed''}) \<and>
    ns_LastPodFinished (Nodes (pool_Status pl) ! j) = Some since \<and> cooldown_of pl \<le> time_sub t since \<and>
    teardown_course D n pl j fs"
  using emitsD [OF ec2.reaper_courses [of W W D i req], of h, folded es_def] assms(2)
  unfolding untouched_def due_def idle_loop_iff by blast

definition idle_status :: node_status where
  "idle_status = (sample_status Running)\<lparr>ns_LastPodFinished := Some 2\<rparr>"

definition idle_pool :: pool where
  "idle_pool = sample_pool\<lparr>pool_Status := \<lparr>ActiveNodes = 1, PendingNodes = 0, Nodes = [idle_status], Conditions = []\<rparr>\<rparr>"

definition managed_sample :: node where
  "managed_sample = sample_node\<lparr>node_Labels := Some [(managedLabel, labelValueTrue)]\<rparr>"

definition idle_world :: world where
  "idle_world = sample_world\<lparr>w_ListPools := \<lambda>h. Inr [idle_pool], w_GetNode := \<lambda>h key. Inr managed_sample\<rparr>"

lemma reaper_tears_down_only_due_witness:
  "terminated (calls_of (ReaperReconciler_Reconcile idle_world (ec2_provider idle_world) (Some 1) 0 ''n'') []) = [''i-1''] \<and>
   (\<exists>n pl j fs. teardown_course (Some 1) n pl j fs)"
proof -
  have t: "terminated (calls_of (ReaperReconciler_Reconcile idle_world (ec2_provider idle_world) (Some 1) 0 ''n'') []) = [''i-1'']"
    by code_simp
  then show ?thesis
    using reaper_tears_down_only_due [of idle_world "Some 1" 0 "''n''" "[]"] by auto
qed

text \<open>
  C35. The reaper never resumes a teardown: for a node whose entry is not running (still pending, or
  left cordoned, draining or terminating by a run that failed) it changes nothing and only asks to
  be called again.
\<close>

theorem reaper_never_resumes:
  assumes "w_GetNode W h req = Inr n" and "managed_node n"
    and "w_ListPools W (h @ [EvGetNode req (Inr n)]) = Inr items"
    and "find_pool (node_Name n) items = Some (pl, j)"
    and "ns_State (Nodes (pool_Status pl) ! j) \<noteq> Running"
  shows "outcome_of (ReaperReconciler_Reconcile W P D i req) h = requeue_after (reaper_checkInterval i) \<and>
    calls_of (ReaperReconciler_Reconcile W P D i req) h = [EvGetNode req (Inr n), EvListPools (Inr items)]"
  using assms
  by (simp add: ReaperReconciler_Reconcile_def findPoolAndNode_def world_calls outcome_of_def calls_of_def Let_def)

lemma reaper_never_resumes_witness:
  "outcome_of (ReaperReconciler_Reconcile
       (idle_world\<lparr>w_ListPools := \<lambda>h. Inr [set_state 0 Terminating idle_pool]\<rparr>)
       (ec2_provider sample_world) None 0 ''n'') [] = requeue_after (60 * second)"
proof -
  let ?W = "idle_world\<lparr>w_ListPools := \<lambda>h. Inr [set_state 0 Terminating idle_pool]\<rparr>"
  have "reaper_checkInterval 0 = 60 * second" "managed_node managed_sample"
    "find_pool (node_Name managed_sample) [set_state 0 Terminating idle_pool] = Some (set_state 0 Terminating idle_pool, 0)"
    "ns_State (Nodes (pool_Status (set_state 0 Terminating idle_pool)) ! 0) \<noteq> Running" by code_simp+
  moreover have "w_GetNode ?W [] ''n'' = Inr managed_sample" by (simp add: idle_world_def)
  ultimately show ?thesis
    using reaper_never_resumes [of ?W "[]" "''n''" managed_sample "[set_state 0 Terminating idle_pool]"] by simp
qed

definition stored_pool :: "event list \<Rightarrow> pool" where
  "stored_pool h = (case rev (bases (filter (\<lambda>e. write_of e \<noteq> []) h)) of [] \<Rightarrow> idle_pool | p # _ \<Rightarrow> p)"

definition stranding_world :: world where
  "stranding_world = idle_world
     \<lparr>w_ListPools := \<lambda>h. Inr [stored_pool h],
      w_TerminateInstances := \<lambda>h ids. if list_ex is_terminate h then None else Some (Plain ''RequestLimitExceeded'')\<rparr>"

text \<open>
  One failed call to EC2 strands an instance: with an API server that returns what was last
  stored and an EC2 that refuses the first termination, the first run of the reaper leaves the node
  recorded as terminating, and the next run, though EC2 would now accept, does nothing.
\<close>

theorem reaper_strands_after_failed_termination:
  "let m = ReaperReconciler_Reconcile stranding_world (ec2_provider stranding_world) None 0 ''n'';
       h = calls_of m []
   in (case outcome_of m [] of Inl e \<Rightarrow> True | Inr r \<Rightarrow> False) \<and>
      terminated h = [''i-1''] \<and> map ns_State (Nodes (pool_Status (stored_pool h))) = [Terminating] \<and>
      list_all (\<lambda>e. \<not> is_effect e) (calls_of m h)"
  by code_simp

end
