(* ===== verification/Orphan.thy ===== *)
theory Orphan
  imports Node_Ready
begin

text \<open>
  \<open>OrphanReconciler\<close> of \<open>internal/controller/orphan_reconciler.go\<close>: the comparison of the cloud's
  instances with the cluster's nodes, in both directions, and the clean-up of the pool statuses.
\<close>

section \<open>Helpers\<close>

definition defaultOrphanCheckInterval :: duration where "defaultOrphanCheckInterval = 5 * minute"
definition defaultBootTimeoutOrphan :: duration where "defaultBootTimeoutOrphan = 5 * minute"

definition orphan_checkInterval :: "duration \<Rightarrow> duration" where
  "orphan_checkInterval CheckInterval =
     (if CheckInterval > 0 then CheckInterval else defaultOrphanCheckInterval)"

definition orphan_bootTimeout :: "duration \<Rightarrow> duration" where
  "orphan_bootTimeout r_BootTimeout =
     (if r_BootTimeout > 0 then r_BootTimeout else defaultBootTimeoutOrphan)"

section \<open>Removing a node from the statuses\<close>

definition orphan_remove :: "nat \<Rightarrow> pool \<Rightarrow> pool" where
  "orphan_remove j pl =
     (let st = pool_Status pl;
          state = ns_State (Nodes st ! j);
          st = st\<lparr>Nodes := remove_at j (Nodes st)\<rparr>;
          st = (case state of
                  Pending \<Rightarrow> st\<lparr>PendingNodes := int32 (PendingNodes st - 1)\<rparr>
                | Running \<Rightarrow> st\<lparr>ActiveNodes := int32 (ActiveNodes st - 1)\<rparr>
                | Cordoned \<Rightarrow> st\<lparr>ActiveNodes := int32 (ActiveNodes st - 1)\<rparr>
                | Draining \<Rightarrow> st\<lparr>ActiveNodes := int32 (ActiveNodes st - 1)\<rparr>
                | Terminating \<Rightarrow> st);
          st = (if ActiveNodes st < 0 then st\<lparr>ActiveNodes := 0\<rparr> else st);
          st = (if PendingNodes st < 0 then st\<lparr>PendingNodes := 0\<rparr> else st)
      in pl\<lparr>pool_Status := st\<rparr>)"

fun remove_in_nodes :: "world \<Rightarrow> string \<Rightarrow> pool \<Rightarrow> nat list \<Rightarrow> bool io" where
  "remove_in_nodes W nodeName pl [] = State_Monad.return False"
| "remove_in_nodes W nodeName pl (j # js) =
     (if ns_Name (Nodes (pool_Status pl) ! j) = nodeName
      then do { r \<leftarrow> update_status W (orphan_remove j pl); State_Monad.return True }
      else remove_in_nodes W nodeName pl js)"

fun remove_in_pools :: "world \<Rightarrow> string \<Rightarrow> pool list \<Rightarrow> unit io" where
  "remove_in_pools W nodeName [] = State_Monad.return ()"
| "remove_in_pools W nodeName (pl # pls) =
     do {
       returned \<leftarrow> remove_in_nodes W nodeName pl [0..<length (Nodes (pool_Status pl))];
       (if returned then State_Monad.return () else remove_in_pools W nodeName pls)
     }"

definition removeFromPoolStatus :: "world \<Rightarrow> string \<Rightarrow> unit io" where
  "removeFromPoolStatus W nodeName =
     do {
       poolList \<leftarrow> list_pools W;
       (case poolList of
          Inl err \<Rightarrow> State_Monad.return ()
        | Inr items \<Rightarrow> remove_in_pools W nodeName items)
     }"

section \<open>The two cases\<close>

fun terminate_orphans ::
  "world \<Rightarrow> provider \<Rightarrow> (string \<Rightarrow> bool) \<Rightarrow> duration \<Rightarrow> cloud_node list \<Rightarrow> unit io" where
  "terminate_orphans W P k8sNodeNames bootTimeout [] = State_Monad.return ()"
| "terminate_orphans W P k8sNodeNames bootTimeout (cn # cns) =
     (if k8sNodeNames (cn_Name cn) then terminate_orphans W P k8sNodeNames bootTimeout cns
      else do {
        now \<leftarrow> time_now W;
        (if time_sub now (cn_LaunchedAt cn) < bootTimeout
         then terminate_orphans W P k8sNodeNames bootTimeout cns
         else do {
           err \<leftarrow> TerminateNode P (cn_InstanceID cn);
           removeFromPoolStatus W (cn_Name cn);
           terminate_orphans W P k8sNodeNames bootTimeout cns
         })
      })"

fun delete_orphans :: "world \<Rightarrow> (string \<Rightarrow> cloud_node option) \<Rightarrow> node list \<Rightarrow> unit io" where
  "delete_orphans W cloudInstancesByName [] = State_Monad.return ()"
| "delete_orphans W cloudInstancesByName (n # ns) =
     (if cloudInstancesByName (node_Name n) \<noteq> None then delete_orphans W cloudInstancesByName ns
      else do {
        err \<leftarrow> delete_node W (node_Name n);
        removeFromPoolStatus W (node_Name n);
        delete_orphans W cloudInstancesByName ns
      })"

definition node_names :: "node list \<Rightarrow> string \<Rightarrow> bool" where
  "node_names ns = foldl (\<lambda>m n. m(node_Name n := True)) (\<lambda>_. False) ns"

definition instances_by_name :: "cloud_node list \<Rightarrow> string \<Rightarrow> cloud_node option" where
  "instances_by_name cns = foldl (\<lambda>m cn. m(cn_Name cn \<mapsto> cn)) Map.empty cns"

definition OrphanReconciler_Reconcile ::
  "world \<Rightarrow> provider \<Rightarrow> duration \<Rightarrow> duration \<Rightarrow> reconcile_result io" where
  "OrphanReconciler_Reconcile W P CheckInterval r_BootTimeout =
     do {
       cloudList \<leftarrow> ListManagedNodes P;
       (case cloudList of
          Inl err \<Rightarrow>
            State_Monad.return (Inl (if err = NilDeref then NilDeref
                                     else WrapErr ''listing managed cloud nodes'' err))
        | Inr cloudNodes \<Rightarrow>
            do {
              nodeList \<leftarrow> list_nodes_with_label W (managedLabel, labelValueTrue);
              (case nodeList of
                 Inl err \<Rightarrow> State_Monad.return (Inl (WrapErr ''listing burst K8s nodes'' err))
               | Inr items \<Rightarrow>
                   do {
                     terminate_orphans W P (node_names items) (orphan_bootTimeout r_BootTimeout) cloudNodes;
                     delete_orphans W (instances_by_name cloudNodes) items;
                     State_Monad.return (requeue_after (orphan_checkInterval CheckInterval))
                   })
            })
     }"

text \<open>
  The runnable: once at the start, then at every tick until the context is done; the argument is
  the number of ticks before that. A panic ends the process, since nothing recovers it here.
\<close>

fun orphan_ticks :: "world \<Rightarrow> provider \<Rightarrow> duration \<Rightarrow> duration \<Rightarrow> nat \<Rightarrow> unit io" where
  "orphan_ticks W P CheckInterval r_BootTimeout 0 = State_Monad.return ()"
| "orphan_ticks W P CheckInterval r_BootTimeout (Suc k) =
     do {
       r \<leftarrow> OrphanReconciler_Reconcile W P CheckInterval r_BootTimeout;
       (if r = Inl NilDeref then State_Monad.return ()
        else orphan_ticks W P CheckInterval r_BootTimeout k)
     }"

definition orphanRunner_Start :: "world \<Rightarrow> provider \<Rightarrow> duration \<Rightarrow> duration \<Rightarrow> nat \<Rightarrow> unit io" where
  "orphanRunner_Start W P CheckInterval r_BootTimeout ticks =
     do {
       r \<leftarrow> OrphanReconciler_Reconcile W P CheckInterval r_BootTimeout;
       (if r = Inl NilDeref then State_Monad.return ()
        else orphan_ticks W P CheckInterval r_BootTimeout ticks)
     }"

record orphan_reconciler =
  or_CloudProvider :: provider
  or_CheckInterval :: duration
  or_BootTimeout :: duration

definition orphan_handler :: "world \<Rightarrow> orphan_reconciler \<Rightarrow> reconcile_result io" where
  "orphan_handler W r = OrphanReconciler_Reconcile W (or_CloudProvider r) (or_CheckInterval r) (or_BootTimeout r)"

text \<open>The runnable: it works on the reconciler, and its ticker has the interval of the reconciler.\<close>

record orphan_runner =
  run_reconciler :: orphan_reconciler
  run_interval :: duration

definition new_orphan_runner :: "orphan_reconciler \<Rightarrow> orphan_runner" where
  "new_orphan_runner r = \<lparr>run_reconciler = r, run_interval = orphan_checkInterval (or_CheckInterval r)\<rparr>"

definition orphan_runner_start :: "world \<Rightarrow> orphan_runner \<Rightarrow> nat \<Rightarrow> unit io" where
  "orphan_runner_start W runner ticks =
     (let r = run_reconciler runner in orphanRunner_Start W (or_CloudProvider r) (or_CheckInterval r) (or_BootTimeout r) ticks)"

section \<open>The writes are lifecycle steps\<close>

lemma orphan_remove_follows:
  assumes j: "j < length (Nodes (pool_Status pl))"
  shows "follows M pl (orphan_remove j pl)"
proof -
  define st' where "st' = pool_Status (orphan_remove j pl)"
  have eq: "orphan_remove j pl = pl\<lparr>pool_Status := st'\<rparr>"
    by (simp add: st'_def orphan_remove_def Let_def)
  have "life (set_mset M) (pool_max pl) (pool_Status pl) st'" if ok: "pool_ok pl"
  proof (cases "ns_State (Nodes (pool_Status pl) ! j)")
    case Pending
    then show ?thesis
      using life.orphan_pending [OF j Pending, of "set_mset M" "pool_max pl"] pool_ok_counters(2,3) [OF ok]
        pool_ok_pending [OF ok j Pending]
      by (simp add: st'_def orphan_remove_def without_node_def Let_def)
  next
    case Terminating
    then show ?thesis
      using life.orphan_terminating [OF j Terminating, of "set_mset M" "pool_max pl"] pool_ok_counters(2,3) [OF ok]
      by (simp add: st'_def orphan_remove_def without_node_def Let_def)
  qed (use life.orphan_started [OF j, of "set_mset M" "pool_max pl"] pool_ok_counters(2,3) [OF ok]
         pool_ok_started [OF ok j]
       in \<open>simp add: st'_def orphan_remove_def without_node_def Let_def\<close>)+
  moreover have "tracked st' \<subseteq># tracked (pool_Status pl)"
    by (simp add: tracked_def st'_def orphan_remove_def Let_def image_mset_subseteq_mono mset_remove_at_le split: node_state.split)
  ultimately show ?thesis unfolding eq by (rule followsI)
qed

lemma remove_in_nodes_disciplined:
  "list_all (\<lambda>j. j < length (Nodes (pool_Status pl))) js \<Longrightarrow>
   emits (remove_in_nodes W nm pl js) (\<lambda>r es. disciplined {#} [pl] es)"
proof (induction js)
  case Nil
  then show ?case by (simp add: emits_return)
next
  case (Cons j js)
  then show ?case by (auto intro!: emits_rules orphan_remove_follows)
qed

lemma remove_in_pools_disciplined: "emits (remove_in_pools W nm pls) (\<lambda>r es. disciplined {#} pls es)"
proof (induction pls)
  case Nil
  then show ?case by (simp add: emits_return)
next
  case (Cons pl pls)
  have nodes: "emits (remove_in_nodes W nm pl [0..<length (Nodes (pool_Status pl))]) (\<lambda>r es. disciplined {#} [pl] es)"
    by (rule remove_in_nodes_disciplined) (simp add: list_all_iff)
  have rest: "emits (remove_in_pools W nm pls) (\<lambda>r fs. disciplined M (pl # pls @ bases es) fs)" for es M
    by (rule emits_mono [OF Cons.IH]) (auto elim: disciplined_later)
  have first: "disciplined {#} (pl # pls) es" if "disciplined {#} [pl] es" for es
    using that by (rule disciplined_later) simp
  show ?case
    unfolding remove_in_pools.simps
    by (rule emits_bind [OF nodes])
       (auto simp: disciplined_append first intro!: emits_return emits_mono [OF rest])
qed

lemma removeFromPoolStatus_disciplined:
  "emits (removeFromPoolStatus W nm) (\<lambda>r es. disciplined M B es)"
  unfolding removeFromPoolStatus_def world_calls
  by (intro emits_rules emits_mono [OF remove_in_pools_disciplined]) (auto elim: disciplined_later)

lemma delete_orphans_disciplined: "emits (delete_orphans W m ns) (\<lambda>r es. disciplined M B es)"
proof (induction ns arbitrary: M B)
  case Nil
  then show ?case by (simp add: emits_return)
next
  case (Cons n ns)
  show ?case
    unfolding delete_orphans.simps world_calls
    by (intro emits_rules Cons.IH emits_bind [OF removeFromPoolStatus_disciplined [of W _ M B]])
       (auto simp: disciplined_append at_hand_def intro!: emits_mono [OF Cons.IH])
qed

context cloud_provider
begin

lemma terminate_orphans_disciplined: "emits (terminate_orphans W P k t cns) (\<lambda>r es. disciplined M B es)"
proof (induction cns arbitrary: M B)
  case Nil
  then show ?case by (simp add: emits_return)
next
  case (Cons cn cns)
  have rest: "emits (State_Monad.bind (removeFromPoolStatus W nm) (\<lambda>_. terminate_orphans W P k t cns))
      (\<lambda>r es. disciplined N C es)" for nm N C
    by (rule emits_bind [OF removeFromPoolStatus_disciplined [of W _ N C]])
       (auto simp: disciplined_append intro!: emits_mono [OF Cons.IH])
  show ?case
    unfolding terminate_orphans.simps world_calls
    by (intro emits_rules Cons.IH emits_bind [OF terminate_spec])
       (auto simp: disciplined_append cloud_disciplined intro!: emits_mono [OF Cons.IH] emits_mono [OF rest])
qed

lemma orphan_disciplined:
  "emits (OrphanReconciler_Reconcile W P c b) (\<lambda>r es. disciplined {#} [] es)"
proof -
  have delete: "emits (State_Monad.bind (delete_orphans W m ns) (\<lambda>_. State_Monad.return x))
      (\<lambda>r es. disciplined M B es)" for m ns M B and x :: reconcile_result
    by (rule emits_bind [OF delete_orphans_disciplined [of W m ns M B]])
       (auto simp: disciplined_append intro!: emits_return)
  have both: "emits (State_Monad.bind (terminate_orphans W P k t cns)
        (\<lambda>_. State_Monad.bind (delete_orphans W m ns) (\<lambda>_. State_Monad.return x)))
      (\<lambda>r es. disciplined M B es)" for k t cns m ns M B and x :: reconcile_result
    by (rule emits_bind [OF terminate_orphans_disciplined [of W k t cns M B]])
       (auto simp: disciplined_append intro!: emits_mono [OF delete])
  show ?thesis
    unfolding OrphanReconciler_Reconcile_def world_calls
    by (rule emits_bind [OF list_spec], intro emits_rules)
       (auto simp: disciplined_append cloud_disciplined intro!: emits_mono [OF both])
qed

end

section \<open>What a check terminates and deletes\<close>

fun now_of :: "event \<Rightarrow> time list" where
  "now_of (EvNow t) = [t]"
| "now_of _ = []"

definition clock :: "event list \<Rightarrow> time list" where
  "clock es = concat (map now_of es)"

lemma clock_simps [simp]:
  "clock [] = []" "clock (e # es) = now_of e @ clock es" "clock (es @ fs) = clock es @ clock fs"
  by (simp_all add: clock_def)

lemma cloud_clock: "list_all is_cloud es \<Longrightarrow> clock es = []"
proof (induction es)
  case (Cons e es)
  then show ?case by (cases e) auto
qed simp

text \<open>The calls of the status clean-up.\<close>

fun is_bookkeeping :: "event \<Rightarrow> bool" where
  "is_bookkeeping (EvListPools r) = True"
| "is_bookkeeping (EvUpdateStatus p r) = True"
| "is_bookkeeping _ = False"

lemma bookkeeping_frame:
  "list_all is_bookkeeping es \<Longrightarrow> clock es = [] \<and> terminated es = [] \<and> deleted es = [] \<and> count_launched es = 0"
proof (induction es)
  case (Cons e es)
  then show ?case by (cases e) auto
qed simp

lemma only_update_status [only_rules]: "(\<And>r. \<phi> (EvUpdateStatus p r)) \<Longrightarrow> only_calls \<phi> (update_status W p)"
  unfolding update_status_def by (intro only_rules) auto

lemma removeFromPoolStatus_bookkeeping: "emits (removeFromPoolStatus W nm) (\<lambda>r es. list_all is_bookkeeping es)"
proof -
  have nodes: "only_calls is_bookkeeping (remove_in_nodes W nm pl js)" for pl js
    by (induction js) (auto intro!: only_rules)
  have pools: "only_calls is_bookkeeping (remove_in_pools W nm pls)" for pls
    by (induction pls) (auto intro!: only_rules nodes)
  have "only_calls is_bookkeeping (removeFromPoolStatus W nm)"
    unfolding removeFromPoolStatus_def world_calls by (intro only_rules pools) auto
  then show ?thesis by (simp add: only_calls_def)
qed

lemma node_names_iff: "node_names ns x \<longleftrightarrow> x \<in> node_Name ` set ns"
proof -
  have "foldl (\<lambda>m n. m(node_Name n := True)) m0 ns x \<longleftrightarrow> m0 x \<or> x \<in> node_Name ` set ns" for m0
    by (induction ns arbitrary: m0) auto
  then show ?thesis by (simp add: node_names_def)
qed

lemma instances_by_name_iff: "instances_by_name cns x = None \<longleftrightarrow> x \<notin> cn_Name ` set cns"
proof -
  have "foldl (\<lambda>m cn. m(cn_Name cn \<mapsto> cn)) m0 cns x = None \<longleftrightarrow> m0 x = None \<and> x \<notin> cn_Name ` set cns" for m0
    by (induction cns arbitrary: m0) auto
  then show ?thesis by (simp add: instances_by_name_def)
qed

text \<open>The instances without a node whose age, by the clock reading taken for them, has reached the limit.\<close>

definition overdue :: "duration \<Rightarrow> cloud_node list \<Rightarrow> time list \<Rightarrow> string list" where
  "overdue limit missing ts =
     map (cn_InstanceID \<circ> fst) (filter (\<lambda>(cn, t). limit \<le> time_sub t (cn_LaunchedAt cn)) (zip missing ts))"

lemma overdue_simps [simp]:
  "overdue limit [] ts = []"
  "overdue limit (cn # cns) (t # ts) =
     (if limit \<le> time_sub t (cn_LaunchedAt cn) then cn_InstanceID cn # overdue limit cns ts else overdue limit cns ts)"
  by (simp_all add: overdue_def)

lemma delete_orphans_exact:
  "emits (delete_orphans W m ns) (\<lambda>r es. clock es = [] \<and> terminated es = [] \<and> count_launched es = 0 \<and>
     deleted es = map node_Name (filter (\<lambda>n. m (node_Name n) = None) ns))"
proof (induction ns)
  case Nil
  then show ?case by (simp add: emits_return)
next
  case (Cons n ns)
  show ?case
    unfolding delete_orphans.simps world_calls
    by (intro emits_rules emits_bind [OF removeFromPoolStatus_bookkeeping] emits_mono [OF Cons.IH])
       (auto dest: bookkeeping_frame)
qed

context cloud_provider
begin

lemma terminate_orphans_exact:
  "emits (terminate_orphans W P k limit cns) (\<lambda>r es. deleted es = [] \<and> count_launched es = 0 \<and>
     length (clock es) = length (filter (\<lambda>cn. \<not> k (cn_Name cn)) cns) \<and>
     terminated es = overdue limit (filter (\<lambda>cn. \<not> k (cn_Name cn)) cns) (clock es))"
proof (induction cns)
  case Nil
  then show ?case by (simp add: emits_return)
next
  case (Cons cn cns)
  show ?case
    unfolding terminate_orphans.simps world_calls
    by (intro emits_rules emits_bind [OF terminate_spec] emits_bind [OF removeFromPoolStatus_bookkeeping]
          emits_mono [OF Cons.IH])
       (auto dest!: bookkeeping_frame simp: cloud_clock cloud_deletes_nothing)
qed

lemma orphan_cases_exact:
  "emits (State_Monad.bind (terminate_orphans W P (node_names items) limit cns)
      (\<lambda>_. State_Monad.bind (delete_orphans W (instances_by_name cns) items) (\<lambda>_. State_Monad.return x)))
     (\<lambda>r es. r = x \<and> count_launched es = 0 \<and>
       length (clock es) = length (filter (\<lambda>cn. cn_Name cn \<notin> node_Name ` set items) cns) \<and>
       terminated es = overdue limit (filter (\<lambda>cn. cn_Name cn \<notin> node_Name ` set items) cns) (clock es) \<and>
       deleted es = map node_Name (filter (\<lambda>n. node_Name n \<notin> cn_Name ` set cns) items))"
  by (intro emits_bind [OF terminate_orphans_exact] emits_bind [OF delete_orphans_exact] emits_return)
     (auto simp: node_names_iff instances_by_name_iff)

end

definition check_result :: "duration \<Rightarrow> node list \<Rightarrow> cloud_node list \<Rightarrow> event list \<Rightarrow> bool" where
  "check_result limit items cns es \<longleftrightarrow>
     length (clock es) = length (filter (\<lambda>cn. cn_Name cn \<notin> node_Name ` set items) cns) \<and>
     terminated es = overdue limit (filter (\<lambda>cn. cn_Name cn \<notin> node_Name ` set items) cns) (clock es) \<and>
     deleted es = map node_Name (filter (\<lambda>n. node_Name n \<notin> cn_Name ` set cns) items)"

text \<open>
  How a check ends before it compares: EC2 refused the listing, described an instance without a
  state (which panics), or the API server refused to list the nodes.
\<close>

definition listing_failed :: "reconcile_result \<Rightarrow> event list \<Rightarrow> bool" where
  "listing_failed r es \<longleftrightarrow>
     (\<exists>err. es = [EvDescribeInstances managed_filters (Inl err)]) \<and> (\<exists>err. r = Inl err) \<or>
     (\<exists>rs. es = [EvDescribeInstances managed_filters (Inr rs)] \<and> (\<exists>i \<in> set (concat rs). ei_State i = None)) \<and>
       r = Inl NilDeref \<or>
     (\<exists>rs err. es = [EvDescribeInstances managed_filters (Inr rs),
         EvListNodesWithLabel (managedLabel, labelValueTrue) (Inl err)]) \<and> (\<exists>err. r = Inl err)"

lemma collect_nodes_failed:
  "collect_nodes is ns = Inl err \<longleftrightarrow> err = NilDeref \<and> (\<exists>i \<in> set is. ei_State i = None)"
  by (induction "is" arbitrary: ns) (auto simp: to_cloud_node_def Let_def split: option.splits sum.splits)

lemma orphan_exact:
  "emits (OrphanReconciler_Reconcile W (ec2_provider W) c b) (\<lambda>r es. count_launched es = 0 \<and>
     (listing_failed r es \<or>
      r = requeue_after (orphan_checkInterval c) \<and>
      (\<exists>rs cns items fs. es = EvDescribeInstances managed_filters (Inr rs) #
           EvListNodesWithLabel (managedLabel, labelValueTrue) (Inr items) # fs \<and>
         collect_nodes (concat rs) [] = Inr cns \<and> check_result (orphan_bootTimeout b) items cns fs)))"
  unfolding OrphanReconciler_Reconcile_def ec2_provider_simps EC2Provider_ListManagedNodes_def world_calls
    State_Monad.bind_assoc State_Monad.bind_left_identity
  by (intro emits_rules)
     (auto split: sum.splits simp: check_result_def listing_failed_def collect_nodes_failed
        intro!: emits_rules emits_mono [OF ec2.orphan_cases_exact])

text \<open>An instance without a labelled node is terminated once every clock reading makes it too old.\<close>

context cloud_provider
begin

lemma terminate_orphans_due:
  assumes "\<not> k (cn_Name cn)" "\<And>h. limit \<le> time_sub (w_Now W h) (cn_LaunchedAt cn)"
  shows "cn \<in> set cns \<Longrightarrow> emits (terminate_orphans W P k limit cns) (\<lambda>r es. cn_InstanceID cn \<in> set (terminated es))"
proof (induction cns)
  case (Cons x cns)
  have rest: "emits (State_Monad.bind (TerminateNode P (cn_InstanceID x)) (\<lambda>err. State_Monad.bind (removeFromPoolStatus W (cn_Name x))
      (\<lambda>_. terminate_orphans W P k limit cns))) (\<lambda>r es. cn_InstanceID x \<in> set (terminated es))"
    by (intro emits_bind [OF terminate_spec] emits_bind [OF removeFromPoolStatus_bookkeeping]
          emits_mono [OF terminate_orphans_exact]) simp
  show ?case
  proof (cases "x = cn")
    case True
    have "\<not> time_sub (w_Now W h) (cn_LaunchedAt cn) < limit" for h using assms(2) [of h] by simp
    with assms(1) rest True show ?thesis
      unfolding terminate_orphans.simps world_calls by (auto intro!: emits_bind_answer)
  next
    case False
    with Cons have "emits (terminate_orphans W P k limit cns) (\<lambda>r es. cn_InstanceID cn \<in> set (terminated es))" by simp
    then show ?thesis
      unfolding terminate_orphans.simps world_calls
      by (intro emits_rules emits_bind [OF terminate_spec] emits_bind [OF removeFromPoolStatus_bookkeeping])
         (auto elim!: emits_mono)
  qed
qed simp

end

lemma orphan_due:
  assumes "\<And>h. w_DescribeInstances W h managed_filters = Inr rs" and "\<forall>i \<in> set (concat rs). ei_State i \<noteq> None"
    and "\<And>h. w_ListNodesWithLabel W h (managedLabel, labelValueTrue) = Inr items"
    and "i \<in> set (concat rs)" and "to_cloud_node i = Inr cn" and "cn_Name cn \<notin> node_Name ` set items"
    and "\<And>h. orphan_bootTimeout b \<le> time_sub (w_Now W h) (cn_LaunchedAt cn)"
  shows "cn_InstanceID cn \<in> set (terminated (calls_of (OrphanReconciler_Reconcile W (ec2_provider W) c b) h))"
proof -
  from assms(2) collect_nodes_eq [of "concat rs" "[]"] obtain cns where
    cns: "collect_nodes (concat rs) [] = Inr cns" "list_all2 (\<lambda>i m. to_cloud_node i = Inr m) (concat rs) cns"
    by (auto simp: list_all_iff)
  obtain j where "j < length (concat rs)" "i = concat rs ! j" using assms(4) by (metis in_set_conv_nth)
  with cns(2) assms(5) have "cn \<in> set cns" using list_all2_nthD [OF cns(2), of j] list_all2_lengthD [OF cns(2)]
    by (metis nth_mem sum.inject(2))
  then have due: "emits (terminate_orphans W (ec2_provider W) (node_names items) (orphan_bootTimeout b) cns)
      (\<lambda>r es. cn_InstanceID cn \<in> set (terminated es))"
    using assms(6,7) by (intro ec2.terminate_orphans_due) (auto simp: node_names_iff)
  have "emits (OrphanReconciler_Reconcile W (ec2_provider W) c b) (\<lambda>r es. cn_InstanceID cn \<in> set (terminated es))"
    unfolding OrphanReconciler_Reconcile_def ec2_provider_simps EC2Provider_ListManagedNodes_def world_calls
      State_Monad.bind_assoc State_Monad.bind_left_identity
    by (rule emits_bind_answer, simp only: assms(1) sum.case cns(1), rule emits_bind_answer,
        simp only: assms(3) sum.case, rule emits_bind [OF due])
       (intro emits_bind [OF delete_orphans_exact] emits_return, simp)
  from emitsD [OF this, of h] show ?thesis .
qed

section \<open>Properties\<close>

text \<open>
  The status writes of the orphan check refine the lifecycle of a pool: each removes one tracked
  node from a version that was read.
\<close>

theorem orphan_refines_lifecycle:
  "disciplined {#} [] (calls_of (OrphanReconciler_Reconcile W (ec2_provider W) c b) h)"
  by (rule emitsD [OF ec2.orphan_disciplined])

text \<open>
  C7. An orphan check compares exactly: it launches nothing, and unless a listing failed (EC2 or the
  API server refused it, or EC2 described an instance without a state), it terminates exactly the
  listed instances whose name no labelled node has and whose age, by a clock reading taken for each,
  has reached the boot timeout, deletes exactly the labelled nodes whose name no listed instance has,
  each in the order listed, and asks to be called again after the interval. If a listing failed,
  that listing is its last call and it returns an error.
\<close>

theorem orphan_check_exact:
  fixes W c b h
  defines "es \<equiv> calls_of (OrphanReconciler_Reconcile W (ec2_provider W) c b) h"
    and "r \<equiv> outcome_of (OrphanReconciler_Reconcile W (ec2_provider W) c b) h"
  shows "count_launched es = 0 \<and>
    ((\<exists>err. es = [EvDescribeInstances managed_filters (Inl err)]) \<and> (\<exists>err. r = Inl err) \<or>
     (\<exists>rs. es = [EvDescribeInstances managed_filters (Inr rs)] \<and> (\<exists>i \<in> set (concat rs). ei_State i = None)) \<and>
       r = Inl NilDeref \<or>
     (\<exists>rs err. es = [EvDescribeInstances managed_filters (Inr rs),
         EvListNodesWithLabel (managedLabel, labelValueTrue) (Inl err)]) \<and> (\<exists>err. r = Inl err) \<or>
     r = requeue_after (orphan_checkInterval c) \<and>
     (\<exists>rs cns items fs.
        es = EvDescribeInstances managed_filters (Inr rs) #
          EvListNodesWithLabel (managedLabel, labelValueTrue) (Inr items) # fs \<and>
        collect_nodes (concat rs) [] = Inr cns \<and>
        length (clock fs) = length (filter (\<lambda>cn. cn_Name cn \<notin> node_Name ` set items) cns) \<and>
        terminated fs = overdue (orphan_bootTimeout b)
          (filter (\<lambda>cn. cn_Name cn \<notin> node_Name ` set items) cns) (clock fs) \<and>
        deleted fs = map node_Name (filter (\<lambda>n. node_Name n \<notin> cn_Name ` set cns) items)))"
  using emitsD [OF orphan_exact [of W c b], of h, folded es_def r_def]
  unfolding check_result_def listing_failed_def by blast

text \<open>
  C36. The orphan check leaks capacity: removing a tracked node in state terminating takes the entry
  out of the status but leaves both counters as they are, so the pool counts a node it no longer has.
\<close>

theorem orphan_remove_leaks_terminating:
  assumes "pool_ok pl" and "j < length (Nodes (pool_Status pl))"
    and "ns_State (Nodes (pool_Status pl) ! j) = Terminating"
  shows "ActiveNodes (pool_Status (orphan_remove j pl)) = ActiveNodes (pool_Status pl) \<and>
    PendingNodes (pool_Status (orphan_remove j pl)) = PendingNodes (pool_Status pl) \<and>
    int (length (Nodes (pool_Status (orphan_remove j pl)))) <
      ActiveNodes (pool_Status (orphan_remove j pl)) + PendingNodes (pool_Status (orphan_remove j pl))"
proof -
  note c = pool_ok_counters [OF assms(1)]
  have len: "Nodes (pool_Status pl) \<noteq> []" using assms(2) by auto
  have "ActiveNodes (pool_Status (orphan_remove j pl)) = ActiveNodes (pool_Status pl)"
    "PendingNodes (pool_Status (orphan_remove j pl)) = PendingNodes (pool_Status pl)"
    "Nodes (pool_Status (orphan_remove j pl)) = remove_at j (Nodes (pool_Status pl))"
    using assms(3) c(2,3) by (simp_all add: orphan_remove_def Let_def)
  with counters_ok_tracked [OF c(1)] assms(2) len show ?thesis by simp
qed

definition leaking_pool :: pool where
  "leaking_pool = sample_pool\<lparr>pool_Status := \<lparr>ActiveNodes = 1, PendingNodes = 0, Nodes = [sample_status Terminating], Conditions = []\<rparr>\<rparr>"

lemma orphan_remove_leaks_terminating_witness:
  "ActiveNodes (pool_Status (orphan_remove 0 leaking_pool)) = 1 \<and> Nodes (pool_Status (orphan_remove 0 leaking_pool)) = []"
proof -
  have "pool_ok leaking_pool" "0 < length (Nodes (pool_Status leaking_pool))"
    "ns_State (Nodes (pool_Status leaking_pool) ! 0) = Terminating"
    "ActiveNodes (pool_Status leaking_pool) = 1" "Nodes (pool_Status (orphan_remove 0 leaking_pool)) = []"
    by code_simp+
  with orphan_remove_leaks_terminating [of leaking_pool 0] show ?thesis by simp
qed


text \<open>The node and the pool of the samples: no labels at all.\<close>

definition unlabelled_world :: world where
  "unlabelled_world = sample_world
     \<lparr>w_ListNodesWithLabel := \<lambda>h (k, v). Inr (filter (\<lambda>x. gm_get (node_Labels x) k = v)
        [sample_node\<lparr>node_Labels := gm_copy (node_Labels sample_node) (NodeLabels (pool_Spec sample_pool))\<rparr>]),
      w_DescribeInstances := \<lambda>h fs. Inr [[sample_instance]]\<rparr>"


text \<open>
  The runnable performs one check at its start and one per tick: with a provider that never
  panics, the calls of a start with \<open>k\<close> ticks are those of \<open>k + 1\<close> checks in sequence.
\<close>

theorem orphanRunner_repeats:
  assumes "\<And>h. outcome_of (OrphanReconciler_Reconcile W P c b) h \<noteq> Inl NilDeref"
  shows "run_state (orphanRunner_Start W P c b k) h =
    ((), ((\<lambda>h. snd (run_state (OrphanReconciler_Reconcile W P c b) h)) ^^ Suc k) h)"
proof -
  have step: "run_state (State_Monad.bind (OrphanReconciler_Reconcile W P c b)
      (\<lambda>r. if r = Inl NilDeref then State_Monad.return () else m)) h =
      run_state m (snd (run_state (OrphanReconciler_Reconcile W P c b) h))" for m h
    using assms [of h]
    by (cases "run_state (OrphanReconciler_Reconcile W P c b) h") (simp add: outcome_of_def)
  let ?check = "\<lambda>h. snd (run_state (OrphanReconciler_Reconcile W P c b) h)"
  have ticks: "run_state (orphan_ticks W P c b k) h = ((), (?check ^^ k) h)" for h
  proof (induction k arbitrary: h)
    case (Suc k)
    show ?case by (simp only: orphan_ticks.simps step Suc.IH funpow_Suc_right o_apply)
  qed simp
  show ?thesis unfolding orphanRunner_Start_def by (simp only: step ticks funpow_Suc_right o_apply)
qed

lemma orphanRunner_repeats_witness:
  "length (snd (run_state (orphanRunner_Start
      (sample_world\<lparr>w_DescribeInstances := \<lambda>h fs. Inl (Plain ''throttled'')\<rparr>)
      (ec2_provider (sample_world\<lparr>w_DescribeInstances := \<lambda>h fs. Inl (Plain ''throttled'')\<rparr>)) 0 0 2) [])) = 3"
proof -
  let ?W = "sample_world\<lparr>w_DescribeInstances := \<lambda>h fs. Inl (Plain ''throttled'')\<rparr>"
  have run: "run_state (OrphanReconciler_Reconcile ?W (ec2_provider ?W) 0 0) h =
      (Inl (WrapErr ''listing managed cloud nodes'' (WrapErr ''describing EC2 instances'' (Plain ''throttled''))),
       h @ [EvDescribeInstances managed_filters (Inl (Plain ''throttled''))])" for h
    by (simp add: OrphanReconciler_Reconcile_def EC2Provider_ListManagedNodes_def world_calls)
  have "run_state (orphanRunner_Start ?W (ec2_provider ?W) 0 0 2) [] =
      ((), ((\<lambda>h. snd (run_state (OrphanReconciler_Reconcile ?W (ec2_provider ?W) 0 0) h)) ^^ Suc 2) [])"
    by (rule orphanRunner_repeats) (simp add: outcome_of_def run)
  then show ?thesis by (simp add: run numeral_2_eq_2)
qed

end
