(* ===== verification/Cluster.thy ===== *)
theory Cluster
  imports Provisioner_Runs Reaper Orphan
begin

text \<open>
  The handlers together: all versions of pools an API server ever stores while the four reconcilers
  run against it with the EC2 provider, interleaved in any way, and the invariant of these versions.
\<close>

section \<open>Runs of the handlers\<close>

inductive handler_run :: "world \<Rightarrow> event list \<Rightarrow> bool" for W where
  provision: "handler_run W (calls_of (ProvisionerReconciler_Reconcile W (ec2_provider W) d req) h)"
| node_ready: "handler_run W (calls_of (NodeReadyReconciler_Reconcile W (ec2_provider W) nm) h)"
| reap: "handler_run W (calls_of (ReaperReconciler_Reconcile W (ec2_provider W) D i nm) h)"
| orphans: "handler_run W (calls_of (OrphanReconciler_Reconcile W (ec2_provider W) c b) h)"

lemma handler_run_disciplined: "handler_run W es \<Longrightarrow> disciplined {#} [] es"
  by (induction rule: handler_run.induct)
     (blast intro: emitsD [OF ec2.provisioner_spec, THEN conjunct2] emitsD [OF ec2.node_ready_disciplined]
        emitsD [OF ec2.reaper_disciplined] emitsD [OF ec2.orphan_disciplined])+

section \<open>The versions an API server stores\<close>

fun stored_of :: "event \<Rightarrow> pool list" where
  "stored_of (EvUpdateStatus p (Inr rv)) = [p\<lparr>pool_ResourceVersion := rv\<rparr>]"
| "stored_of _ = []"

definition stored :: "event list \<Rightarrow> pool list" where
  "stored es = concat (map stored_of es)"

text \<open>A stored object read back: metadata and the times of its nodes may differ, the rest not.\<close>

definition kept_fields :: "node_status \<Rightarrow> string \<times> string \<times> string \<times> node_state" where
  "kept_fields n = (ns_Name n, ns_InstanceID n, ns_InstanceType n, ns_State n)"

definition reread :: "pool \<Rightarrow> pool \<Rightarrow> bool" where
  "reread a b \<longleftrightarrow>
     pool_Spec b = pool_Spec a \<and>
     map kept_fields (Nodes (pool_Status b)) =
       map kept_fields (Nodes (pool_Status a)) \<and>
     ActiveNodes (pool_Status b) = ActiveNodes (pool_Status a) \<and>
     PendingNodes (pool_Status b) = PendingNodes (pool_Status a)"

text \<open>
  The sets of versions that may come to be stored. A user creates pools without a status and may edit
  a specification, but not lower \<open>maxNodes\<close>; a handler's run adds what it has stored so far once all
  it has read so far is stored. Since a run may be cut anywhere (\<open>es @ fs\<close>) and the rule applied again
  with a longer part of the same run, this covers every interleaving of any number of runs, crashes
  included.
\<close>

inductive reachable :: "pool set \<Rightarrow> bool" where
  start: "reachable {}"
| created: "reachable H \<Longrightarrow> pool_Status pl = \<lparr>ActiveNodes = 0, PendingNodes = 0, Nodes = [], Conditions = []\<rparr> \<Longrightarrow>
    0 \<le> pool_max pl \<Longrightarrow> pool_max pl < 2 ^ 31 \<Longrightarrow> reachable (insert pl H)"
| edited: "reachable H \<Longrightarrow> pl \<in> H \<Longrightarrow> pool_Status pl' = pool_Status pl \<Longrightarrow>
    pool_max pl \<le> pool_max pl' \<Longrightarrow> pool_max pl' < 2 ^ 31 \<Longrightarrow> reachable (insert pl' H)"
| read_back: "reachable H \<Longrightarrow> pl \<in> H \<Longrightarrow> reread pl pl' \<Longrightarrow> reachable (insert pl' H)"
| advanced: "reachable H \<Longrightarrow> handler_run W (es @ fs) \<Longrightarrow> set (pools_read es) \<subseteq> H \<Longrightarrow>
    reachable (H \<union> set (stored es))"

section \<open>The invariant\<close>

lemma count_states:
  "count_pending ns = int (length (filter (\<lambda>s. s = Pending) (map ns_State ns)))"
  "count_started ns = int (length (filter (\<lambda>s. s \<noteq> Pending) (map ns_State ns)))"
  by (induction ns) simp_all

lemma reread_ok: "reread a b \<Longrightarrow> pool_ok a \<Longrightarrow> pool_ok b"
proof -
  assume r: "reread a b" and ok: "pool_ok a"
  from r have "map (snd \<circ> snd \<circ> snd) (map kept_fields (Nodes (pool_Status b))) =
    map (snd \<circ> snd \<circ> snd) (map kept_fields (Nodes (pool_Status a)))"
    by (simp only: reread_def)
  then have "map ns_State (Nodes (pool_Status b)) = map ns_State (Nodes (pool_Status a))" by (simp add: comp_def kept_fields_def)
  then have "count_pending (Nodes (pool_Status b)) = count_pending (Nodes (pool_Status a))"
    "count_started (Nodes (pool_Status b)) = count_started (Nodes (pool_Status a))"
    by (simp_all only: count_states)
  with r ok show ?thesis
    by (simp add: reread_def pool_ok_def status_ok_def counters_ok_def within_def pool_max_def)
qed

lemma stored_of_written:
  "p \<in> set (stored_of e) \<Longrightarrow> \<exists>q rv. q \<in> set (write_of e) \<and> p = q\<lparr>pool_ResourceVersion := rv\<rparr>"
  by (cases e rule: stored_of.cases) auto

lemma version_ok: "pool_ok (q\<lparr>pool_ResourceVersion := rv\<rparr>) = pool_ok q"
  by (simp add: pool_ok_def pool_max_def)

lemma stored_ok: "\<forall>p \<in> set (pools_written es). pool_ok p \<Longrightarrow> \<forall>p \<in> set (stored es). pool_ok p"
  unfolding stored_def pools_written_def
  by (auto dest!: stored_of_written simp: version_ok)

lemma run_prefix_ok:
  assumes "handler_run W (es @ fs)" "\<forall>p \<in> set (pools_read es). pool_ok p"
  shows "\<forall>p \<in> set (stored es). pool_ok p"
proof -
  from handler_run_disciplined [OF assms(1)] have "disciplined {#} [] es" by (simp add: disciplined_append)
  from disciplined_ok [OF this _ assms(2)] show ?thesis by (intro stored_ok) simp
qed

lemma reachable_ok: "reachable H \<Longrightarrow> \<forall>p \<in> H. pool_ok p"
proof (induction rule: reachable.induct)
  case (created H pl)
  then have "pool_ok pl"
    by (simp add: pool_ok_def status_ok_def counters_ok_def within_def count_pending_def count_started_def)
  with created.IH show ?case by simp
next
  case (edited H pl pl')
  then have "pool_ok pl'" by (auto simp: pool_ok_def status_ok_def within_def)
  with edited.IH show ?case by simp
next
  case (read_back H pl pl')
  then show ?case by (auto intro: reread_ok)
next
  case (advanced H W es fs)
  then have "\<forall>p \<in> set (stored es). pool_ok p" by (intro run_prefix_ok) auto
  with advanced.IH show ?case by auto
qed simp

section \<open>Properties\<close>

text \<open>
  C4. The safety of the controller as a whole: in every version of a pool that is ever stored, however
  the runs of the four reconcilers interleave, fail or stop half way, the pending counter is the
  number of pending entries, the active counter is at least the number of the others, and their sum,
  hence the number of tracked nodes, does not exceed \<open>maxNodes\<close>.
\<close>

theorem stored_pools_sound:
  assumes "reachable H" and "pl \<in> H"
  shows "PendingNodes (pool_Status pl) = count_pending (Nodes (pool_Status pl)) \<and>
    count_started (Nodes (pool_Status pl)) \<le> ActiveNodes (pool_Status pl) \<and>
    ActiveNodes (pool_Status pl) + PendingNodes (pool_Status pl) \<le> MaxNodes (Scaling (pool_Spec pl)) \<and>
    int (length (Nodes (pool_Status pl))) \<le> MaxNodes (Scaling (pool_Spec pl))"
proof -
  from reachable_ok [OF assms(1)] assms(2) have ok: "pool_ok pl" by blast
  note c = pool_ok_counters [OF ok]
  from counters_ok_tracked [OF c(1)] c(4) c(1) show ?thesis
    by (simp add: counters_ok_def pool_max_def)
qed

text \<open>The first run of the provisioner on the sample cluster, and the version it stores.\<close>

definition sample_run :: "event list" where
  "sample_run = calls_of (ProvisionerReconciler_Reconcile sample_world (ec2_provider sample_world) 0 (''default'', ''web'')) []"

lemma stored_pools_sound_witness:
  "\<exists>pl :: pool. length (Nodes (pool_Status pl)) = 1 \<and> PendingNodes (pool_Status pl) = count_pending (Nodes (pool_Status pl)) \<and>
     int (length (Nodes (pool_Status pl))) \<le> MaxNodes (Scaling (pool_Spec pl))"
proof -
  have "reachable {sample_pool}"
    by (rule reachable.created [OF reachable.start]) (simp_all add: sample_pool_def pool_max_def)
  moreover have "handler_run sample_world (sample_run @ [])"
    unfolding sample_run_def append_Nil2 by (rule handler_run.provision)
  moreover have "set (pools_read sample_run) \<subseteq> {sample_pool}"
    by (simp only: list_all_iff [of "\<lambda>p. p = sample_pool", symmetric] subset_iff singleton_iff Ball_def [symmetric]) code_simp
  ultimately have r: "reachable ({sample_pool} \<union> set (stored sample_run))" by (rule reachable.advanced)
  have "length (stored sample_run) = 1" "map (\<lambda>p. length (Nodes (pool_Status p))) (stored sample_run) = [1]"
    by code_simp+
  then obtain pl where "pl \<in> set (stored sample_run)" "length (Nodes (pool_Status pl)) = 1"
    by (auto simp: length_Suc_conv)
  with stored_pools_sound [OF r, of pl] have "length (Nodes (pool_Status pl)) = 1 \<and>
      PendingNodes (pool_Status pl) = count_pending (Nodes (pool_Status pl)) \<and>
      int (length (Nodes (pool_Status pl))) \<le> MaxNodes (Scaling (pool_Spec pl))" by simp
  then show ?thesis by (rule exI [of _ pl])
qed

text \<open>
  Every status that a handler writes refines the lifecycle: whatever run, failure or answer, the
  write is made on a version the run read or stored before, changes nothing but the status, tracks no
  instance but those of that version and those launched since the last write of the run, and leads from
  the status of that version, when its counters are sound, to the new one by lifecycle steps.
\<close>

theorem handlers_refine_lifecycle:
  assumes "handler_run W (es @ EvUpdateStatus p r # fs)"
  shows "\<exists>b \<in> set (bases es). (\<exists>st. p = b\<lparr>pool_Status := st\<rparr>) \<and>
    tracked (pool_Status p) \<subseteq># tracked (pool_Status b) + foldl at_hand {#} es \<and>
    (pool_ok b \<longrightarrow> (life (set_mset (foldl at_hand {#} es)) (pool_max b))\<^sup>*\<^sup>* (pool_Status b) (pool_Status p))"
  using handler_run_disciplined [OF assms] by (auto simp: disciplined_append follows_def same_version_def)

lemma written_split: "pools_written es \<noteq> [] \<Longrightarrow> \<exists>fs p r gs. es = fs @ EvUpdateStatus p r # gs"
proof (induction es)
  case (Cons e es)
  show ?case
  proof (cases "write_of e = []")
    case True
    with Cons obtain fs p r gs where "e # es = (e # fs) @ EvUpdateStatus p r # gs" by auto
    then show ?thesis by blast
  next
    case False
    then obtain p r where "e # es = [] @ EvUpdateStatus p r # es" by (cases e) auto
    then show ?thesis by blast
  qed
qed simp

lemma handlers_refine_lifecycle_witness:
  "\<exists>es p r fs. sample_run = es @ EvUpdateStatus p r # fs \<and>
     (\<exists>b \<in> set (bases es). pool_ok b \<longrightarrow> (life (set_mset (foldl at_hand {#} es)) (pool_max b))\<^sup>*\<^sup>* (pool_Status b) (pool_Status p))"
proof -
  have "pools_written sample_run \<noteq> []" by code_simp
  then obtain es p r fs where s: "sample_run = es @ EvUpdateStatus p r # fs" by (blast dest: written_split)
  have "handler_run sample_world sample_run" unfolding sample_run_def by (rule handler_run.provision)
  with handlers_refine_lifecycle [of sample_world es p r fs] s show ?thesis by auto
qed

end
