(* ===== verification/Manager.thy ===== *)
theory Manager
  imports Cluster
begin

text \<open>
  \<open>cmd/main.go\<close>: the flags, their defaults, and the values the four reconcilers are built with. The
  steps of the start-up are in \<open>Startup\<close>. The flags that \<open>zap\<close> binds for the logger are left out.
\<close>

section \<open>Flags\<close>

record flags =
  metrics_bind_address :: string
  health_probe_bind_address :: string
  leader_elect :: bool
  metrics_secure :: bool
  webhook_cert_path :: string
  webhook_cert_name :: string
  webhook_cert_key :: string
  metrics_cert_path :: string
  metrics_cert_name :: string
  metrics_cert_key :: string
  enable_http2 :: bool
  pod_unschedulable_grace_period :: duration
  orphan_check_interval :: duration
  reaper_check_interval :: duration

definition default_flags :: flags where
  "default_flags =
     \<lparr>metrics_bind_address = ''0'',
      health_probe_bind_address = '':8081'',
      leader_elect = False,
      metrics_secure = True,
      webhook_cert_path = '''',
      webhook_cert_name = ''tls.crt'',
      webhook_cert_key = ''tls.key'',
      metrics_cert_path = '''',
      metrics_cert_name = ''tls.crt'',
      metrics_cert_key = ''tls.key'',
      enable_http2 = False,
      pod_unschedulable_grace_period = 30 * second,
      orphan_check_interval = 5 * minute,
      reaper_check_interval = 60 * second\<rparr>"

section \<open>The reconcilers as they are built\<close>

definition main_drainer :: drainer where "main_drainer = NewDrainer (2 * minute)"

definition main_provisioner_reconciler :: "world \<Rightarrow> flags \<Rightarrow> provisioner_reconciler" where
  "main_provisioner_reconciler W fl =
     \<lparr>pr_CloudProvider = ec2_provider W, pr_DebouncePeriod = pod_unschedulable_grace_period fl\<rparr>"

definition main_node_ready_reconciler :: "world \<Rightarrow> node_ready_reconciler" where
  "main_node_ready_reconciler W = \<lparr>nr_CloudProvider = ec2_provider W\<rparr>"

definition main_reaper_reconciler :: "world \<Rightarrow> flags \<Rightarrow> reaper_reconciler" where
  "main_reaper_reconciler W fl =
     \<lparr>re_CloudProvider = ec2_provider W, re_Drainer = Some main_drainer, re_CheckInterval = reaper_check_interval fl\<rparr>"

text \<open>The field \<open>BootTimeout\<close> is not set, so it is 0.\<close>

definition main_orphan_reconciler :: "world \<Rightarrow> flags \<Rightarrow> orphan_reconciler" where
  "main_orphan_reconciler W fl =
     \<lparr>or_CloudProvider = ec2_provider W, or_CheckInterval = orphan_check_interval fl, or_BootTimeout = 0\<rparr>"

definition main_provisioner :: "world \<Rightarrow> flags \<Rightarrow> nname \<Rightarrow> reconcile_result io" where
  "main_provisioner W fl = provisioner_handler W (main_provisioner_reconciler W fl)"

definition main_node_ready :: "world \<Rightarrow> string \<Rightarrow> reconcile_result io" where
  "main_node_ready W = node_ready_handler W (main_node_ready_reconciler W)"

definition main_reaper :: "world \<Rightarrow> flags \<Rightarrow> string \<Rightarrow> reconcile_result io" where
  "main_reaper W fl = reaper_handler W (main_reaper_reconciler W fl)"

definition main_orphan :: "world \<Rightarrow> flags \<Rightarrow> reconcile_result io" where
  "main_orphan W fl = orphan_handler W (main_orphan_reconciler W fl)"

definition main_orphan_runner :: "world \<Rightarrow> flags \<Rightarrow> nat \<Rightarrow> unit io" where
  "main_orphan_runner W fl = orphan_runner_start W (new_orphan_runner (main_orphan_reconciler W fl))"

definition main_orphan_interval :: "flags \<Rightarrow> duration" where
  "main_orphan_interval fl = orphan_checkInterval (orphan_check_interval fl)"

lemmas main_handlers = main_provisioner_def provisioner_handler_def main_provisioner_reconciler_def
  main_node_ready_def node_ready_handler_def main_node_ready_reconciler_def
  main_reaper_def reaper_handler_def main_reaper_reconciler_def
  main_orphan_def orphan_handler_def main_orphan_reconciler_def

lemma main_runner_interval:
  "run_interval (new_orphan_runner (main_orphan_reconciler W fl)) = main_orphan_interval fl"
  by (simp add: new_orphan_runner_def main_orphan_reconciler_def main_orphan_interval_def)

text \<open>\<open>time.NewTicker\<close> panics on an interval that is not positive; the runner's never is.\<close>

lemma main_ticker_starts: "0 < main_orphan_interval fl"
  by (simp add: main_orphan_interval_def orphan_checkInterval_def defaultOrphanCheckInterval_def minute_def second_def)

lemma main_handler_runs:
  "handler_run W (calls_of (main_provisioner W fl req) h)"
  "handler_run W (calls_of (main_node_ready W nm) h)"
  "handler_run W (calls_of (main_reaper W fl nm) h)"
  "handler_run W (calls_of (main_orphan W fl) h)"
  by (simp_all add: main_handlers handler_run.intros)

section \<open>Properties\<close>

text \<open>
  C40. The boot timeout of a pool does not bind the orphan check that \<open>main\<close> starts. Let a pending
  entry of a pool be within the boot timeout of the pool, its node not ready yet, and its instance, as
  EC2 describes it, older than the five minutes of the orphan check. Then, with any flags, the
  node-ready handler leaves it alone, changes nothing and asks to be called again, while an orphan check
  that finds no labelled node of that name terminates its instance.
\<close>

theorem main_orphan_ignores_pool_boot_timeout:
  assumes "\<And>h. w_GetNode W h nm = Inr n" and "node_Name n = nm" and "\<not> isNodeReady n"
    and "\<And>h. w_ListPools W h = Inr items" and "first_waiting nm items = Some (pl, j)"
    and "\<And>h. time_sub (w_Now W h) (ns_LaunchedAt (Nodes (pool_Status pl) ! j)) \<le> pool_bootTimeout pl"
    and "\<And>h. w_DescribeInstances W h managed_filters = Inr rs" and "\<forall>i \<in> set (concat rs). ei_State i \<noteq> None"
    and "i \<in> set (concat rs)" and "to_cloud_node i = Inr cn" and "cn_Name cn = nm"
    and "cn_InstanceID cn = ns_InstanceID (Nodes (pool_Status pl) ! j)"
    and "\<And>h. w_ListNodesWithLabel W h (managedLabel, labelValueTrue) = Inr labelled" and "nm \<notin> node_Name ` set labelled"
    and "\<And>h. 5 * minute \<le> time_sub (w_Now W h) (cn_LaunchedAt cn)"
    and "has_prefix nm ''burst-''"
  shows "outcome_of (main_node_ready W nm) h = requeue_after (15 * second) \<and>
    \<not> list_ex is_effect (calls_of (main_node_ready W nm) h) \<and>
    ns_InstanceID (Nodes (pool_Status pl) ! j) \<in> set (terminated (calls_of (main_orphan W fl) h))"
proof -
  have "\<not> pool_bootTimeout pl < time_sub (w_Now W h) (ns_LaunchedAt (Nodes (pool_Status pl) ! j))" for h
    using assms(6) [of h] by simp
  then have "outcome_of (main_node_ready W nm) h = requeue_after (15 * second) \<and>
      \<not> list_ex is_effect (calls_of (main_node_ready W nm) h)"
    using assms(2,3,5,16)
    by (simp add: main_handlers NodeReadyReconciler_Reconcile_def scan_pools_find settle_def check_boot_timeout_def
        world_calls assms(1,4) outcome_of_def calls_of_def Let_def)
  moreover have "cn_InstanceID cn \<in> set (terminated (calls_of (main_orphan W fl) h))"
    using assms(11,14,15) unfolding main_handlers orphan_reconciler.select_convs
    by (intro orphan_due [OF assms(7,8,13,9,10)]) (simp_all add: orphan_bootTimeout_def defaultBootTimeoutOrphan_def)
  ultimately show ?thesis using assms(12) by simp
qed

text \<open>
  A pool that gives its nodes ten minutes to boot, and one pending node six minutes after its launch
  (the clock of the sample world stands at 1000 seconds).
\<close>

definition slow_pool :: pool where
  "slow_pool = sample_pool
     \<lparr>pool_Spec := (pool_Spec sample_pool)\<lparr>Scaling := \<lparr>MaxNodes = 3, CooldownPeriod = 0, BootTimeout = 10 * minute\<rparr>\<rparr>,
      pool_Status := \<lparr>ActiveNodes = 0, PendingNodes = 1,
                      Nodes = [(sample_status Pending)\<lparr>ns_LaunchedAt := 1000 * second - 6 * minute\<rparr>], Conditions = []\<rparr>\<rparr>"

definition slow_instance :: ec2_instance where
  "slow_instance = sample_instance\<lparr>ei_LaunchTime := Some (1000 * second - 6 * minute)\<rparr>"

definition slow_world :: world where
  "slow_world = sample_world
     \<lparr>w_ListPools := \<lambda>h. Inr [slow_pool],
      w_GetNode := \<lambda>h key. Inr (sample_node\<lparr>node_Conditions := []\<rparr>),
      w_DescribeInstances := \<lambda>h fs. Inr [[slow_instance]]\<rparr>"

lemma main_orphan_ignores_pool_boot_timeout_witness:
  "\<not> list_ex is_effect (calls_of (main_node_ready slow_world ''burst-general-00000000'') []) \<and>
   ''i-1'' \<in> set (terminated (calls_of (main_orphan slow_world default_flags) []))"
proof -
  let ?nm = "''burst-general-00000000''"
  have facts: "first_waiting ?nm [slow_pool] = Some (slow_pool, 0)" "\<not> isNodeReady (sample_node\<lparr>node_Conditions := []\<rparr>)"
    "time_sub 1000000000000 (ns_LaunchedAt (Nodes (pool_Status slow_pool) ! 0)) \<le> pool_bootTimeout slow_pool"
    "has_prefix ?nm ''burst-''" "ns_InstanceID (Nodes (pool_Status slow_pool) ! 0) = ''i-1''"
    "5 * minute \<le> time_sub 1000000000000 (1000 * second - 6 * minute)" by code_simp+
  obtain cn where cn: "to_cloud_node slow_instance = Inr cn" "cn_InstanceID cn = ''i-1''"
    "cn_Name cn = ?nm" "cn_LaunchedAt cn = 1000 * second - 6 * minute"
    by (simp add: to_cloud_node_def slow_instance_def sample_instance_def sample_options_def launch_tags_def mk_tag_def
        aws_ToString_def Let_def)
  have "\<not> list_ex is_effect (calls_of (main_node_ready slow_world ?nm) []) \<and>
      ns_InstanceID (Nodes (pool_Status slow_pool) ! 0) \<in> set (terminated (calls_of (main_orphan slow_world default_flags) []))"
    using main_orphan_ignores_pool_boot_timeout [of slow_world ?nm "sample_node\<lparr>node_Conditions := []\<rparr>" "[slow_pool]"
        slow_pool 0 "[[slow_instance]]" slow_instance cn "[]" "[]" default_flags] facts cn
    by (simp add: slow_world_def sample_world_def sample_node_def slow_instance_def sample_instance_def)
  then show ?thesis using facts(5) by simp
qed

end
