(* ===== verification/Metrics.thy ===== *)
theory Metrics
  imports Prelude
begin

text \<open>
  The Prometheus collectors of \<open>internal/metrics/metrics.go\<close>. The bucket function of the Prometheus
  client is a parameter. No code updates the collectors, so their values are not modelled.
\<close>

datatype collector_kind = GaugeVec | CounterVec | HistogramVec "nat list"

record collector =
  co_Kind :: collector_kind
  co_Name :: string
  co_Help :: string
  co_Labels :: "string list"

type_synonym bucket_function = "nat \<Rightarrow> nat \<Rightarrow> nat \<Rightarrow> nat list"

definition NodesActive :: collector where
  "NodesActive =
     \<lparr>co_Kind = GaugeVec, co_Name = ''burst_nodes_active'', co_Help = ''Number of active burst nodes'',
      co_Labels = [''pool'']\<rparr>"

definition NodesProvisionedTotal :: collector where
  "NodesProvisionedTotal =
     \<lparr>co_Kind = CounterVec, co_Name = ''burst_nodes_provisioned_total'',
      co_Help = ''Total number of burst nodes provisioned'', co_Labels = [''pool'']\<rparr>"

definition NodesTerminatedTotal :: collector where
  "NodesTerminatedTotal =
     \<lparr>co_Kind = CounterVec, co_Name = ''burst_nodes_terminated_total'',
      co_Help = ''Total number of burst nodes terminated'', co_Labels = [''pool'']\<rparr>"

definition ProvisionDurationSeconds :: "bucket_function \<Rightarrow> collector" where
  "ProvisionDurationSeconds ExponentialBuckets =
     \<lparr>co_Kind = HistogramVec (ExponentialBuckets 15 2 8), co_Name = ''burst_provision_duration_seconds'',
      co_Help = ''Time from launch to node ready'', co_Labels = [''pool'']\<rparr>"

definition ProvisionFailuresTotal :: collector where
  "ProvisionFailuresTotal =
     \<lparr>co_Kind = CounterVec, co_Name = ''burst_provision_failures_total'',
      co_Help = ''Total number of burst node provision failures'', co_Labels = [''pool'']\<rparr>"

text \<open>What \<open>init\<close> registers.\<close>

definition collectors :: "bucket_function \<Rightarrow> collector list" where
  "collectors eb =
     [NodesActive, NodesProvisionedTotal, NodesTerminatedTotal, ProvisionDurationSeconds eb, ProvisionFailuresTotal]"

text \<open>
  Prometheus accepts a collector when its name is well-formed and not registered yet, its labels are
  well-formed and distinct, and its buckets increase strictly. A label has no colon and does not start
  with two underscores.
\<close>

definition name_start :: "char \<Rightarrow> bool" where
  "name_start c \<longleftrightarrow> c \<in> set ''abcdefghijklmnopqrstuvwxyzABCDEFGHIJKLMNOPQRSTUVWXYZ_:''"

definition metric_name :: "string \<Rightarrow> bool" where
  "metric_name s \<longleftrightarrow>
     (case s of [] \<Rightarrow> False | c # cs \<Rightarrow> name_start c \<and> list_all (\<lambda>d. name_start d \<or> d \<in> set ''0123456789'') cs)"

definition label_name :: "string \<Rightarrow> bool" where
  "label_name s \<longleftrightarrow> metric_name s \<and> CHR '':'' \<notin> set s \<and> take 2 s \<noteq> ''__''"

definition good_collector :: "collector \<Rightarrow> bool" where
  "good_collector c \<longleftrightarrow>
     metric_name (co_Name c) \<and> list_all label_name (co_Labels c) \<and> distinct (co_Labels c) \<and>
     (case co_Kind c of HistogramVec bs \<Rightarrow> bs \<noteq> [] \<and> sorted_wrt (<) bs | _ \<Rightarrow> True)"

text \<open>The documentation of \<open>prometheus.ExponentialBuckets\<close>.\<close>

definition exponential :: "bucket_function \<Rightarrow> bool" where
  "exponential eb \<longleftrightarrow>
     (\<forall>start factor n. 0 < start \<and> 1 < factor \<and> 0 < n \<longrightarrow> eb start factor n = map (\<lambda>i. start * factor ^ i) [0..<n])"

lemma collectors_good:
  assumes "exponential eb"
  shows "list_all good_collector (collectors eb)" and "distinct (map co_Name (collectors eb))"
proof -
  from assms have "eb 15 2 8 = map (\<lambda>i. 15 * 2 ^ i) [0..<8]" by (simp add: exponential_def)
  then have eb: "eb 15 2 8 = [15, 30, 60, 120, 240, 480, 960, 1920]" by (simp add: upt_rec)
  show "list_all good_collector (collectors eb)"
    by (simp add: collectors_def good_collector_def label_name_def metric_name_def name_start_def NodesActive_def
        NodesProvisionedTotal_def NodesTerminatedTotal_def ProvisionDurationSeconds_def ProvisionFailuresTotal_def eb)
  show "distinct (map co_Name (collectors eb))"
    by (simp add: collectors_def NodesActive_def NodesProvisionedTotal_def NodesTerminatedTotal_def
        ProvisionDurationSeconds_def ProvisionFailuresTotal_def)
qed

end
