(* ===== verification/Startup.thy ===== *)
theory Startup
  imports Manager Metrics
begin

text \<open>
  The start of the process: the package initialisers, then \<open>main\<close> of \<open>cmd/main.go\<close>, with the
  \<open>SetupWithManager\<close> functions it calls. Each call to a library that may fail is a \<open>setup_call\<close>
  and answered by the environment, as the calls of the handlers are by the world.
\<close>

section \<open>Server options\<close>

record tls_config =
  NextProtos :: "string list"

type_synonym tls_opts = "(tls_config \<Rightarrow> tls_config) list"

record webhook_options =
  wo_TLSOpts :: tls_opts
  wo_CertDir :: string
  wo_CertName :: string
  wo_KeyName :: string

record metrics_options =
  mo_BindAddress :: string
  mo_SecureServing :: bool
  mo_TLSOpts :: tls_opts
  mo_FilterProvider :: bool
  mo_CertDir :: string
  mo_CertName :: string
  mo_KeyName :: string

record manager_options =
  opt_Metrics :: metrics_options
  opt_WebhookServer :: webhook_options
  opt_HealthProbeBindAddress :: string
  opt_LeaderElection :: bool
  opt_LeaderElectionID :: string

definition disableHTTP2 :: "tls_config \<Rightarrow> tls_config" where
  "disableHTTP2 c = c\<lparr>NextProtos := [''http/1.1'']\<rparr>"

definition main_tlsOpts :: "flags \<Rightarrow> tls_opts" where
  "main_tlsOpts fl = (if \<not> enable_http2 fl then [disableHTTP2] else [])"

definition main_webhook_options :: "flags \<Rightarrow> webhook_options" where
  "main_webhook_options fl =
     (let opts = \<lparr>wo_TLSOpts = main_tlsOpts fl, wo_CertDir = '''', wo_CertName = '''', wo_KeyName = ''''\<rparr>
      in if length (webhook_cert_path fl) > 0
         then opts\<lparr>wo_CertDir := webhook_cert_path fl, wo_CertName := webhook_cert_name fl, wo_KeyName := webhook_cert_key fl\<rparr>
         else opts)"

text \<open>\<open>mo_FilterProvider\<close> says whether authentication and authorization are required.\<close>

definition main_metrics_options :: "flags \<Rightarrow> metrics_options" where
  "main_metrics_options fl =
     (let opts = \<lparr>mo_BindAddress = metrics_bind_address fl, mo_SecureServing = metrics_secure fl,
                  mo_TLSOpts = main_tlsOpts fl, mo_FilterProvider = False,
                  mo_CertDir = '''', mo_CertName = '''', mo_KeyName = ''''\<rparr>;
          opts = (if metrics_secure fl then opts\<lparr>mo_FilterProvider := True\<rparr> else opts)
      in if length (metrics_cert_path fl) > 0
         then opts\<lparr>mo_CertDir := metrics_cert_path fl, mo_CertName := metrics_cert_name fl, mo_KeyName := metrics_cert_key fl\<rparr>
         else opts)"

definition main_manager_options :: "flags \<Rightarrow> manager_options" where
  "main_manager_options fl =
     \<lparr>opt_Metrics = main_metrics_options fl,
      opt_WebhookServer = main_webhook_options fl,
      opt_HealthProbeBindAddress = health_probe_bind_address fl,
      opt_LeaderElection = leader_elect fl,
      opt_LeaderElectionID = ''a71057c3.homelab.dev''\<rparr>"

section \<open>Controllers and their event filters\<close>

record 'o event_filter =
  CreateFunc :: "'o \<Rightarrow> bool"
  UpdateFunc :: "'o \<Rightarrow> 'o \<Rightarrow> bool"
  DeleteFunc :: "'o \<Rightarrow> bool"
  GenericFunc :: "'o \<Rightarrow> bool"

text \<open>A controller: its name, the kind it watches with the filter of its events, and its handler.\<close>

datatype controller =
    PodController string "pod event_filter" "world \<Rightarrow> nname \<Rightarrow> reconcile_result io"
  | NodeController string "node event_filter" "world \<Rightarrow> string \<Rightarrow> reconcile_result io"

definition provisioner_filter :: "pod event_filter" where
  "provisioner_filter =
     \<lparr>CreateFunc = (\<lambda>p. True), UpdateFunc = provisioner_UpdateFunc, DeleteFunc = (\<lambda>p. False), GenericFunc = (\<lambda>p. False)\<rparr>"

definition node_ready_filter :: "node event_filter" where
  "node_ready_filter =
     \<lparr>CreateFunc = (\<lambda>n. True), UpdateFunc = (\<lambda>old new. True), DeleteFunc = (\<lambda>n. False), GenericFunc = (\<lambda>n. False)\<rparr>"

definition reaper_filter :: "node event_filter" where
  "reaper_filter =
     \<lparr>CreateFunc = (\<lambda>n. reaper_event_filter (node_Labels n)),
      UpdateFunc = (\<lambda>old new. reaper_event_filter (node_Labels new)),
      DeleteFunc = (\<lambda>n. False), GenericFunc = (\<lambda>n. False)\<rparr>"

definition MapNodeToPodReconcile :: "node \<Rightarrow> nname list" where
  "MapNodeToPodReconcile n = []"

section \<open>The calls of the start-up\<close>

record group_version =
  gv_Group :: string
  gv_Version :: string

definition GroupVersion :: group_version where
  "GroupVersion = \<lparr>gv_Group = ''burst.homelab.dev'', gv_Version = ''v1alpha1''\<rparr>"

text \<open>The types registered with the scheme builder of the package (\<open>init\<close> of \<open>burstnodepool_types.go\<close>).\<close>

definition SchemeBuilder :: "group_version \<times> string list" where
  "SchemeBuilder = (GroupVersion, [''BurstNodePool'', ''BurstNodePoolList''])"

datatype setup_call =
    MustRegister "collector list"
  | AddClientGoScheme
  | AddToScheme "group_version \<times> string list"
  | GetConfigOrDie
  | NewManager manager_options
  | LoadDefaultConfig
  | NewForConfig
  | IndexField string "pod \<Rightarrow> string list"
  | Complete controller
  | AddRunnable duration "world \<Rightarrow> nat \<Rightarrow> unit io"
  | AddHealthzCheck string
  | AddReadyzCheck string
  | StartManager

text \<open>An event is a call with its answer, \<open>None\<close> for no error.\<close>

type_synonym setup_event = "setup_call \<times> go_error option"
type_synonym 'a start_io = "(setup_event list, 'a) state"
type_synonym environment = "setup_event list \<Rightarrow> setup_call \<Rightarrow> go_error option"

definition setup_step :: "environment \<Rightarrow> setup_call \<Rightarrow> go_error option start_io" where
  "setup_step E c = call (\<lambda>h. E h c) (\<lambda>r. (c, r))"

definition NewEC2Provider :: "environment \<Rightarrow> go_error option start_io" where
  "NewEC2Provider E =
     do {
       err \<leftarrow> setup_step E LoadDefaultConfig;
       State_Monad.return (case err of Some err \<Rightarrow> Some (WrapErr ''loading AWS config'' err) | None \<Rightarrow> None)
     }"

definition provisioner_SetupWithManager :: "environment \<Rightarrow> flags \<Rightarrow> go_error option start_io" where
  "provisioner_SetupWithManager E fl =
     setup_step E (Complete (PodController ''provisioner'' provisioner_filter (\<lambda>W. main_provisioner W fl)))"

definition node_ready_SetupWithManager :: "environment \<Rightarrow> go_error option start_io" where
  "node_ready_SetupWithManager E =
     setup_step E (Complete (NodeController ''nodeready'' node_ready_filter main_node_ready))"

definition reaper_SetupWithManager :: "environment \<Rightarrow> flags \<Rightarrow> go_error option start_io" where
  "reaper_SetupWithManager E fl =
     do {
       err \<leftarrow> setup_step E (IndexField ''spec.nodeName'' nodeName_index);
       (case err of
          Some err \<Rightarrow> State_Monad.return (Some (WrapErr ''setting up field indexer'' err))
        | None \<Rightarrow> setup_step E (Complete (NodeController ''reaper'' reaper_filter (\<lambda>W. main_reaper W fl))))
     }"

definition orphan_SetupWithManager :: "environment \<Rightarrow> flags \<Rightarrow> go_error option start_io" where
  "orphan_SetupWithManager E fl =
     setup_step E (AddRunnable (main_orphan_interval fl) (\<lambda>W. main_orphan_runner W fl))"

section \<open>The process\<close>

text \<open>How the process ends: \<open>main\<close> returns, exits, or the run-time panics.\<close>

datatype process_end = Finished | ExitCode nat | Panicked

definition on_error :: "process_end \<Rightarrow> go_error option start_io \<Rightarrow> process_end start_io \<Rightarrow> process_end start_io" where
  "on_error e m rest =
     do { err \<leftarrow> m; (case err of Some err \<Rightarrow> State_Monad.return e | None \<Rightarrow> rest) }"

text \<open>\<open>if err := m; err != nil \{ ...; os.Exit(1) \}\<close>, and \<open>utilruntime.Must(m)\<close>.\<close>

abbreviation or_exit :: "go_error option start_io \<Rightarrow> process_end start_io \<Rightarrow> process_end start_io" where
  "or_exit \<equiv> on_error (ExitCode 1)"

abbreviation must :: "go_error option start_io \<Rightarrow> process_end start_io \<Rightarrow> process_end start_io" where
  "must \<equiv> on_error Panicked"

definition main_start :: "environment \<Rightarrow> flags \<Rightarrow> process_end start_io" where
  "main_start E fl =
     (or_exit (setup_step E GetConfigOrDie)
     (or_exit (setup_step E (NewManager (main_manager_options fl)))
     (or_exit (NewEC2Provider E)
     (or_exit (setup_step E NewForConfig)
     (or_exit (provisioner_SetupWithManager E fl)
     (or_exit (node_ready_SetupWithManager E)
     (or_exit (reaper_SetupWithManager E fl)
     (or_exit (orphan_SetupWithManager E fl)
     (or_exit (setup_step E (AddHealthzCheck ''healthz''))
     (or_exit (setup_step E (AddReadyzCheck ''readyz''))
     (or_exit (setup_step E StartManager)
     (State_Monad.return Finished))))))))))))"

text \<open>The initialisers: the collectors of package \<open>metrics\<close>, then the scheme of package \<open>main\<close>.\<close>

definition run_program :: "environment \<Rightarrow> bucket_function \<Rightarrow> flags \<Rightarrow> process_end start_io" where
  "run_program E eb fl =
     (must (setup_step E (MustRegister (collectors eb)))
     (must (setup_step E AddClientGoScheme)
     (must (setup_step E (AddToScheme SchemeBuilder))
     (main_start E fl))))"

section \<open>The order of the start-up\<close>

text \<open>Every call of the start-up in order, with how the process ends when it fails.\<close>

definition startup_plan :: "bucket_function \<Rightarrow> flags \<Rightarrow> (setup_call \<times> process_end) list" where
  "startup_plan eb fl =
     map (\<lambda>c. (c, Panicked)) [MustRegister (collectors eb), AddClientGoScheme, AddToScheme SchemeBuilder] @
     map (\<lambda>c. (c, ExitCode 1))
       [GetConfigOrDie,
        NewManager (main_manager_options fl),
        LoadDefaultConfig,
        NewForConfig,
        Complete (PodController ''provisioner'' provisioner_filter (\<lambda>W. main_provisioner W fl)),
        Complete (NodeController ''nodeready'' node_ready_filter main_node_ready),
        IndexField ''spec.nodeName'' nodeName_index,
        Complete (NodeController ''reaper'' reaper_filter (\<lambda>W. main_reaper W fl)),
        AddRunnable (main_orphan_interval fl) (\<lambda>W. main_orphan_runner W fl),
        AddHealthzCheck ''healthz'',
        AddReadyzCheck ''readyz'',
        StartManager]"

text \<open>A run along a plan: up to the first call that fails.\<close>

fun course :: "(setup_call \<times> process_end) list \<Rightarrow> process_end \<Rightarrow> setup_event list \<Rightarrow> bool" where
  "course [] e es \<longleftrightarrow> e = Finished \<and> es = []"
| "course ((c, x) # cs) e es \<longleftrightarrow>
     (\<exists>err. es = [(c, Some err)] \<and> e = x) \<or> (\<exists>fs. es = (c, None) # fs \<and> course cs e fs)"

lemma course_shape:
  "course cs e es \<Longrightarrow> cs \<noteq> [] \<Longrightarrow>
   es \<noteq> [] \<and> map fst es = take (length es) (map fst cs) \<and> list_all (\<lambda>ev. snd ev = None) (butlast es) \<and>
   (case snd (last es) of
      None \<Rightarrow> e = Finished \<and> length es = length cs
    | Some err \<Rightarrow> e = snd (cs ! (length es - 1)))"
proof (induction cs arbitrary: es)
  case (Cons step cs)
  obtain c x where step: "step = (c, x)" by (cases step)
  show ?case
  proof (cases "\<exists>err. es = [(c, Some err)] \<and> e = x")
    case False
    with Cons.prems step obtain fs where fs: "es = (c, None) # fs" "course cs e fs" by auto
    show ?thesis
    proof (cases "cs = []")
      case False
      from Cons.IH [OF fs(2) False] fs(1) step show ?thesis
        by (auto simp: nth_Cons split: option.splits nat.split)
    qed (use fs step in simp)
  qed (auto simp: step)
qed simp

lemma emits_step:
  "(\<And>err. R e [(c, Some err)]) \<Longrightarrow> emits rest (\<lambda>x es. R x ((c, None) # es)) \<Longrightarrow>
   emits (on_error e (setup_step E c) rest) R"
  unfolding on_error_def setup_step_def by (intro emits_rules) (auto intro: emits_return)

lemma on_error_NewEC2Provider:
  "on_error e (NewEC2Provider E) rest = on_error e (setup_step E LoadDefaultConfig) rest"
  by (rule state.expand)
     (auto simp: on_error_def NewEC2Provider_def setup_step_def fun_eq_iff split: option.split prod.split)

lemma on_error_reaper:
  "on_error e (reaper_SetupWithManager E fl) rest =
   on_error e (setup_step E (IndexField ''spec.nodeName'' nodeName_index))
     (on_error e (setup_step E (Complete (NodeController ''reaper'' reaper_filter (\<lambda>W. main_reaper W fl)))) rest)"
  by (rule state.expand)
     (auto simp: on_error_def reaper_SetupWithManager_def setup_step_def fun_eq_iff split: option.split prod.split)

lemma run_program_course: "emits (run_program E eb fl) (course (startup_plan eb fl))"
  unfolding run_program_def main_start_def on_error_NewEC2Provider on_error_reaper
    provisioner_SetupWithManager_def node_ready_SetupWithManager_def orphan_SetupWithManager_def
  by (intro emits_step emits_return) (simp_all add: startup_plan_def)

lemma first_step:
  assumes "emits rest R"
  shows "hd (calls_of (on_error e (setup_step E c) rest) []) = (c, E [] c)"
proof -
  from assms obtain es where "snd (run_state rest [(c, None)]) = [(c, None)] @ es" unfolding emits_def by blast
  then show ?thesis by (simp add: calls_of_def on_error_def setup_step_def split: option.split)
qed

lemma run_program_first:
  "hd (calls_of (run_program E eb fl) []) = (MustRegister (collectors eb), E [] (MustRegister (collectors eb)))"
  unfolding run_program_def main_start_def on_error_NewEC2Provider on_error_reaper
    provisioner_SetupWithManager_def node_ready_SetupWithManager_def orphan_SetupWithManager_def
  by (rule first_step [where R = "\<lambda>_ _. True"], intro emits_step emits_return) simp_all

section \<open>A handler with nothing to do\<close>

definition nothing_to_do :: "reconcile_result io \<Rightarrow> event list \<Rightarrow> bool" where
  "nothing_to_do m h \<longleftrightarrow> outcome_of m h = no_requeue \<and> \<not> acts (calls_of m h)"

lemmas reconcile_defs = main_handlers
  ProvisionerReconciler_Reconcile_def NodeReadyReconciler_Reconcile_def ReaperReconciler_Reconcile_def
  get_pod_def get_node_def

lemma deleted_nothing_to_do:
  "\<forall>h. w_GetPod W h key = Inl (KubeError True msg) \<Longrightarrow> nothing_to_do (main_provisioner W fl key) h"
  "\<forall>h. w_GetNode W h nm = Inl (KubeError True msg) \<Longrightarrow> nothing_to_do (main_node_ready W nm) h"
  "\<forall>h. w_GetNode W h nm = Inl (KubeError True msg) \<Longrightarrow> nothing_to_do (main_reaper W fl nm) h"
  by (simp_all add: nothing_to_do_def outcome_of_def calls_of_def reconcile_defs)

lemma unmanaged_nothing_to_do:
  "\<forall>h. w_GetNode W h nm = Inr n \<Longrightarrow> \<not> managed_node n \<Longrightarrow> nothing_to_do (main_reaper W fl nm) h"
  by (simp add: nothing_to_do_def outcome_of_def calls_of_def reconcile_defs)

lemma schedulable_nothing_to_do:
  "\<forall>h. w_GetPod W h key = Inr p \<Longrightarrow> \<not> IsPodUnschedulable p \<Longrightarrow> nothing_to_do (main_provisioner W fl key) h"
  by (simp add: nothing_to_do_def outcome_of_def calls_of_def reconcile_defs)

lemma reaper_filter_managed: "reaper_event_filter (node_Labels n) = managed_node n"
  by (simp add: reaper_event_filter_def managed_node_def gm_get_def gm_lookup_def labelValueTrue_def split: option.split)

text \<open>The versions of an object are reported in turn: does the event of the \<open>i\<close>-th one wake the handler?\<close>

fun wakes :: "'a event_filter \<Rightarrow> 'a list \<Rightarrow> nat \<Rightarrow> bool" where
  "wakes f vs 0 = CreateFunc f (vs ! 0)"
| "wakes f vs (Suc i) = UpdateFunc f (vs ! i) (vs ! Suc i)"

lemma reaper_wakes: "wakes reaper_filter vs i = managed_node (vs ! i)"
  by (cases i) (simp_all add: reaper_filter_def reaper_filter_managed)

lemma node_ready_wakes: "wakes node_ready_filter vs i"
  by (cases i) (simp_all add: node_ready_filter_def)

lemma provisioner_woken:
  "IsPodUnschedulable (vs ! i) \<Longrightarrow>
   \<exists>k \<le> i. wakes provisioner_filter vs k \<and> (\<forall>j. k \<le> j \<and> j \<le> i \<longrightarrow> IsPodUnschedulable (vs ! j))"
proof (induction i)
  case (Suc i)
  show ?case
  proof (cases "wakes provisioner_filter vs (Suc i)")
    case True
    with Suc.prems show ?thesis by (intro exI [of _ "Suc i"]) (auto simp: le_antisym)
  next
    case False
    with Suc.prems have "IsPodUnschedulable (vs ! i)"
      by (simp add: provisioner_filter_def provisioner_UpdateFunc_def)
    from Suc.IH [OF this] obtain k where "k \<le> i" "wakes provisioner_filter vs k"
      "\<And>j. k \<le> j \<Longrightarrow> j \<le> i \<Longrightarrow> IsPodUnschedulable (vs ! j)" by blast
    with Suc.prems show ?thesis by (intro exI [of _ k]) (auto simp: le_Suc_eq)
  qed
qed (simp add: provisioner_filter_def)

section \<open>Properties\<close>

text \<open>
  C17. The process starts the manager only when everything before has succeeded: the calls of a start-up
  are the first ones of a fixed order, in which the collectors and the scheme come first, then the
  manager and its clients, the four reconcilers and the two checks, then the start; each call but the
  last has succeeded; and a failure of the last ends the process, in the initialisers with a panic,
  in \<open>main\<close> with exit code 1.
\<close>

theorem startup_complete_or_exit:
  "let es = calls_of (run_program E eb fl) h; e = outcome_of (run_program E eb fl) h in
   map fst es = take (length es)
     [MustRegister (collectors eb), AddClientGoScheme, AddToScheme SchemeBuilder, GetConfigOrDie,
      NewManager (main_manager_options fl), LoadDefaultConfig, NewForConfig,
      Complete (PodController ''provisioner'' provisioner_filter (\<lambda>W. main_provisioner W fl)),
      Complete (NodeController ''nodeready'' node_ready_filter main_node_ready),
      IndexField ''spec.nodeName'' nodeName_index,
      Complete (NodeController ''reaper'' reaper_filter (\<lambda>W. main_reaper W fl)),
      AddRunnable (main_orphan_interval fl) (\<lambda>W. main_orphan_runner W fl),
      AddHealthzCheck ''healthz'', AddReadyzCheck ''readyz'', StartManager] \<and>
   list_all (\<lambda>ev. snd ev = None) (butlast es) \<and>
   (case snd (last es) of
      None \<Rightarrow> e = Finished \<and> length es = 15
    | Some err \<Rightarrow> e = (if length es \<le> 3 then Panicked else ExitCode 1))"
proof -
  let ?es = "calls_of (run_program E eb fl) h" and ?e = "outcome_of (run_program E eb fl) h"
  have plan: "map snd (startup_plan eb fl) = replicate 3 Panicked @ replicate 12 (ExitCode 1)"
    by (simp add: startup_plan_def numeral_eq_Suc)
  then have len: "length (startup_plan eb fl) = 15" by (simp add: startup_plan_def)
  from emitsD [OF run_program_course] have "course (startup_plan eb fl) ?e ?es" .
  note course = course_shape [OF this]
  from len have "startup_plan eb fl \<noteq> []" by auto
  from course [OF this, unfolded len] have shape: "?es \<noteq> []"
    "map fst ?es = take (length ?es) (map fst (startup_plan eb fl))" "list_all (\<lambda>ev. snd ev = None) (butlast ?es)"
    "case snd (last ?es) of None \<Rightarrow> ?e = Finished \<and> length ?es = 15
     | Some err \<Rightarrow> ?e = snd (startup_plan eb fl ! (length ?es - 1))" by blast+
  have "length ?es \<le> 15" using arg_cong [OF shape(2), of length] len by simp
  then have i: "length ?es - 1 < length (startup_plan eb fl)" using len by simp
  have "snd (startup_plan eb fl ! (length ?es - 1)) = (if length ?es \<le> 3 then Panicked else ExitCode 1)"
    using arg_cong [OF plan, of "\<lambda>xs. xs ! (length ?es - 1)"] i len shape(1)
    by (auto simp: nth_append split: if_splits)
  with shape show ?thesis by (simp add: Let_def startup_plan_def split: option.splits)
qed


text \<open>A pod that becomes unschedulable and stays so, and a node without labels.\<close>

definition bare_world :: world where
  "bare_world = sample_world\<lparr>w_GetNode := \<lambda>h key. Inr sample_node, w_GetPod := \<lambda>h key. Inr sample_pod\<rparr>"


text \<open>
  Unless HTTP/2 is enabled by its flag, both servers of the manager offer HTTP/1.1 only, whatever
  their configuration was; a metrics endpoint served securely demands authentication; and by default
  the metrics endpoint is off.
\<close>

theorem main_servers_protected:
  "(let mo = opt_Metrics (main_manager_options fl); wo = opt_WebhookServer (main_manager_options fl) in
    (\<forall>c. NextProtos (foldl (\<lambda>c opt. opt c) c (mo_TLSOpts mo)) = (if enable_http2 fl then NextProtos c else [''http/1.1'']) \<and>
         NextProtos (foldl (\<lambda>c opt. opt c) c (wo_TLSOpts wo)) = (if enable_http2 fl then NextProtos c else [''http/1.1''])) \<and>
    mo_FilterProvider mo = mo_SecureServing mo) \<and>
   mo_BindAddress (opt_Metrics (main_manager_options default_flags)) = ''0'' \<and>
   mo_SecureServing (opt_Metrics (main_manager_options default_flags))"
  by (simp add: main_manager_options_def main_metrics_options_def main_webhook_options_def main_tlsOpts_def
      disableHTTP2_def default_flags_def Let_def)

text \<open>
  The registration of the collectors does not stop the process: with the documented buckets all five
  are well-formed with distinct names, the provision time in doubling buckets of 15 to 1920 seconds,
  so a registry that accepts such collectors lets the start-up go on.
\<close>

theorem collectors_register:
  assumes "exponential eb"
    and "\<And>cs. list_all good_collector cs \<Longrightarrow> distinct (map co_Name cs) \<Longrightarrow> E [] (MustRegister cs) = None"
  shows "co_Kind (ProvisionDurationSeconds eb) = HistogramVec [15, 30, 60, 120, 240, 480, 960, 1920] \<and>
    hd (calls_of (run_program E eb fl) []) = (MustRegister (collectors eb), None)"
proof
  from assms(1) have "eb 15 2 8 = map (\<lambda>i. 15 * 2 ^ i) [0..<8]" by (simp add: exponential_def)
  then show "co_Kind (ProvisionDurationSeconds eb) = HistogramVec [15, 30, 60, 120, 240, 480, 960, 1920]"
    by (simp add: ProvisionDurationSeconds_def upt_rec)
  have "E [] (MustRegister (collectors eb)) = None"
    by (rule assms(2) [OF collectors_good [OF assms(1)]])
  then show "hd (calls_of (run_program E eb fl) []) = (MustRegister (collectors eb), None)"
    by (simp add: run_program_first)
qed

text \<open>A registry that refuses collectors that are not well-formed or share a name.\<close>

definition strict_registry :: environment where
  "strict_registry h c =
     (case c of
        MustRegister cs \<Rightarrow>
          if list_all good_collector cs \<and> distinct (map co_Name cs) then None else Some (Plain ''refused'')
      | _ \<Rightarrow> None)"

lemma collectors_register_witness:
  "hd (calls_of (run_program strict_registry (\<lambda>start factor n. map (\<lambda>i. start * factor ^ i) [0..<n]) default_flags) []) =
     (MustRegister (collectors (\<lambda>start factor n. map (\<lambda>i. start * factor ^ i) [0..<n])), None)"
  using collectors_register [where E = strict_registry and fl = default_flags
      and eb = "\<lambda>start factor n. map (\<lambda>i. start * factor ^ i) [0..<n]"]
  by (simp add: exponential_def strict_registry_def)

end
