(* ===== verification/Command_Line.thy ===== *)
theory Command_Line
  imports Startup
begin

text \<open>
  The command line of the manager: \<open>flag.Parse\<close> of Go's library over the flags that \<open>cmd/main.go\<close>
  defines, with \<open>strconv.ParseBool\<close> and \<open>time.ParseDuration\<close>, and the process from its arguments to
  its end. The flags that other packages define (those of \<open>zap\<close> and \<open>kubeconfig\<close>) are a parameter.
\<close>

section \<open>Numbers and durations\<close>

definition is_digit :: "char \<Rightarrow> bool" where
  "is_digit c \<longleftrightarrow> 48 \<le> (of_char c :: nat) \<and> (of_char c :: nat) \<le> 57"

definition digit_value :: "char \<Rightarrow> int" where
  "digit_value c = int (of_char c) - 48"

text \<open>\<open>leadingInt\<close>: the value of the leading digits and the rest, or an overflow.\<close>

fun leading_int :: "string \<Rightarrow> int \<Rightarrow> (int \<times> string) option" where
  "leading_int [] x = Some (x, [])"
| "leading_int (c # s) x =
     (if \<not> is_digit c then Some (x, c # s)
      else if x > 2 ^ 63 div 10 then None
      else let x = x * 10 + digit_value c
           in if x > 2 ^ 63 then None else leading_int s x)"

text \<open>\<open>leadingFraction\<close>: digits after the point, their number \<open>k\<close> and the rest; later ones are dropped.\<close>

fun leading_fraction :: "string \<Rightarrow> int \<Rightarrow> nat \<Rightarrow> bool \<Rightarrow> int \<times> nat \<times> string" where
  "leading_fraction [] x k overflow = (x, k, [])"
| "leading_fraction (c # s) x k overflow =
     (if \<not> is_digit c then (x, k, c # s)
      else if overflow then leading_fraction s x k True
      else if x > (2 ^ 63 - 1) div 10 then leading_fraction s x k True
      else let y = x * 10 + digit_value c
           in if y > 2 ^ 63 then leading_fraction s x k True else leading_fraction s y (Suc k) False)"

text \<open>The two spellings of microseconds with a mu, U+00B5 and U+03BC, in UTF-8.\<close>

definition unitMap :: "(string \<times> int) list" where
  "unitMap =
     [(''ns'', 1), (''us'', 10 ^ 3), ([CHR 0xC2, CHR 0xB5, CHR ''s''], 10 ^ 3),
      ([CHR 0xCE, CHR 0xBC, CHR ''s''], 10 ^ 3), (''ms'', 10 ^ 6), (''s'', second), (''m'', minute), (''h'', 60 * minute)]"

text \<open>\<open>uint64(float64(f) * (float64(unit) / 10^k))\<close>, computed in floating point.\<close>

type_synonym fraction = "int \<Rightarrow> nat \<Rightarrow> int \<Rightarrow> int"

definition in_number :: "char \<Rightarrow> bool" where
  "in_number c \<longleftrightarrow> c = CHR ''.'' \<or> is_digit c"

text \<open>The fraction after the whole number, if there is one: value, digits, whether it has any, the rest.\<close>

definition fraction_part :: "string \<Rightarrow> int \<times> nat \<times> bool \<times> string" where
  "fraction_part s =
     (case s of
        [] \<Rightarrow> (0, 0, False, s)
      | c # t \<Rightarrow>
          (if c = CHR ''.''
           then (let (f, k, rest) = leading_fraction t 0 0 False in (f, k, length t \<noteq> length rest, rest))
           else (0, 0, False, s)))"

text \<open>One number with its unit: the nanoseconds and the rest.\<close>

definition duration_term :: "fraction \<Rightarrow> string \<Rightarrow> (int \<times> string) option" where
  "duration_term fr s =
     (if s = [] \<or> \<not> in_number (hd s) then None
      else case leading_int s 0 of
        None \<Rightarrow> None
      | Some (v, s1) \<Rightarrow>
          (let pre = (length s \<noteq> length s1);
               (f, k, post, s2) = fraction_part s1;
               u = takeWhile (\<lambda>c. \<not> in_number c) s2;
               s3 = dropWhile (\<lambda>c. \<not> in_number c) s2
           in if \<not> pre \<and> \<not> post then None
              else if u = [] then None
              else case map_of unitMap u of
                None \<Rightarrow> None
              | Some unit \<Rightarrow>
                  if v > 2 ^ 63 div unit then None
                  else let v = v * unit
                       in if f > 0
                          then (let v = v + fr f k unit in if v > 2 ^ 63 then None else Some (v, s3))
                          else Some (v, s3)))"

lemma leading_int_length: "leading_int s x = Some (v, r) \<Longrightarrow> length r \<le> length s"
  by (induction s x rule: leading_int.induct) (auto simp: Let_def split: if_splits)

lemma leading_fraction_length: "length (snd (snd (leading_fraction s x k b))) \<le> length s"
  by (induction s arbitrary: x k b) (auto simp: Let_def intro: le_SucI)

lemma fraction_part_length: "fraction_part s = (f, k, b, r) \<Longrightarrow> length r \<le> length s"
  using leading_fraction_length [of "tl s" 0 0 False]
  by (auto simp: fraction_part_def split: list.splits if_splits prod.splits)

lemma duration_term_shorter: "duration_term fr s = Some (v, r) \<Longrightarrow> length r < length s"
proof -
  assume t: "duration_term fr s = Some (v, r)"
  obtain w s1 where w: "leading_int s 0 = Some (w, s1)"
    using t by (auto simp: duration_term_def split: if_splits option.splits)
  obtain f k b s2 where f: "fraction_part s1 = (f, k, b, s2)" by (metis prod_cases4)
  from t w f have u: "takeWhile (\<lambda>c. \<not> in_number c) s2 \<noteq> []" "r = dropWhile (\<lambda>c. \<not> in_number c) s2"
    by (auto simp: duration_term_def Let_def split: if_splits option.splits)
  have "length s2 = length (takeWhile (\<lambda>c. \<not> in_number c) s2) + length r"
    unfolding u(2) by (metis length_append takeWhile_dropWhile_id)
  moreover have "0 < length (takeWhile (\<lambda>c. \<not> in_number c) s2)" using u(1) by blast
  ultimately show ?thesis using leading_int_length [OF w] fraction_part_length [OF f] by linarith
qed

text \<open>The loop of \<open>ParseDuration\<close>; the sum is a \<open>uint64\<close>.\<close>

function duration_loop :: "fraction \<Rightarrow> string \<Rightarrow> int \<Rightarrow> int option" where
  "duration_loop fr s d =
     (if s = [] then Some d
      else case duration_term fr s of
        None \<Rightarrow> None
      | Some (v, rest) \<Rightarrow>
          (let d = (d + v) mod 2 ^ 64 in if d > 2 ^ 63 then None else duration_loop fr rest d))"
  by pat_completeness auto

termination
  by (relation "measure (\<lambda>(fr, s, d). length s)") (auto dest: duration_term_shorter)

declare duration_loop.simps [simp del]

definition ParseDuration :: "fraction \<Rightarrow> string \<Rightarrow> duration option" where
  "ParseDuration fr s =
     (let signed = (s \<noteq> [] \<and> (hd s = CHR ''-'' \<or> hd s = CHR ''+''));
          neg = (signed \<and> hd s = CHR ''-'');
          s = (if signed then tl s else s)
      in if s = ''0'' then Some 0
         else if s = [] then None
         else case duration_loop fr s 0 of
           None \<Rightarrow> None
         | Some d \<Rightarrow>
             if neg then Some (int64 (- int64 d))
             else if d > 2 ^ 63 - 1 then None
             else Some d)"

definition ParseBool :: "string \<Rightarrow> bool option" where
  "ParseBool s =
     (if s \<in> {''1'', ''t'', ''T'', ''TRUE'', ''true'', ''True''} then Some True
      else if s \<in> {''0'', ''f'', ''F'', ''FALSE'', ''false'', ''False''} then Some False
      else None)"

section \<open>Flags and arguments\<close>

datatype flag_kind =
    StringFlag "string \<Rightarrow> flags \<Rightarrow> flags"
  | BoolFlag "bool \<Rightarrow> flags \<Rightarrow> flags"
  | DurationFlag "duration \<Rightarrow> flags \<Rightarrow> flags"

text \<open>The flags \<open>main\<close> defines and the variables they set.\<close>

definition main_flags :: "(string \<times> flag_kind) list" where
  "main_flags =
     [(''metrics-bind-address'', StringFlag (\<lambda>v fl. fl\<lparr>metrics_bind_address := v\<rparr>)),
      (''health-probe-bind-address'', StringFlag (\<lambda>v fl. fl\<lparr>health_probe_bind_address := v\<rparr>)),
      (''leader-elect'', BoolFlag (\<lambda>v fl. fl\<lparr>leader_elect := v\<rparr>)),
      (''metrics-secure'', BoolFlag (\<lambda>v fl. fl\<lparr>metrics_secure := v\<rparr>)),
      (''webhook-cert-path'', StringFlag (\<lambda>v fl. fl\<lparr>webhook_cert_path := v\<rparr>)),
      (''webhook-cert-name'', StringFlag (\<lambda>v fl. fl\<lparr>webhook_cert_name := v\<rparr>)),
      (''webhook-cert-key'', StringFlag (\<lambda>v fl. fl\<lparr>webhook_cert_key := v\<rparr>)),
      (''metrics-cert-path'', StringFlag (\<lambda>v fl. fl\<lparr>metrics_cert_path := v\<rparr>)),
      (''metrics-cert-name'', StringFlag (\<lambda>v fl. fl\<lparr>metrics_cert_name := v\<rparr>)),
      (''metrics-cert-key'', StringFlag (\<lambda>v fl. fl\<lparr>metrics_cert_key := v\<rparr>)),
      (''enable-http2'', BoolFlag (\<lambda>v fl. fl\<lparr>enable_http2 := v\<rparr>)),
      (''pod-unschedulable-grace-period'', DurationFlag (\<lambda>v fl. fl\<lparr>pod_unschedulable_grace_period := v\<rparr>)),
      (''orphan-check-interval'', DurationFlag (\<lambda>v fl. fl\<lparr>orphan_check_interval := v\<rparr>)),
      (''reaper-check-interval'', DurationFlag (\<lambda>v fl. fl\<lparr>reaper_check_interval := v\<rparr>))]"

text \<open>Setting a flag from its text; \<open>None\<close> is an invalid value.\<close>

fun set_flag :: "fraction \<Rightarrow> flag_kind \<Rightarrow> string \<Rightarrow> flags \<Rightarrow> flags option" where
  "set_flag fr (StringFlag f) v fl = Some (f v fl)"
| "set_flag fr (BoolFlag f) v fl = (case ParseBool v of None \<Rightarrow> None | Some b \<Rightarrow> Some (f b fl))"
| "set_flag fr (DurationFlag f) v fl = (case ParseDuration fr v of None \<Rightarrow> None | Some d \<Rightarrow> Some (f d fl))"

fun is_bool_flag :: "flag_kind \<Rightarrow> bool" where
  "is_bool_flag (BoolFlag f) = True"
| "is_bool_flag _ = False"

text \<open>
  The flags of other packages: whether the flag is boolean, and which values it takes.
\<close>

type_synonym other_flags = "string \<Rightarrow> (bool \<times> (string \<Rightarrow> bool)) option"

definition find_flag ::
  "other_flags \<Rightarrow> fraction \<Rightarrow> string \<Rightarrow> (bool \<times> (string \<Rightarrow> flags \<Rightarrow> flags option)) option" where
  "find_flag others fr name =
     (case map_of main_flags name of
        Some k \<Rightarrow> Some (is_bool_flag k, set_flag fr k)
      | None \<Rightarrow>
          (case others name of
             None \<Rightarrow> None
           | Some (b, ok) \<Rightarrow> Some (b, \<lambda>v fl. if ok v then Some fl else None)))"

text \<open>The name of an argument ends at the first \<open>=\<close> after its first character.\<close>

definition split_value :: "string \<Rightarrow> string \<times> string option" where
  "split_value s =
     (let name = take 1 s @ takeWhile (\<lambda>c. c \<noteq> CHR ''='') (drop 1 s);
          rest = dropWhile (\<lambda>c. c \<noteq> CHR ''='') (drop 1 s)
      in (name, if rest = [] then None else Some (tl rest)))"

datatype parse_result = Parsed flags | Help | Invalid

definition and_then :: "flags option \<Rightarrow> (flags \<Rightarrow> parse_result) \<Rightarrow> parse_result" where
  "and_then r f = (case r of None \<Rightarrow> Invalid | Some fl \<Rightarrow> f fl)"

lemma and_then_cong [fundef_cong]:
  "r = r' \<Longrightarrow> (\<And>fl. r' = Some fl \<Longrightarrow> f fl = g fl) \<Longrightarrow> and_then r f = and_then r' g"
  by (auto simp: and_then_def split: option.split)

text \<open>\<open>FlagSet.Parse\<close>: one argument after the other, until one is no flag.\<close>

fun parse_args :: "other_flags \<Rightarrow> fraction \<Rightarrow> string list \<Rightarrow> flags \<Rightarrow> parse_result" where
  "parse_args others fr [] fl = Parsed fl"
| "parse_args others fr (s # args) fl =
     (if length s < 2 \<or> s ! 0 \<noteq> CHR ''-'' then Parsed fl
      else if s = ''--'' then Parsed fl
      else let name = (if s ! 1 = CHR ''-'' then drop 2 s else drop 1 s)
           in if name = [] \<or> hd name = CHR ''-'' \<or> hd name = CHR ''='' then Invalid
              else case find_flag others fr (fst (split_value name)) of
                None \<Rightarrow> if fst (split_value name) \<in> {''help'', ''h''} then Help else Invalid
              | Some (is_bool, set_value) \<Rightarrow>
                  (case snd (split_value name) of
                     Some v \<Rightarrow> and_then (set_value v fl) (parse_args others fr args)
                   | None \<Rightarrow>
                       if is_bool then and_then (set_value ''true'' fl) (parse_args others fr args)
                       else case args of
                         [] \<Rightarrow> Invalid
                       | v # args' \<Rightarrow> and_then (set_value v fl) (parse_args others fr args')))"

text \<open>
  \<open>flag.Parse\<close> of the library: its flag set is \<open>ExitOnError\<close>, so it exits with code 2 on an invalid
  command line and with 0 when it was asked for help, and returns otherwise.
\<close>

definition flag_Parse :: "other_flags \<Rightarrow> fraction \<Rightarrow> string list \<Rightarrow> flags \<Rightarrow> process_end + flags" where
  "flag_Parse others fr args fl =
     (case parse_args others fr args fl of
        Parsed fl \<Rightarrow> Inr fl
      | Help \<Rightarrow> Inl (ExitCode 0)
      | Invalid \<Rightarrow> Inl (ExitCode 2))"

section \<open>The process\<close>

text \<open>From the arguments to the end of the process: the initialisers run first.\<close>

definition run_command ::
  "environment \<Rightarrow> bucket_function \<Rightarrow> other_flags \<Rightarrow> fraction \<Rightarrow> string list \<Rightarrow> process_end start_io" where
  "run_command E eb others fr args =
     (must (setup_step E (MustRegister (collectors eb)))
     (must (setup_step E AddClientGoScheme)
     (must (setup_step E (AddToScheme SchemeBuilder))
     (case flag_Parse others fr args default_flags of
        Inl exit \<Rightarrow> State_Monad.return exit
      | Inr fl \<Rightarrow> main_start E fl))))"

section \<open>Writing a command line\<close>

definition digit_char :: "nat \<Rightarrow> char" where
  "digit_char n = char_of (48 + n)"

fun decimal :: "nat \<Rightarrow> string" where
  "decimal n = (if n < 10 then [digit_char n] else decimal (n div 10) @ [digit_char (n mod 10)])"

declare decimal.simps [simp del]

definition duration_text :: "duration \<Rightarrow> string" where
  "duration_text d = (if d < 0 then ''-'' else '''') @ decimal (nat (abs d)) @ ''ns''"

definition bool_text :: "bool \<Rightarrow> string" where
  "bool_text b = (if b then ''true'' else ''false'')"

definition flag_arg :: "string \<Rightarrow> string \<Rightarrow> string" where
  "flag_arg name v = ''--'' @ name @ ''='' @ v"

definition command_line :: "flags \<Rightarrow> string list" where
  "command_line fl =
     [flag_arg ''metrics-bind-address'' (metrics_bind_address fl),
      flag_arg ''health-probe-bind-address'' (health_probe_bind_address fl),
      flag_arg ''leader-elect'' (bool_text (leader_elect fl)),
      flag_arg ''metrics-secure'' (bool_text (metrics_secure fl)),
      flag_arg ''webhook-cert-path'' (webhook_cert_path fl),
      flag_arg ''webhook-cert-name'' (webhook_cert_name fl),
      flag_arg ''webhook-cert-key'' (webhook_cert_key fl),
      flag_arg ''metrics-cert-path'' (metrics_cert_path fl),
      flag_arg ''metrics-cert-name'' (metrics_cert_name fl),
      flag_arg ''metrics-cert-key'' (metrics_cert_key fl),
      flag_arg ''enable-http2'' (bool_text (enable_http2 fl)),
      flag_arg ''pod-unschedulable-grace-period'' (duration_text (pod_unschedulable_grace_period fl)),
      flag_arg ''orphan-check-interval'' (duration_text (orphan_check_interval fl)),
      flag_arg ''reaper-check-interval'' (duration_text (reaper_check_interval fl))]"

lemma digit_char_facts [simp]:
  "n < 10 \<Longrightarrow> is_digit (digit_char n)" "n < 10 \<Longrightarrow> digit_value (digit_char n) = int n"
  by (simp_all add: is_digit_def digit_char_def digit_value_def)

text \<open>Reading the digits of a number back, up to the bound of \<open>leadingInt\<close>.\<close>

lemma leading_int_decimal:
  "int n \<le> 2 ^ 63 \<Longrightarrow> leading_int (decimal n @ s) 0 = leading_int s (int n)"
proof (induction n arbitrary: s rule: decimal.induct)
  case (1 n)
  show ?case
  proof (cases "n < 10")
    case True
    then show ?thesis by (simp add: decimal.simps [of n] Let_def)
  next
    case False
    have m: "n mod 10 < 10" by simp
    have d: "int n = int (n div 10) * 10 + int (n mod 10)"
      by (metis div_mult_mod_eq of_nat_add of_nat_mult of_nat_numeral)
    with 1(2) have "int (n div 10) \<le> 2 ^ 63" "int (n div 10) \<le> 2 ^ 63 div 10" by auto
    with 1(1) [OF False, of "digit_char (n mod 10) # s"] False 1(2) d m show ?thesis
      by (simp add: decimal.simps [of n] Let_def)
  qed
qed

lemma decimal_head: "\<exists>c s. decimal n = c # s \<and> is_digit c"
proof (induction n rule: decimal.induct)
  case (1 n)
  then show ?case by (cases "n < 10") (auto simp: decimal.simps [of n])
qed

lemma digit_no_sign: "is_digit c \<Longrightarrow> c \<noteq> CHR ''-'' \<and> c \<noteq> CHR ''+''"
  by (auto simp: is_digit_def)

lemma duration_loop_decimal:
  assumes "int n \<le> 2 ^ 63"
  shows "duration_loop fr (decimal n @ ''ns'') 0 = Some (int n)"
proof -
  obtain c s where d: "decimal n = c # s" "is_digit c" using decimal_head by blast
  have l: "leading_int (decimal n @ ''ns'') 0 = Some (int n, ''ns'')"
    using leading_int_decimal [OF assms, of "''ns''"] by (simp add: is_digit_def)
  have t: "duration_term fr (decimal n @ ''ns'') = Some (int n, [])"
    using l d assms
    by (simp add: duration_term_def in_number_def fraction_part_def unitMap_def is_digit_def)
  have "duration_loop fr (decimal n @ ''ns'') 0 = duration_loop fr [] (int n)"
    using assms by (subst duration_loop.simps) (simp add: t)
  also have "\<dots> = Some (int n)" by (subst duration_loop.simps) simp
  finally show ?thesis .
qed

lemma ParseDuration_text:
  assumes "- (2 ^ 63) \<le> d" "d < 2 ^ 63"
  shows "ParseDuration fr (duration_text d) = Some d"
proof -
  obtain c s where c: "decimal (nat (abs d)) = c # s" "is_digit c" using decimal_head by blast
  have l: "duration_loop fr (decimal (nat (abs d)) @ ''ns'') 0 = Some (abs d)"
    using duration_loop_decimal [of "nat (abs d)" fr] assms by simp
  show ?thesis
  proof (cases "d < 0")
    case True
    then have "int64 (- int64 (abs d)) = d"
      using assms by (cases "d = - (2 ^ 63)") (simp add: int64_def, simp add: go_int)
    with True l c show ?thesis by (simp add: ParseDuration_def duration_text_def)
  next
    case False
    with l c assms digit_no_sign [OF c(2)] show ?thesis by (simp add: ParseDuration_def duration_text_def)
  qed
qed

lemma ParseBool_text [simp]: "ParseBool (bool_text b) = Some b"
  by (simp add: ParseBool_def bool_text_def)

text \<open>An argument \<open>--name=value\<close> sets the flag of that name.\<close>

lemma split_value_arg:
  assumes "name \<noteq> []" "CHR ''='' \<notin> set name"
  shows "split_value (name @ ''='' @ v) = (name, Some v)"
proof -
  obtain c s where n: "name = c # s" using assms(1) by (cases name) auto
  with assms(2) have "\<forall>x \<in> set s. x \<noteq> CHR ''=''" by auto
  then have "takeWhile (\<lambda>c. c \<noteq> CHR ''='') (s @ CHR ''='' # v) = s"
    "dropWhile (\<lambda>c. c \<noteq> CHR ''='') (s @ CHR ''='' # v) = CHR ''='' # v"
    by (simp_all add: takeWhile_append dropWhile_append)
  with n show ?thesis by (simp add: split_value_def)
qed

lemma parse_flag_arg:
  assumes "map_of main_flags name \<noteq> None" "name \<noteq> []" "hd name \<noteq> CHR ''-''" "CHR ''='' \<notin> set name"
  shows "parse_args others fr (flag_arg name v # args) fl =
    and_then (set_flag fr (the (map_of main_flags name)) v fl) (parse_args others fr args)"
proof -
  obtain c s where n: "name = c # s" using assms(2) by (cases name) auto
  with assms(4) have "c \<noteq> CHR ''=''" by auto
  with n assms(3) split_value_arg [OF assms(2,4), of v] assms(1) show ?thesis
    by (auto simp: flag_arg_def find_flag_def)
qed

lemma parse_command_line:
  assumes "\<forall>d \<in> {pod_unschedulable_grace_period fl, orphan_check_interval fl, reaper_check_interval fl}.
    - (2 ^ 63) \<le> d \<and> d < 2 ^ 63"
  shows "parse_args others fr (command_line fl @ args) fl0 = parse_args others fr args fl"
proof -
  have d: "ParseDuration fr (duration_text d) = Some d"
    if "d \<in> {pod_unschedulable_grace_period fl, orphan_check_interval fl, reaper_check_interval fl}" for d
    using that assms by (intro ParseDuration_text) auto
  show ?thesis
    unfolding command_line_def
    by (simp add: parse_flag_arg main_flags_def and_then_def d del: parse_args.simps)
      (rule arg_cong [where f = "parse_args others fr args"], simp)
qed

section \<open>Arguments that stop the process\<close>

definition flag_name :: "string \<Rightarrow> bool" where
  "flag_name name \<longleftrightarrow> name \<noteq> [] \<and> hd name \<noteq> CHR ''-'' \<and> CHR ''='' \<notin> set name"

text \<open>The arguments from some point on, and the exit code.\<close>

inductive stops :: "other_flags \<Rightarrow> string list \<Rightarrow> nat \<Rightarrow> bool" where
  no_boolean: "map_of main_flags name = Some (BoolFlag f) \<Longrightarrow>
     v \<notin> {''1'', ''t'', ''T'', ''TRUE'', ''true'', ''True'', ''0'', ''f'', ''F'', ''FALSE'', ''false'', ''False''} \<Longrightarrow>
     stops others (flag_arg name v # args) 2"
| no_unit: "map_of main_flags name = Some (DurationFlag f) \<Longrightarrow> list_all is_digit v \<Longrightarrow> v \<noteq> ''0'' \<Longrightarrow>
     stops others (flag_arg name v # args) 2"
| no_value: "map_of main_flags name = Some k \<Longrightarrow> \<not> is_bool_flag k \<Longrightarrow> stops others [''--'' @ name] 2"
| unknown: "flag_name name \<Longrightarrow> map_of main_flags name = None \<Longrightarrow> others name = None \<Longrightarrow> name \<notin> {''help'', ''h''} \<Longrightarrow>
     s \<in> {''--'' @ name, flag_arg name v} \<Longrightarrow> stops others (s # args) 2"
| usage: "name \<in> {''help'', ''h''} \<Longrightarrow> others name = None \<Longrightarrow> stops others ((''--'' @ name) # args) 0"

lemma main_flag_name: "map_of main_flags name = Some k \<Longrightarrow> flag_name name"
  by (auto simp: main_flags_def flag_name_def split: if_splits)

lemma split_value_plain: "flag_name name \<Longrightarrow> split_value name = (name, None)"
  by (cases name) (auto simp: split_value_def flag_name_def takeWhile_eq_all_conv dropWhile_eq_Nil_conv)

text \<open>What \<open>Parse\<close> does with \<open>--name\<close> and with \<open>--name=v\<close>.\<close>

lemma parse_plain:
  assumes "flag_name name"
  shows "parse_args others fr ((''--'' @ name) # args) fl =
    (case find_flag others fr name of
       None \<Rightarrow> if name \<in> {''help'', ''h''} then Help else Invalid
     | Some (is_bool, set_value) \<Rightarrow>
         if is_bool then and_then (set_value ''true'' fl) (parse_args others fr args)
         else case args of [] \<Rightarrow> Invalid | v # args' \<Rightarrow> and_then (set_value v fl) (parse_args others fr args'))"
proof -
  obtain c s where n: "name = c # s" using assms by (cases name) (auto simp: flag_name_def)
  with assms have "c \<noteq> CHR ''='' \<and> c \<noteq> CHR ''-''" by (auto simp: flag_name_def)
  with n split_value_plain [OF assms] show ?thesis by (auto split: option.split)
qed

lemma parse_valued:
  assumes "flag_name name"
  shows "parse_args others fr (flag_arg name v # args) fl =
    (case find_flag others fr name of
       None \<Rightarrow> if name \<in> {''help'', ''h''} then Help else Invalid
     | Some (is_bool, set_value) \<Rightarrow> and_then (set_value v fl) (parse_args others fr args))"
proof -
  obtain c s where n: "name = c # s" using assms by (cases name) (auto simp: flag_name_def)
  with assms have "c \<noteq> CHR ''='' \<and> c \<noteq> CHR ''-''" by (auto simp: flag_name_def)
  moreover from assms have "split_value (name @ ''='' @ v) = (name, Some v)"
    by (intro split_value_arg) (auto simp: flag_name_def)
  ultimately show ?thesis using n
    by (cases "find_flag others fr name") (simp_all add: flag_arg_def split_beta)
qed

lemma leading_int_digits: "list_all is_digit s \<Longrightarrow> leading_int s x = None \<or> (\<exists>n. leading_int s x = Some (n, []))"
  by (induction s x rule: leading_int.induct) (auto simp: Let_def)

lemma ParseDuration_no_unit:
  assumes "list_all is_digit v" "v \<noteq> ''0''"
  shows "ParseDuration fr v = None"
proof (cases v)
  case (Cons c s)
  with assms(1) digit_no_sign [of c] have c: "is_digit c" "c \<noteq> CHR ''-''" "c \<noteq> CHR ''+''" by auto
  have "duration_term fr v = None"
    using leading_int_digits [OF assms(1), of 0]
    by (auto simp: duration_term_def fraction_part_def split: option.split)
  with Cons have "duration_loop fr v 0 = None" by (subst duration_loop.simps) simp
  with Cons c assms(2) show ?thesis by (auto simp: ParseDuration_def Let_def)
qed (simp add: ParseDuration_def)

lemma stops_parsing:
  "stops others args code \<Longrightarrow>
   parse_args others fr args fl = (if code = 0 then Help else Invalid) \<and> code \<in> {0, 2}"
proof (induction rule: stops.induct)
  case (no_boolean name f v others args)
  then show ?case
    by (simp add: parse_valued [OF main_flag_name] find_flag_def ParseBool_def and_then_def del: parse_args.simps(2))
next
  case (no_unit name f v others args)
  then show ?case
    by (simp add: parse_valued [OF main_flag_name] find_flag_def ParseDuration_no_unit and_then_def del: parse_args.simps(2))
next
  case (no_value name k others)
  then show ?case
    by (simp only: parse_plain [OF main_flag_name]) (simp add: find_flag_def)
next
  case (unknown name others s v args)
  have "parse_args others fr ((''--'' @ name) # args) fl = Invalid" "parse_args others fr (flag_arg name v # args) fl = Invalid"
    using unknown(2-4) unfolding parse_plain [OF unknown(1)] parse_valued [OF unknown(1)] by (simp_all add: find_flag_def)
  moreover from unknown(5) have "s = ''--'' @ name \<or> s = flag_arg name v" by blast
  ultimately have "parse_args others fr (s # args) fl = Invalid" by metis
  then show ?case by (simp only: simp_thms) simp
next
  case (usage name others args)
  from usage(1) have "name = ''help'' \<or> name = ''h''" by simp
  then have "flag_name name \<and> map_of main_flags name = None" by (elim disjE) (simp_all add: flag_name_def main_flags_def)
  then have "flag_name name" "map_of main_flags name = None" by auto
  with usage(2) have "find_flag others fr name = None" by (simp add: find_flag_def)
  with usage(1) have "parse_args others fr ((''--'' @ name) # args) fl = Help"
    unfolding parse_plain [OF \<open>flag_name name\<close>] by (simp only: option.case if_True)
  then show ?case by (simp only: simp_thms) simp
qed

section \<open>Properties\<close>

lemma run_command_program:
  "parse_args others fr args default_flags = Parsed fl \<Longrightarrow> run_command E eb others fr args = run_program E eb fl"
  by (simp add: run_command_def run_program_def flag_Parse_def)

text \<open>
  C33. Every configuration of the controller can be given on the command line: with every flag written
  out as \<open>--name=value\<close>, durations in nanoseconds, the process starts with exactly these values,
  whatever other flags there are and whatever strings the values are.
\<close>

theorem command_line_configures:
  assumes "\<forall>d \<in> {pod_unschedulable_grace_period fl, orphan_check_interval fl, reaper_check_interval fl}.
    - (2 ^ 63) \<le> d \<and> d < 2 ^ 63"
  shows "run_command E eb others fr (command_line fl) = run_program E eb fl"
  by (rule run_command_program) (simp add: parse_command_line [OF assms, of others fr "[]", unfolded append_Nil2])

lemma command_line_configures_witness:
  "\<forall>E eb others fr. run_command E eb others fr (command_line (default_flags\<lparr>reaper_check_interval := - 5, metrics_bind_address := ''=--''\<rparr>)) =
   run_program E eb (default_flags\<lparr>reaper_check_interval := - 5, metrics_bind_address := ''=--''\<rparr>)"
  by (intro allI command_line_configures) (simp add: default_flags_def second_def minute_def)



end
