(* ===== verification/Go_Heap.thy ===== *)
theory Go_Heap
  imports Prelude
begin

text \<open>
  Memory as the generated copy functions use it. A heap is the list of its blocks, the address of
  a block is its position, and allocation appends, so an address is fresh exactly when it is not
  below the length of the heap. A block holds an array of one Go type (\<open>new(T)\<close> is an array of
  length one) or the entries of a map. The type of a block is a parameter \<open>T\<close>: how an array of
  \<open>T\<close> is kept in a block, and the zero value of \<open>T\<close>.
\<close>

section \<open>Blocks\<close>

type_synonym addr = nat
type_synonym 'b heap = "'b list"

text \<open>A pointer is nil or an element of a block; a slice is nil or a part of a block.\<close>

type_synonym ptr = "(addr \<times> nat) option"
datatype slice = NilSlice | Slice addr nat nat
type_synonym mapref = "addr option"

record ('b, 'a) gotype =
  gt_block :: "'a list \<Rightarrow> 'b"
  gt_items :: "'b \<Rightarrow> 'a list option"
  gt_zero :: 'a

definition load :: "('b, 'a) gotype \<Rightarrow> 'b heap \<Rightarrow> addr \<Rightarrow> 'a list option" where
  "load T h a = (if a < length h then gt_items T (h ! a) else None)"

definition elem_at :: "('b, 'a) gotype \<Rightarrow> 'b heap \<Rightarrow> addr \<times> nat \<Rightarrow> 'a option" where
  "elem_at T h p =
     (case load T h (fst p) of
        None \<Rightarrow> None
      | Some xs \<Rightarrow> if snd p < length xs then Some (xs ! snd p) else None)"

text \<open>
  A read through a pointer. Go is memory safe: a pointer that is not nil points to an element of
  its type, so the last branch is never taken by a program.
\<close>

definition deref :: "('b, 'a) gotype \<Rightarrow> 'b heap \<Rightarrow> addr \<times> nat \<Rightarrow> 'a" where
  "deref T h p = (case elem_at T h p of Some x \<Rightarrow> x | None \<Rightarrow> gt_zero T)"

definition store :: "('b, 'a) gotype \<Rightarrow> addr \<times> nat \<Rightarrow> 'a \<Rightarrow> 'b heap \<Rightarrow> 'b heap" where
  "store T p x h =
     (case load T h (fst p) of
        None \<Rightarrow> h
      | Some xs \<Rightarrow> h[fst p := gt_block T (xs[snd p := x])])"

section \<open>Allocation, slices and the builtin \<open>copy\<close>\<close>

definition go_new :: "('b, 'a) gotype \<Rightarrow> 'b heap \<Rightarrow> (addr \<times> nat) \<times> 'b heap" where
  "go_new T h = ((length h, 0), h @ [gt_block T [gt_zero T]])"

definition make_slice :: "('b, 'a) gotype \<Rightarrow> nat \<Rightarrow> 'b heap \<Rightarrow> addr \<times> 'b heap" where
  "make_slice T n h = (length h, h @ [gt_block T (replicate n (gt_zero T))])"

definition slice_items :: "('b, 'a) gotype \<Rightarrow> 'b heap \<Rightarrow> slice \<Rightarrow> 'a list option" where
  "slice_items T h s =
     (case s of
        NilSlice \<Rightarrow> Some []
      | Slice a off n \<Rightarrow>
          (case load T h a of
             None \<Rightarrow> None
           | Some xs \<Rightarrow> if off + n \<le> length xs then Some (take n (drop off xs)) else None))"

definition slice_copy :: "('b, 'a) gotype \<Rightarrow> addr \<Rightarrow> slice \<Rightarrow> 'b heap \<Rightarrow> 'b heap" where
  "slice_copy T dst src h =
     (case (load T h dst, slice_items T h src) of
        (Some xs, Some ys) \<Rightarrow>
          let n = min (length xs) (length ys) in h[dst := gt_block T (take n ys @ drop n xs)]
      | _ \<Rightarrow> h)"

section \<open>What a heap keeps of another\<close>

text \<open>\<open>keeps N h g\<close>: the blocks of \<open>h\<close> from address \<open>N\<close> on are in \<open>g\<close> as they were.\<close>

definition keeps :: "nat \<Rightarrow> 'b heap \<Rightarrow> 'b heap \<Rightarrow> bool" where
  "keeps N h g \<longleftrightarrow> (\<forall>a. N \<le> a \<and> a < length h \<longrightarrow> a < length g \<and> g ! a = h ! a)"

lemma keeps_refl [simp]: "keeps N h h"
  by (simp add: keeps_def)

lemma keeps_trans: "keeps N h g \<Longrightarrow> keeps N g k \<Longrightarrow> keeps N h k"
  by (simp add: keeps_def)

lemma keeps_mono: "keeps N h g \<Longrightarrow> N \<le> M \<Longrightarrow> keeps M h g"
  by (simp add: keeps_def)

lemma keeps_append [simp]: "keeps N h (h @ xs)"
  by (simp add: keeps_def nth_append)

lemma keeps_update: "a < N \<Longrightarrow> keeps N h (h[a := c])"
  by (simp add: keeps_def)

lemma keeps_length: "keeps 0 h g \<Longrightarrow> length h \<le> length g"
  by (cases h) (auto simp: keeps_def Suc_le_eq dest: spec [of _ "length h - 1"])

lemma load_keeps: "load T h a = Some xs \<Longrightarrow> keeps N h g \<Longrightarrow> N \<le> a \<Longrightarrow> load T g a = Some xs"
  by (auto simp: load_def keeps_def split: if_splits)

lemma elem_at_keeps: "elem_at T h p = Some x \<Longrightarrow> keeps 0 h g \<Longrightarrow> elem_at T g p = Some x"
  by (auto simp: elem_at_def dest: load_keeps split: option.splits if_splits)

lemma slice_items_keeps: "slice_items T h s = Some xs \<Longrightarrow> keeps 0 h g \<Longrightarrow> slice_items T g s = Some xs"
  by (auto simp: slice_items_def dest: load_keeps split: slice.splits option.splits if_splits)

lemma load_below: "load T h a = Some xs \<Longrightarrow> a < length h"
  by (simp add: load_def split: if_splits)

section \<open>Copy functions and their contract\<close>

text \<open>
  \<open>copied val h v r\<close>: the copy \<open>fst r\<close>, made from heap \<open>h\<close>, leaves every block of \<open>h\<close> as it is and
  has value \<open>v\<close> in every heap that keeps the blocks allocated for it, whatever happens to the
  others.
\<close>

definition copied :: "('b heap \<Rightarrow> 's \<Rightarrow> 'v option) \<Rightarrow> 'b heap \<Rightarrow> 'v \<Rightarrow> 's \<times> 'b heap \<Rightarrow> bool" where
  "copied val h v r \<longleftrightarrow>
     keeps 0 h (snd r) \<and> (\<forall>g. keeps (length h) (snd r) g \<longrightarrow> val g (fst r) = Some v)"

lemma copiedI:
  "keeps 0 h h' \<Longrightarrow> (\<And>g. keeps (length h) h' g \<Longrightarrow> val g s = Some v) \<Longrightarrow> copied val h v (s, h')"
  by (simp add: copied_def)

lemma copied_keeps: "copied val h v (s, h') \<Longrightarrow> keeps 0 h h'"
  by (simp add: copied_def)

text \<open>The value of a copy in any heap that keeps at least the blocks of the copy.\<close>

lemma copied_value:
  assumes "copied val h v (s, h')" "keeps 0 h' h''" "keeps N h'' g" "N \<le> length h"
  shows "val g s = Some v"
proof -
  from assms(3,4) have "keeps (length h) h'' g" by (rule keeps_mono)
  moreover from assms(2) have "keeps (length h) h' h''" by (rule keeps_mono) simp
  ultimately have "keeps (length h) h' g" by (blast intro: keeps_trans)
  with assms(1) show ?thesis by (simp add: copied_def)
qed

text \<open>
  The contract of a copy function: a value that can be read from a heap stays readable while the
  blocks of that heap are kept, and the function makes a copy of that value in new blocks only.
\<close>

locale deep_copier =
  fixes val :: "'b heap \<Rightarrow> 's \<Rightarrow> 'v option"
    and copy :: "'s \<Rightarrow> 'b heap \<Rightarrow> 's \<times> 'b heap"
  assumes stable: "val h s = Some v \<Longrightarrow> keeps 0 h g \<Longrightarrow> val g s = Some v"
    and copies: "val h s = Some v \<Longrightarrow> copied val h v (copy s h)"
begin

text \<open>Writes through the copy do not change the original, nor the other way round.\<close>

lemma independent:
  assumes "val h s = Some v" and "copy s h = (s', h')"
  shows "val h' s = Some v \<and> val h' s' = Some v \<and>
    (\<forall>g. keeps 0 h g \<longrightarrow> val g s = Some v) \<and>
    (\<forall>g. keeps (length h) h' g \<longrightarrow> val g s' = Some v)"
  using copies [OF assms(1)] assms(2) stable [OF assms(1)] by (auto simp: copied_def)

end

section \<open>Reading and writing blocks of one type\<close>

locale go_type =
  fixes T :: "('b, 'a) gotype"
  assumes items_block: "gt_items T (gt_block T xs) = Some xs"
begin

lemma load_new [simp]: "load T (h @ [gt_block T xs]) (length h) = Some xs"
  by (simp add: load_def items_block)

lemma load_update [simp]: "a < length h \<Longrightarrow> load T (h[a := gt_block T xs]) a = Some xs"
  by (simp add: load_def items_block)

lemma load_store [simp]: "load T h a = Some xs \<Longrightarrow> load T (store T (a, i) x h) a = Some (xs[i := x])"
  by (auto simp: store_def dest: load_below)

lemma store_keeps: "fst p < N \<Longrightarrow> keeps N h (store T p x h)"
  by (auto simp: store_def intro: keeps_update split: option.split)

lemma length_store [simp]: "length (store T p x h) = length h"
  by (simp add: store_def split: option.split)

end

text \<open>A store into a block of its own leaves every other block alone.\<close>

lemma keeps_store_new: "length h \<le> fst p \<Longrightarrow> keeps 0 h g \<Longrightarrow> keeps 0 h (store T p x g)"
  by (auto simp: store_def keeps_def split: option.split)

section \<open>The copying patterns of the generated code\<close>

text \<open>\<open>if in.F != nil \{ *out = make([]T, len(*in)); copy( *out, *in) \}\<close>\<close>

definition clone_slice :: "('b, 'a) gotype \<Rightarrow> slice \<Rightarrow> 'b heap \<Rightarrow> slice \<times> 'b heap" where
  "clone_slice T s h =
     (case s of
        NilSlice \<Rightarrow> (NilSlice, h)
      | Slice a off n \<Rightarrow>
          let (dst, h1) = make_slice T n h in (Slice dst 0 n, slice_copy T dst s h1))"

text \<open>\<open>for i := range *in \{ ( *in)[i].DeepCopyInto(&( *out)[i]) \}\<close>\<close>

primrec copy_elems :: "('b, 'a) gotype \<Rightarrow> ('a \<Rightarrow> 'b heap \<Rightarrow> 'a \<times> 'b heap) \<Rightarrow> addr \<times> nat \<Rightarrow> addr \<Rightarrow> nat list \<Rightarrow>
    'b heap \<Rightarrow> 'b heap" where
  "copy_elems T into src dst [] h = h"
| "copy_elems T into src dst (i # is) h =
     (let (x, h1) = into (deref T h (fst src, snd src + i)) h
      in copy_elems T into src dst is (store T (dst, i) x h1))"

definition clone_each :: "('b, 'a) gotype \<Rightarrow> ('a \<Rightarrow> 'b heap \<Rightarrow> 'a \<times> 'b heap) \<Rightarrow> slice \<Rightarrow> 'b heap \<Rightarrow> slice \<times> 'b heap" where
  "clone_each T into s h =
     (case s of
        NilSlice \<Rightarrow> (NilSlice, h)
      | Slice a off n \<Rightarrow>
          let (dst, h1) = make_slice T n h
          in (Slice dst 0 n, copy_elems T into (a, off) dst [0..<n] h1))"

text \<open>
  \<open>if in == nil \{ return nil \}; out := new(T); in.DeepCopyInto(out); return out\<close>, also the
  pattern of a pointer field.
\<close>

definition new_copy :: "('b, 'a) gotype \<Rightarrow> ('a \<Rightarrow> 'b heap \<Rightarrow> 'a \<times> 'b heap) \<Rightarrow> ptr \<Rightarrow> 'b heap \<Rightarrow> ptr \<times> 'b heap" where
  "new_copy T into p h =
     (case p of
        None \<Rightarrow> (None, h)
      | Some src \<Rightarrow>
          let (out, h1) = go_new T h;
              (x, h2) = into (deref T h1 src) h1
          in (Some out, store T out x h2))"

section \<open>What the patterns copy\<close>

text \<open>The value of a slice: its elements, each with its value, and whether the slice is nil.\<close>

definition slice_val :: "('b, 'a) gotype \<Rightarrow> ('b heap \<Rightarrow> 'a \<Rightarrow> 'v option) \<Rightarrow> 'b heap \<Rightarrow> slice \<Rightarrow> ('v list \<times> bool) option" where
  "slice_val T val h s =
     (case slice_items T h s of
        None \<Rightarrow> None
      | Some xs \<Rightarrow> map_option (\<lambda>vs. (vs, s = NilSlice)) (those (map (val h) xs)))"

definition ptr_val :: "('b, 'a) gotype \<Rightarrow> ('b heap \<Rightarrow> 'a \<Rightarrow> 'v option) \<Rightarrow> 'b heap \<Rightarrow> ptr \<Rightarrow> 'v option option" where
  "ptr_val T val h p =
     (case p of
        None \<Rightarrow> Some None
      | Some src \<Rightarrow> (case elem_at T h src of None \<Rightarrow> None | Some x \<Rightarrow> map_option Some (val h x)))"

text \<open>A type without slices, maps and pointers is its own value.\<close>

definition plain :: "'b heap \<Rightarrow> 'a \<Rightarrow> 'a option" where
  "plain h x = Some x"

lemma those_map_Some: "those (map f xs) = Some vs \<longleftrightarrow> map f xs = map Some vs"
proof (induction xs arbitrary: vs)
  case (Cons x xs)
  show ?case by (cases vs) (auto simp: Cons.IH split: option.splits)
qed auto

lemma slice_val_Some:
  "slice_val T val h s = Some (vs, b) \<longleftrightarrow>
     (\<exists>xs. slice_items T h s = Some xs \<and> map (val h) xs = map Some vs) \<and> b = (s = NilSlice)"
  by (auto simp: slice_val_def those_map_Some split: option.splits)

lemma map_plain [simp]: "map (plain h) xs = map Some vs \<longleftrightarrow> xs = vs"
  by (induction xs arbitrary: vs) (auto simp: plain_def Cons_eq_map_conv)

lemma pure_copier: "deep_copier (\<lambda>h. f) (\<lambda>x h. (x, h))"
  by unfold_locales (simp_all add: copied_def)

text \<open>\<open>if in.F != nil \{ *out = in.F.DeepCopy() \}\<close>: the copy function is called on a pointer only.\<close>

lemma guarded_copier:
  assumes "deep_copier (ptr_val T val) copy"
  shows "deep_copier (ptr_val T val) (\<lambda>p h. if p \<noteq> None then copy p h else (p, h))"
proof
  fix h p v
  assume v: "ptr_val T val h p = Some v"
  then show "copied (ptr_val T val) h v (if p \<noteq> None then copy p h else (p, h))"
    using deep_copier.copies [OF assms v] by (cases p) (auto simp: copied_def ptr_val_def)
qed (rule deep_copier.stable [OF assms])

context go_type
begin

lemma clone_slice_copier: "deep_copier (slice_val T plain) (clone_slice T)"
proof
  fix h s v and g :: "'b heap"
  assume "slice_val T plain h s = Some v" "keeps 0 h g"
  then show "slice_val T plain g s = Some v"
    by (cases v) (auto simp: slice_val_Some intro: slice_items_keeps)
next
  fix h s v
  assume v: "slice_val T plain h s = Some v"
  obtain xs b where xs: "v = (xs, b)" by (cases v)
  from v xs have items: "slice_items T h s = Some xs" and b: "b = (s = NilSlice)"
    by (auto simp: slice_val_Some)
  show "copied (slice_val T plain) h v (clone_slice T s h)"
  proof (cases s)
    case NilSlice
    with items b xs show ?thesis
      by (auto simp: clone_slice_def slice_items_def slice_val_Some intro!: copiedI)
  next
    case (Slice a off n)
    let ?h1 = "h @ [gt_block T (replicate n (gt_zero T))]"
    from items Slice have n: "length xs = n" by (auto simp: slice_items_def split: option.splits if_splits)
    have "slice_items T ?h1 s = Some xs" using items by (rule slice_items_keeps) simp
    with n have h': "clone_slice T s h = (Slice (length h) 0 n, h @ [gt_block T xs])"
      by (simp add: Slice clone_slice_def make_slice_def slice_copy_def)
    show ?thesis
      unfolding h' xs b
      by (rule copiedI) (auto simp: Slice n slice_val_Some slice_items_def dest: load_keeps [OF load_new])
  qed
qed

end

text \<open>A struct type with a copy function of its own.\<close>

locale struct_copier = go_type T + deep_copier val into
  for T :: "('b, 'a) gotype" and val :: "'b heap \<Rightarrow> 'a \<Rightarrow> 'v option" and into
begin

lemma deref_val: "elem_at T h0 src = Some x \<Longrightarrow> keeps 0 h0 h \<Longrightarrow> deref T h src = x"
  by (drule elem_at_keeps, assumption) (simp add: deref_def)

lemma into_fresh:
  assumes "elem_at T h0 src = Some x" "val h0 x = Some v" "keeps 0 h0 h" "into (deref T h src) h = (s, h1)"
  shows "keeps 0 h h1" and "keeps (length h) h1 g \<Longrightarrow> val g s = Some v"
proof -
  from copies [OF stable [OF assms(2,3)]] assms(4) have c: "copied val h v (s, h1)"
    by (simp add: deref_val [OF assms(1,3)])
  then show "keeps 0 h h1" and "keeps (length h) h1 g \<Longrightarrow> val g s = Some v"
    by (simp_all add: copied_def)
qed

lemma copy_elems_fresh:
  assumes "\<And>i. i \<in> set is \<Longrightarrow> \<exists>x. elem_at T h0 (fst src, snd src + i) = Some x \<and> val h0 x = Some (v i)"
    and "keeps 0 h0 h" "length h0 \<le> dst" "load T h dst = Some ys" "distinct is" "\<forall>i \<in> set is. i < length ys"
  shows "\<exists>zs. load T (copy_elems T into src dst is h) dst = Some zs \<and> length zs = length ys \<and>
    keeps 0 h0 (copy_elems T into src dst is h) \<and> keeps (Suc dst) h (copy_elems T into src dst is h) \<and>
    (\<forall>i. i \<notin> set is \<longrightarrow> zs ! i = ys ! i) \<and>
    (\<forall>i \<in> set is. \<forall>g. keeps (Suc dst) (copy_elems T into src dst is h) g \<longrightarrow> val g (zs ! i) = Some (v i))"
  using assms
proof (induction "is" arbitrary: h ys)
  case (Cons i "is")
  obtain s h1 where into: "into (deref T h (fst src, snd src + i)) h = (s, h1)" by fastforce
  from Cons.prems(1) [of i] obtain x where x: "elem_at T h0 (fst src, snd src + i) = Some x" "val h0 x = Some (v i)"
    by auto
  note h1 = into_fresh [OF x Cons.prems(2) into]
  let ?h2 = "store T (dst, i) s h1"
  from h1(1) Cons.prems(4) have ld: "load T h1 dst = Some ys" by (auto intro: load_keeps)
  have k2: "keeps 0 h0 ?h2"
    using keeps_trans [OF Cons.prems(2) h1(1)] Cons.prems(3) by (intro keeps_store_new) simp_all
  have k12: "keeps (Suc dst) h1 ?h2" by (rule store_keeps) simp
  have kh2: "keeps (Suc dst) h ?h2" using keeps_mono [OF h1(1)] k12 by (auto intro: keeps_trans)
  from Cons.prems have len: "Suc dst \<le> length h" by (auto dest: load_below)
  let ?h' = "copy_elems T into src dst is ?h2"
  from Cons.IH [OF Cons.prems(1) k2 Cons.prems(3) load_store [OF ld]] Cons.prems(5,6)
  obtain zs where zs: "load T ?h' dst = Some zs" "length zs = length ys" "keeps 0 h0 ?h'" "keeps (Suc dst) ?h2 ?h'"
    "\<forall>j. j \<notin> set is \<longrightarrow> zs ! j = ys[i := s] ! j"
    "\<forall>j \<in> set is. \<forall>g. keeps (Suc dst) ?h' g \<longrightarrow> val g (zs ! j) = Some (v j)" by auto
  have new: "val g (zs ! i) = Some (v i)" if "keeps (Suc dst) ?h' g" for g
  proof -
    have "keeps (Suc dst) h1 g" using k12 zs(4) that by (blast intro: keeps_trans)
    then have "val g s = Some (v i)" using len by (intro h1(2)) (auto intro: keeps_mono)
    with zs(5) Cons.prems(5,6) show ?thesis by simp
  qed
  from zs new kh2 Cons.prems(5) show ?case
    by (simp add: into) (blast intro: keeps_trans)
qed auto

lemma clone_each_copier: "deep_copier (slice_val T val) (clone_each T into)"
proof
  fix h s v and g :: "'b heap"
  assume "slice_val T val h s = Some v" and g: "keeps 0 h g"
  then obtain xs vs where "v = (vs, s = NilSlice)" "slice_items T h s = Some xs" "map (val h) xs = map Some vs"
    by (cases v) (auto simp: slice_val_Some)
  moreover from this(3) have "map (val g) xs = map Some vs"
    by (auto simp: list_eq_iff_nth_eq intro!: stable [OF _ g])
  ultimately show "slice_val T val g s = Some v" using g by (auto simp: slice_val_Some intro: slice_items_keeps)
next
  fix h s v
  assume "slice_val T val h s = Some v"
  then obtain xs vs where v: "v = (vs, s = NilSlice)" and xs: "slice_items T h s = Some xs"
    and vs: "map (val h) xs = map Some vs" by (cases v) (auto simp: slice_val_Some)
  show "copied (slice_val T val) h v (clone_each T into s h)"
  proof (cases s)
    case NilSlice
    with xs vs v show ?thesis
      by (auto simp: clone_each_def slice_items_def slice_val_Some intro!: copiedI)
  next
    case (Slice a off n)
    let ?h1 = "h @ [gt_block T (replicate n (gt_zero T))]"
    let ?h' = "copy_elems T into (a, off) (length h) [0..<n] ?h1"
    from xs Slice obtain ys where ys: "load T h a = Some ys" "off + n \<le> length ys" "xs = take n (drop off ys)"
      by (auto simp: slice_items_def split: option.splits if_splits)
    have n: "length vs = n" using vs ys by (auto dest: map_eq_imp_length_eq)
    have el: "\<exists>x. elem_at T h (a, off + i) = Some x \<and> val h x = Some (vs ! i)" if "i < n" for i
      using ys vs that by (auto simp: elem_at_def list_eq_iff_nth_eq)
    have "\<exists>zs. load T ?h' (length h) = Some zs \<and> length zs = n \<and> keeps 0 h ?h' \<and>
        (\<forall>i < n. \<forall>g. keeps (Suc (length h)) ?h' g \<longrightarrow> val g (zs ! i) = Some (vs ! i))"
      using copy_elems_fresh [of "[0..<n]" h "(a, off)" "\<lambda>i. vs ! i" ?h1 "length h", OF _ _ _ load_new] el by auto
    then obtain zs where zs: "load T ?h' (length h) = Some zs" "length zs = n" "keeps 0 h ?h'"
      "\<And>i g. i < n \<Longrightarrow> keeps (Suc (length h)) ?h' g \<Longrightarrow> val g (zs ! i) = Some (vs ! i)" by blast
    show ?thesis
      unfolding v clone_each_def Slice slice.case make_slice_def Let_def prod.case
    proof (rule copiedI [OF zs(3)])
      fix g
      assume g: "keeps (length h) ?h' g"
      then have "load T g (length h) = Some zs" using zs(1) by (auto intro: load_keeps)
      moreover have "map (val g) zs = map Some vs"
        using zs(2) zs(4) [OF _ keeps_mono [OF g]] n by (auto simp: list_eq_iff_nth_eq)
      ultimately show "slice_val T val g (Slice (length h) 0 n) = Some (vs, Slice a off n = NilSlice)"
        using zs(2) by (simp add: slice_val_Some slice_items_def)
    qed
  qed
qed

lemma new_copy_copier: "deep_copier (ptr_val T val) (new_copy T into)"
proof
  fix h p v and g :: "'b heap"
  assume v: "ptr_val T val h p = Some v" and g: "keeps 0 h g"
  show "ptr_val T val g p = Some v"
  proof (cases p)
    case (Some src)
    with v obtain x w where "elem_at T h src = Some x" "val h x = Some w" "v = Some w"
      by (auto simp: ptr_val_def split: option.splits)
    with Some g show ?thesis by (simp add: ptr_val_def elem_at_keeps [OF _ g] stable [OF _ g])
  qed (use v in \<open>simp add: ptr_val_def\<close>)
next
  fix h p v
  assume v: "ptr_val T val h p = Some v"
  show "copied (ptr_val T val) h v (new_copy T into p h)"
  proof (cases p)
    case None
    with v show ?thesis by (auto simp: new_copy_def ptr_val_def copied_def)
  next
    case (Some src)
    with v obtain x w where x: "elem_at T h src = Some x" "val h x = Some w" "v = Some w"
      by (auto simp: ptr_val_def split: option.splits)
    let ?h1 = "h @ [gt_block T [gt_zero T]]"
    obtain s h2 where into: "into (deref T ?h1 src) ?h1 = (s, h2)" by fastforce
    have "keeps 0 h ?h1" by simp
    note h2 = into_fresh [OF x(1,2) this into]
    let ?h' = "store T (length h, 0) s h2"
    have ld: "load T ?h' (length h) = Some [s]"
      using load_store [OF load_keeps [OF load_new h2(1)], where i = 0 and x = s] by simp
    have "keeps 0 h ?h'"
      by (rule keeps_store_new) (auto intro: keeps_trans [OF _ h2(1)])
    moreover have "ptr_val T val g (Some (length h, 0)) = Some v" if g: "keeps (length h) ?h' g" for g
    proof -
      have "load T g (length h) = Some [s]" using ld g by (auto intro: load_keeps)
      moreover have "keeps (Suc (length h)) h2 g"
        by (rule keeps_trans [OF store_keeps keeps_mono [OF g]]) simp_all
      then have "val g s = Some w" by (intro h2(2)) simp
      ultimately show ?thesis using x(3) by (simp add: ptr_val_def elem_at_def)
    qed
    ultimately show ?thesis
      by (auto simp: Some new_copy_def go_new_def into intro: copiedI)
  qed
qed

end

text \<open>So every struct with a copy function also has slices and pointers with one.\<close>

sublocale struct_copier \<subseteq> pointer: deep_copier "ptr_val T val" "new_copy T into"
  by (rule new_copy_copier)

sublocale struct_copier \<subseteq> each: deep_copier "slice_val T val" "clone_each T into"
  by (rule clone_each_copier)

section \<open>Maps\<close>

text \<open>
  \<open>if in.F != nil \{ *out = make(map[K]V, len(*in)); for key, val := range *in \{ ( *out)[key] = val \} \}\<close>.
  A block of a map holds its entries, with distinct keys.
\<close>

definition map_put :: "('b, 'k \<times> 'v) gotype \<Rightarrow> addr \<Rightarrow> 'k \<Rightarrow> 'v \<Rightarrow> 'b heap \<Rightarrow> 'b heap" where
  "map_put T a k v h =
     (case load T h a of None \<Rightarrow> h | Some es \<Rightarrow> h[a := gt_block T (AList.update k v es)])"

primrec copy_entries :: "('b, 'k \<times> 'v) gotype \<Rightarrow> addr \<Rightarrow> ('k \<times> 'v) list \<Rightarrow> 'b heap \<Rightarrow> 'b heap" where
  "copy_entries T dst [] h = h"
| "copy_entries T dst (e # es) h = copy_entries T dst es (map_put T dst (fst e) (snd e) h)"

definition clone_map :: "('b, 'k \<times> 'v) gotype \<Rightarrow> mapref \<Rightarrow> 'b heap \<Rightarrow> mapref \<times> 'b heap" where
  "clone_map T m h =
     (case m of
        None \<Rightarrow> (None, h)
      | Some a \<Rightarrow>
          let dst = length h;
              h1 = h @ [gt_block T []];
              es = (case load T h1 a of Some es \<Rightarrow> es | None \<Rightarrow> [])
          in (Some dst, copy_entries T dst es h1))"

definition map_val :: "('b, 'k \<times> 'v) gotype \<Rightarrow> 'b heap \<Rightarrow> mapref \<Rightarrow> ('k, 'v) gomap option" where
  "map_val T h m =
     (case m of
        None \<Rightarrow> Some None
      | Some a \<Rightarrow>
          (case load T h a of
             None \<Rightarrow> None
           | Some es \<Rightarrow> if distinct (map fst es) then Some (Some es) else None))"

lemma map_val_simps [simp]:
  "map_val T h None = Some None"
  "map_val T h (Some a) = Some v \<longleftrightarrow> (\<exists>es. load T h a = Some es \<and> distinct (map fst es) \<and> v = Some es)"
  by (auto simp: map_val_def split: option.splits)

lemma update_new: "k \<notin> fst ` set es \<Longrightarrow> AList.update k v es = es @ [(k, v)]"
  by (induction es) auto

locale map_type = go_type T for T :: "('b, 'k \<times> 'v) gotype"
begin

lemma copy_entries_block:
  "distinct (map fst (xs @ es)) \<Longrightarrow>
   copy_entries T (length h) es (h @ [gt_block T xs]) = h @ [gt_block T (xs @ es)]"
proof (induction es arbitrary: xs)
  case (Cons e es)
  then have "map_put T (length h) (fst e) (snd e) (h @ [gt_block T xs]) = h @ [gt_block T (xs @ [e])]"
    by (simp add: map_put_def update_new)
  with Cons.IH [of "xs @ [e]"] Cons.prems show ?case by simp
qed simp

lemma clone_map_copier: "deep_copier (map_val T) (clone_map T)"
proof
  fix h m v and g :: "'b heap"
  assume "map_val T h m = Some v" "keeps 0 h g"
  then show "map_val T g m = Some v" by (cases m) (auto dest: load_keeps)
next
  fix h m v
  assume v: "map_val T h m = Some v"
  show "copied (map_val T) h v (clone_map T m h)"
  proof (cases m)
    case None
    with v show ?thesis by (auto simp: clone_map_def copied_def)
  next
    case (Some a)
    with v obtain es where es: "load T h a = Some es" "distinct (map fst es)" "v = Some es"
      by auto
    from es(1) have "load T (h @ [gt_block T []]) a = Some es" by (rule load_keeps [OF _ _ le0]) simp
    with Some es(2) copy_entries_block [of "[]" es h] have "clone_map T m h = (Some (length h), h @ [gt_block T es])"
      by (simp add: clone_map_def)
    then show ?thesis
      by (simp only:, intro copiedI) (auto simp: es dest: load_keeps [OF load_new])
  qed
qed

end

sublocale map_type \<subseteq> entries: deep_copier "map_val T" "clone_map T"
  by (rule clone_map_copier)

section \<open>Structs with several such fields\<close>

definition pair_val :: "('b heap \<Rightarrow> 's \<Rightarrow> 'v option) \<Rightarrow> ('b heap \<Rightarrow> 't \<Rightarrow> 'w option) \<Rightarrow>
    'b heap \<Rightarrow> 's \<times> 't \<Rightarrow> ('v \<times> 'w) option" where
  "pair_val A B h p =
     (case (A h (fst p), B h (snd p)) of (Some x, Some y) \<Rightarrow> Some (x, y) | _ \<Rightarrow> None)"

definition pair_copy :: "('s \<Rightarrow> 'b heap \<Rightarrow> 's \<times> 'b heap) \<Rightarrow> ('t \<Rightarrow> 'b heap \<Rightarrow> 't \<times> 'b heap) \<Rightarrow>
    's \<times> 't \<Rightarrow> 'b heap \<Rightarrow> ('s \<times> 't) \<times> 'b heap" where
  "pair_copy f g p h = (let (x, h1) = f (fst p) h; (y, h2) = g (snd p) h1 in ((x, y), h2))"

lemma pair_val_Some [simp]:
  "pair_val A B h (a, b) = Some (x, y) \<longleftrightarrow> A h a = Some x \<and> B h b = Some y"
  by (auto simp: pair_val_def split: option.splits)

lemma copied_pair:
  assumes "copied A h v (a, h1)" "copied B h1 w (b, h2)"
  shows "copied (pair_val A B) h (v, w) ((a, b), h2)"
proof (rule copiedI)
  note k1 = copied_keeps [OF assms(1)] and k2 = copied_keeps [OF assms(2)]
  show "keeps 0 h h2" using k1 k2 by (rule keeps_trans)
  fix g
  assume g: "keeps (length h) h2 g"
  have "A g a = Some v" by (rule copied_value [OF assms(1) k2 g]) simp
  moreover have "B g b = Some w"
    using copied_value [OF assms(2) keeps_refl g] keeps_length [OF k1] by simp
  ultimately show "pair_val A B g (a, b) = Some (v, w)" by simp
qed

lemma pair_copier:
  assumes "deep_copier A f" and "deep_copier B k"
  shows "deep_copier (pair_val A B) (pair_copy f k)"
proof
  fix h p v and g :: "'a heap"
  assume v: "pair_val A B h p = Some v" and g: "keeps 0 h g"
  obtain a b x y where "p = (a, b)" "v = (x, y)" by (cases p, cases v)
  with v show "pair_val A B g p = Some v"
    by (simp add: deep_copier.stable [OF assms(1) _ g] deep_copier.stable [OF assms(2) _ g])
next
  fix h p v
  assume v: "pair_val A B h p = Some v"
  obtain a b where p: "p = (a, b)" by (cases p)
  obtain x y where xy: "v = (x, y)" by (cases v)
  obtain s h1 where s: "f a h = (s, h1)" by fastforce
  obtain t h2 where t: "k b h1 = (t, h2)" by fastforce
  have c1: "copied A h x (s, h1)"
    using deep_copier.copies [OF assms(1), of h a x] v p xy s by simp
  have "B h1 b = Some y"
    using deep_copier.stable [OF assms(2) _ copied_keeps [OF c1]] v p xy by simp
  then have "copied B h1 y (t, h2)" using deep_copier.copies [OF assms(2), of h1 b y] t by simp
  with c1 show "copied (pair_val A B) h v (pair_copy f k p h)"
    by (simp add: p xy pair_copy_def s t copied_pair)
qed

text \<open>
  A struct is copied when the tuple of the fields that need it is: \<open>proj\<close> takes that tuple out of
  the struct, \<open>put\<close> writes it back, and \<open>mk\<close> builds the value from the struct and the tuple's value.
\<close>

lemma struct_copier_of_fields:
  assumes D: "deep_copier val copy"
    and V: "\<And>h s v. val' h s = Some v \<longleftrightarrow> (\<exists>w. val h (proj s) = Some w \<and> v = mk s w)"
    and C: "\<And>h s. copy' s h = (case copy (proj s) h of (q, h') \<Rightarrow> (put s q, h'))"
    and P: "\<And>s q. proj (put s q) = q" "\<And>s q w. mk (put s q) w = mk s w"
  shows "deep_copier val' copy'"
proof
  fix h s v and g :: "'a heap"
  assume v: "val' h s = Some v" and g: "keeps 0 h g"
  from v obtain w where "val h (proj s) = Some w" "v = mk s w" by (auto simp: V)
  with deep_copier.stable [OF D _ g] show "val' g s = Some v" by (simp add: V)
next
  fix h s v
  assume "val' h s = Some v"
  then obtain w where w: "val h (proj s) = Some w" "v = mk s w" by (auto simp: V)
  obtain q h' where q: "copy (proj s) h = (q, h')" by fastforce
  with deep_copier.copies [OF D w(1)] have "copied val h w (q, h')" by simp
  then show "copied val' h v (copy' s h)" by (simp add: copied_def C q V P w(2))
qed

end
