(* ===== verification/Deep_Copy.thy ===== *)
theory Deep_Copy
  imports Go_Heap Pool_API
begin

text \<open>
  The generated copy functions (\<open>api/v1alpha1/zz_generated.deepcopy.go\<close>) on the memory model of
  \<open>Go_Heap\<close>. The structs are as the program holds them, with pointers, slices and maps as
  references; their values are the records of \<open>Pool_API\<close>. The receiver \<open>in\<close> is passed as the
  struct it points to; the struct that \<open>*out\<close> is in the end is the result, and \<open>out\<close> is not
  \<open>in\<close>. The copy functions of \<open>metav1\<close> are not code of the repository and are a parameter.
\<close>

section \<open>The structs in memory\<close>

record aws_mem =
  am_Region :: string
  am_AMI :: string
  am_InstanceType :: string
  am_InstanceTypes :: slice
  am_SubnetID :: string
  am_SecurityGroupIDs :: slice
  am_VolumeSize :: int
  am_VolumeType :: string
  am_Tags :: mapref

record match_mem =
  mm_Tolerations :: slice
  mm_NodeAffinityLabels :: mapref
  mm_Resources :: slice

record spec_mem =
  sm_Cloud :: string
  sm_AWS :: ptr
  sm_Talos :: talos_config
  sm_Scaling :: scaling_config
  sm_MatchRules :: match_mem
  sm_NodeLabels :: mapref
  sm_NodeTaints :: slice

text \<open>\<open>NodeState\<close> is a string type; its five constants are the states of \<open>Pool_API\<close>.\<close>

definition NodeStates :: "(string \<times> node_state) list" where
  "NodeStates =
     [(''Pending'', Pending), (''Running'', Running), (''Cordoned'', Cordoned), (''Draining'', Draining),
      (''Terminating'', Terminating)]"

record node_mem =
  nm_Name :: string
  nm_InstanceID :: string
  nm_InstanceType :: string
  nm_State :: string
  nm_LaunchedAt :: time
  nm_ReadyAt :: ptr
  nm_LastPodFinished :: ptr

record status_mem =
  stm_ActiveNodes :: int
  stm_PendingNodes :: int
  stm_Nodes :: slice
  stm_Conditions :: slice

text \<open>The types of \<open>metav1\<close>, with the fields of \<open>Pool_API\<close> and the two maps of an object.\<close>

record type_meta =
  tm_Kind :: string
  tm_APIVersion :: string

record object_meta =
  om_Namespace :: string
  om_Name :: string
  om_ResourceVersion :: nat
  om_Labels :: mapref
  om_Annotations :: mapref

record list_meta =
  lm_ResourceVersion :: string
  lm_Continue :: string
  lm_RemainingItemCount :: ptr

record pool_mem =
  pm_TypeMeta :: type_meta
  pm_ObjectMeta :: object_meta
  pm_Spec :: spec_mem
  pm_Status :: status_mem

record pool_list_mem =
  plm_TypeMeta :: type_meta
  plm_ListMeta :: list_meta
  plm_Items :: slice

section \<open>Blocks of each type\<close>

datatype block =
    Strings "string list"
  | StringMap "(string \<times> string) list"
  | Ints "int list"
  | Times "time list"
  | InstanceTypeConfigs "instance_type_config list"
  | TalosConfigs "talos_config list"
  | ScalingConfigs "scaling_config list"
  | TolerationRules "toleration_rule list"
  | ResourceRules "resource_rule list"
  | Taints "node_taint list"
  | StatusConditions "status_condition list"
  | AWSConfigs "aws_mem list"
  | MatchRuless "match_mem list"
  | PoolSpecs "spec_mem list"
  | NodeStatuses "node_mem list"
  | PoolStatuses "status_mem list"
  | PoolObjects "pool_mem list"
  | PoolLists "pool_list_mem list"

type_synonym memory = "block heap"
type_synonym 'a btype = "(block, 'a) gotype"

definition string_t :: "string btype" where
  "string_t = \<lparr>gt_block = Strings, gt_items = (\<lambda>b. case b of Strings xs \<Rightarrow> Some xs | _ \<Rightarrow> None), gt_zero = ''''\<rparr>"

definition string_map_t :: "(string \<times> string) btype" where
  "string_map_t =
     \<lparr>gt_block = StringMap, gt_items = (\<lambda>b. case b of StringMap xs \<Rightarrow> Some xs | _ \<Rightarrow> None), gt_zero = ('''', '''')\<rparr>"

definition int_t :: "int btype" where
  "int_t = \<lparr>gt_block = Ints, gt_items = (\<lambda>b. case b of Ints xs \<Rightarrow> Some xs | _ \<Rightarrow> None), gt_zero = 0\<rparr>"

definition time_t :: "time btype" where
  "time_t = \<lparr>gt_block = Times, gt_items = (\<lambda>b. case b of Times xs \<Rightarrow> Some xs | _ \<Rightarrow> None), gt_zero = 0\<rparr>"

definition itc_t :: "instance_type_config btype" where
  "itc_t =
     \<lparr>gt_block = InstanceTypeConfigs, gt_items = (\<lambda>b. case b of InstanceTypeConfigs xs \<Rightarrow> Some xs | _ \<Rightarrow> None),
      gt_zero = \<lparr>itc_Name = '''', itc_AMI = '''', itc_Architecture = ''''\<rparr>\<rparr>"

definition talos_t :: "talos_config btype" where
  "talos_t =
     \<lparr>gt_block = TalosConfigs, gt_items = (\<lambda>b. case b of TalosConfigs xs \<Rightarrow> Some xs | _ \<Rightarrow> None),
      gt_zero = \<lparr>MachineConfigSecret = '''', MachineConfigKey = ''''\<rparr>\<rparr>"

definition scaling_t :: "scaling_config btype" where
  "scaling_t =
     \<lparr>gt_block = ScalingConfigs, gt_items = (\<lambda>b. case b of ScalingConfigs xs \<Rightarrow> Some xs | _ \<Rightarrow> None),
      gt_zero = \<lparr>MaxNodes = 0, CooldownPeriod = 0, BootTimeout = 0\<rparr>\<rparr>"

definition toleration_t :: "toleration_rule btype" where
  "toleration_t =
     \<lparr>gt_block = TolerationRules, gt_items = (\<lambda>b. case b of TolerationRules xs \<Rightarrow> Some xs | _ \<Rightarrow> None),
      gt_zero = \<lparr>tr_Key = '''', tr_Operator = '''', tr_Value = ''''\<rparr>\<rparr>"

definition resource_rule_t :: "resource_rule btype" where
  "resource_rule_t =
     \<lparr>gt_block = ResourceRules, gt_items = (\<lambda>b. case b of ResourceRules xs \<Rightarrow> Some xs | _ \<Rightarrow> None),
      gt_zero = \<lparr>rr_ResourceName = '''', rr_Operator = ''''\<rparr>\<rparr>"

definition taint_t :: "node_taint btype" where
  "taint_t =
     \<lparr>gt_block = Taints, gt_items = (\<lambda>b. case b of Taints xs \<Rightarrow> Some xs | _ \<Rightarrow> None),
      gt_zero = \<lparr>nt_Key = '''', nt_Value = '''', nt_Effect = ''''\<rparr>\<rparr>"

definition condition_t :: "status_condition btype" where
  "condition_t =
     \<lparr>gt_block = StatusConditions, gt_items = (\<lambda>b. case b of StatusConditions xs \<Rightarrow> Some xs | _ \<Rightarrow> None),
      gt_zero = \<lparr>sc_Type = '''', sc_Status = '''', sc_Reason = '''', sc_Message = ''''\<rparr>\<rparr>"

definition aws_t :: "aws_mem btype" where
  "aws_t =
     \<lparr>gt_block = AWSConfigs, gt_items = (\<lambda>b. case b of AWSConfigs xs \<Rightarrow> Some xs | _ \<Rightarrow> None),
      gt_zero = \<lparr>am_Region = '''', am_AMI = '''', am_InstanceType = '''', am_InstanceTypes = NilSlice, am_SubnetID = '''',
        am_SecurityGroupIDs = NilSlice, am_VolumeSize = 0, am_VolumeType = '''', am_Tags = None\<rparr>\<rparr>"

definition match_t :: "match_mem btype" where
  "match_t =
     \<lparr>gt_block = MatchRuless, gt_items = (\<lambda>b. case b of MatchRuless xs \<Rightarrow> Some xs | _ \<Rightarrow> None),
      gt_zero = \<lparr>mm_Tolerations = NilSlice, mm_NodeAffinityLabels = None, mm_Resources = NilSlice\<rparr>\<rparr>"

definition spec_t :: "spec_mem btype" where
  "spec_t =
     \<lparr>gt_block = PoolSpecs, gt_items = (\<lambda>b. case b of PoolSpecs xs \<Rightarrow> Some xs | _ \<Rightarrow> None),
      gt_zero = \<lparr>sm_Cloud = '''', sm_AWS = None, sm_Talos = gt_zero talos_t, sm_Scaling = gt_zero scaling_t,
        sm_MatchRules = gt_zero match_t, sm_NodeLabels = None, sm_NodeTaints = NilSlice\<rparr>\<rparr>"

definition node_t :: "node_mem btype" where
  "node_t =
     \<lparr>gt_block = NodeStatuses, gt_items = (\<lambda>b. case b of NodeStatuses xs \<Rightarrow> Some xs | _ \<Rightarrow> None),
      gt_zero = \<lparr>nm_Name = '''', nm_InstanceID = '''', nm_InstanceType = '''', nm_State = '''', nm_LaunchedAt = 0,
        nm_ReadyAt = None, nm_LastPodFinished = None\<rparr>\<rparr>"

definition status_t :: "status_mem btype" where
  "status_t =
     \<lparr>gt_block = PoolStatuses, gt_items = (\<lambda>b. case b of PoolStatuses xs \<Rightarrow> Some xs | _ \<Rightarrow> None),
      gt_zero = \<lparr>stm_ActiveNodes = 0, stm_PendingNodes = 0, stm_Nodes = NilSlice, stm_Conditions = NilSlice\<rparr>\<rparr>"

definition pool_t :: "pool_mem btype" where
  "pool_t =
     \<lparr>gt_block = PoolObjects, gt_items = (\<lambda>b. case b of PoolObjects xs \<Rightarrow> Some xs | _ \<Rightarrow> None),
      gt_zero = \<lparr>pm_TypeMeta = \<lparr>tm_Kind = '''', tm_APIVersion = ''''\<rparr>,
        pm_ObjectMeta = \<lparr>om_Namespace = '''', om_Name = '''', om_ResourceVersion = 0, om_Labels = None, om_Annotations = None\<rparr>,
        pm_Spec = gt_zero spec_t, pm_Status = gt_zero status_t\<rparr>\<rparr>"

definition pool_list_t :: "pool_list_mem btype" where
  "pool_list_t =
     \<lparr>gt_block = PoolLists, gt_items = (\<lambda>b. case b of PoolLists xs \<Rightarrow> Some xs | _ \<Rightarrow> None),
      gt_zero = \<lparr>plm_TypeMeta = \<lparr>tm_Kind = '''', tm_APIVersion = ''''\<rparr>,
        plm_ListMeta = \<lparr>lm_ResourceVersion = '''', lm_Continue = '''', lm_RemainingItemCount = None\<rparr>,
        plm_Items = NilSlice\<rparr>\<rparr>"

lemmas block_types = string_t_def string_map_t_def int_t_def time_t_def itc_t_def talos_t_def scaling_t_def toleration_t_def resource_rule_t_def taint_t_def condition_t_def aws_t_def match_t_def spec_t_def node_t_def status_t_def pool_t_def pool_list_t_def

interpretation string_maps: map_type string_map_t
  by unfold_locales (simp add: block_types)

interpretation strings: go_type string_t
  by unfold_locales (simp add: block_types)

interpretation ints: go_type int_t
  by unfold_locales (simp add: block_types)

interpretation times: go_type time_t
  by unfold_locales (simp add: block_types)

interpretation instance_types: go_type itc_t
  by unfold_locales (simp add: block_types)

interpretation taloses: go_type talos_t
  by unfold_locales (simp add: block_types)

interpretation scalings: go_type scaling_t
  by unfold_locales (simp add: block_types)

interpretation tolerations: go_type toleration_t
  by unfold_locales (simp add: block_types)

interpretation resource_rules: go_type resource_rule_t
  by unfold_locales (simp add: block_types)

interpretation taints: go_type taint_t
  by unfold_locales (simp add: block_types)

interpretation conditions: go_type condition_t
  by unfold_locales (simp add: block_types)

section \<open>Values\<close>

text \<open>
  The value of a struct is defined when every reference in it is good. Besides the record it says of
  every slice whether it is nil, in the order of the fields, which the records leave out.
\<close>

abbreviation smap_val :: "memory \<Rightarrow> mapref \<Rightarrow> strmap option" where
  "smap_val \<equiv> map_val string_map_t"

definition aws_val :: "memory \<Rightarrow> aws_mem \<Rightarrow> (aws_config \<times> bool list) option" where
  "aws_val h s =
     do {
       (its, nil1) \<leftarrow> slice_val itc_t plain h (am_InstanceTypes s);
       (sgs, nil2) \<leftarrow> slice_val string_t plain h (am_SecurityGroupIDs s);
       tags \<leftarrow> smap_val h (am_Tags s);
       Some (\<lparr>aws_Region = am_Region s, aws_AMI = am_AMI s, aws_InstanceType = am_InstanceType s,
              aws_InstanceTypes = its, aws_SubnetID = am_SubnetID s, aws_SecurityGroupIDs = sgs,
              aws_VolumeSize = am_VolumeSize s, aws_VolumeType = am_VolumeType s, aws_Tags = tags\<rparr>, [nil1, nil2])
     }"

definition match_val :: "memory \<Rightarrow> match_mem \<Rightarrow> (match_rules \<times> bool list) option" where
  "match_val h s =
     do {
       (tols, nil1) \<leftarrow> slice_val toleration_t plain h (mm_Tolerations s);
       labels \<leftarrow> smap_val h (mm_NodeAffinityLabels s);
       (ress, nil2) \<leftarrow> slice_val resource_rule_t plain h (mm_Resources s);
       Some (\<lparr>Tolerations = tols, NodeAffinityLabels = labels, Resources = ress\<rparr>, [nil1, nil2])
     }"

definition spec_val :: "memory \<Rightarrow> spec_mem \<Rightarrow> (pool_spec \<times> bool list) option" where
  "spec_val h s =
     do {
       aws \<leftarrow> ptr_val aws_t aws_val h (sm_AWS s);
       (match, nils) \<leftarrow> match_val h (sm_MatchRules s);
       labels \<leftarrow> smap_val h (sm_NodeLabels s);
       (taints, nil1) \<leftarrow> slice_val taint_t plain h (sm_NodeTaints s);
       Some (\<lparr>Cloud = sm_Cloud s, AWS = map_option fst aws, Talos = sm_Talos s, Scaling = sm_Scaling s,
              MatchRules = match, NodeLabels = labels, NodeTaints = taints\<rparr>,
             (case aws of None \<Rightarrow> [] | Some (_, ns) \<Rightarrow> ns) @ nils @ [nil1])
     }"

definition node_val :: "memory \<Rightarrow> node_mem \<Rightarrow> node_status option" where
  "node_val h s =
     do {
       st \<leftarrow> map_of NodeStates (nm_State s);
       ready \<leftarrow> ptr_val time_t plain h (nm_ReadyAt s);
       finished \<leftarrow> ptr_val time_t plain h (nm_LastPodFinished s);
       Some \<lparr>ns_Name = nm_Name s, ns_InstanceID = nm_InstanceID s, ns_InstanceType = nm_InstanceType s,
             ns_State = st, ns_LaunchedAt = nm_LaunchedAt s, ns_ReadyAt = ready, ns_LastPodFinished = finished\<rparr>
     }"

definition status_val :: "memory \<Rightarrow> status_mem \<Rightarrow> (pool_status \<times> bool list) option" where
  "status_val h s =
     do {
       (ns, nil1) \<leftarrow> slice_val node_t node_val h (stm_Nodes s);
       (cs, nil2) \<leftarrow> slice_val condition_t plain h (stm_Conditions s);
       Some (\<lparr>ActiveNodes = stm_ActiveNodes s, PendingNodes = stm_PendingNodes s, Nodes = ns, Conditions = cs\<rparr>,
             [nil1, nil2])
     }"

definition object_meta_val :: "memory \<Rightarrow> object_meta \<Rightarrow> (string \<times> string \<times> nat \<times> strmap \<times> strmap) option" where
  "object_meta_val h s =
     do {
       labels \<leftarrow> smap_val h (om_Labels s);
       annotations \<leftarrow> smap_val h (om_Annotations s);
       Some (om_Namespace s, om_Name s, om_ResourceVersion s, labels, annotations)
     }"

definition list_meta_val :: "memory \<Rightarrow> list_meta \<Rightarrow> (string \<times> string \<times> int option) option" where
  "list_meta_val h s =
     do {
       remaining \<leftarrow> ptr_val int_t plain h (lm_RemainingItemCount s);
       Some (lm_ResourceVersion s, lm_Continue s, remaining)
     }"

text \<open>A pool object: its type, labels and annotations, the pool of \<open>Pool_API\<close>, and which slices are nil.\<close>

type_synonym pool_value = "type_meta \<times> strmap \<times> strmap \<times> pool \<times> bool list"

definition pool_val :: "memory \<Rightarrow> pool_mem \<Rightarrow> pool_value option" where
  "pool_val h s =
     do {
       (ns, name, rv, labels, annotations) \<leftarrow> object_meta_val h (pm_ObjectMeta s);
       (spec, nils1) \<leftarrow> spec_val h (pm_Spec s);
       (status, nils2) \<leftarrow> status_val h (pm_Status s);
       Some (pm_TypeMeta s, labels, annotations,
             \<lparr>pool_Namespace = ns, pool_Name = name, pool_ResourceVersion = rv, pool_Spec = spec, pool_Status = status\<rparr>,
             nils1 @ nils2)
     }"

definition pool_list_val :: "memory \<Rightarrow> pool_list_mem \<Rightarrow>
    (type_meta \<times> (string \<times> string \<times> int option) \<times> pool_value list \<times> bool) option" where
  "pool_list_val h s =
     do {
       meta \<leftarrow> list_meta_val h (plm_ListMeta s);
       (items, nil1) \<leftarrow> slice_val pool_t pool_val h (plm_Items s);
       Some (plm_TypeMeta s, meta, items, nil1)
     }"

section \<open>The copy functions\<close>

text \<open>The copy functions of \<open>metav1\<close>, and what their documentation promises.\<close>

record metav1 =
  ObjectMeta_DeepCopyInto :: "object_meta \<Rightarrow> memory \<Rightarrow> object_meta \<times> memory"
  ListMeta_DeepCopyInto :: "list_meta \<Rightarrow> memory \<Rightarrow> list_meta \<times> memory"
  Condition_DeepCopyInto :: "status_condition \<Rightarrow> memory \<Rightarrow> status_condition \<times> memory"
  Time_DeepCopyInto :: "time \<Rightarrow> memory \<Rightarrow> time \<times> memory"
  Time_DeepCopy :: "ptr \<Rightarrow> memory \<Rightarrow> ptr \<times> memory"

definition metav1_copies :: "metav1 \<Rightarrow> bool" where
  "metav1_copies L \<longleftrightarrow>
     deep_copier object_meta_val (ObjectMeta_DeepCopyInto L) \<and>
     deep_copier list_meta_val (ListMeta_DeepCopyInto L) \<and>
     deep_copier plain (Condition_DeepCopyInto L) \<and>
     deep_copier plain (Time_DeepCopyInto L) \<and>
     deep_copier (ptr_val time_t plain) (Time_DeepCopy L)"

definition AWSConfig_DeepCopyInto :: "aws_mem \<Rightarrow> memory \<Rightarrow> aws_mem \<times> memory" where
  "AWSConfig_DeepCopyInto s h =
     (let out = s;
          (its, h1) = clone_slice itc_t (am_InstanceTypes s) h;
          (sgs, h2) = clone_slice string_t (am_SecurityGroupIDs s) h1;
          (tags, h3) = clone_map string_map_t (am_Tags s) h2
      in (out\<lparr>am_InstanceTypes := its, am_SecurityGroupIDs := sgs, am_Tags := tags\<rparr>, h3))"

definition MatchRules_DeepCopyInto :: "match_mem \<Rightarrow> memory \<Rightarrow> match_mem \<times> memory" where
  "MatchRules_DeepCopyInto s h =
     (let out = s;
          (tols, h1) = clone_slice toleration_t (mm_Tolerations s) h;
          (labels, h2) = clone_map string_map_t (mm_NodeAffinityLabels s) h1;
          (ress, h3) = clone_slice resource_rule_t (mm_Resources s) h2
      in (out\<lparr>mm_Tolerations := tols, mm_NodeAffinityLabels := labels, mm_Resources := ress\<rparr>, h3))"

definition BurstNodePoolSpec_DeepCopyInto :: "spec_mem \<Rightarrow> memory \<Rightarrow> spec_mem \<times> memory" where
  "BurstNodePoolSpec_DeepCopyInto s h =
     (let out = s;
          (aws, h1) = new_copy aws_t AWSConfig_DeepCopyInto (sm_AWS s) h;
          out = out\<lparr>sm_Talos := sm_Talos s, sm_Scaling := sm_Scaling s\<rparr>;
          (match, h2) = MatchRules_DeepCopyInto (sm_MatchRules s) h1;
          (labels, h3) = clone_map string_map_t (sm_NodeLabels s) h2;
          (taints, h4) = clone_slice taint_t (sm_NodeTaints s) h3
      in (out\<lparr>sm_AWS := aws, sm_MatchRules := match, sm_NodeLabels := labels, sm_NodeTaints := taints\<rparr>, h4))"

definition BurstNodeStatus_DeepCopyInto :: "metav1 \<Rightarrow> node_mem \<Rightarrow> memory \<Rightarrow> node_mem \<times> memory" where
  "BurstNodeStatus_DeepCopyInto L s h =
     (let out = s;
          (launched, h1) = Time_DeepCopyInto L (nm_LaunchedAt s) h;
          (ready, h2) = (if nm_ReadyAt s \<noteq> None then Time_DeepCopy L (nm_ReadyAt s) h1 else (nm_ReadyAt out, h1));
          (finished, h3) =
            (if nm_LastPodFinished s \<noteq> None then Time_DeepCopy L (nm_LastPodFinished s) h2
             else (nm_LastPodFinished out, h2))
      in (out\<lparr>nm_LaunchedAt := launched, nm_ReadyAt := ready, nm_LastPodFinished := finished\<rparr>, h3))"

definition BurstNodePoolStatus_DeepCopyInto :: "metav1 \<Rightarrow> status_mem \<Rightarrow> memory \<Rightarrow> status_mem \<times> memory" where
  "BurstNodePoolStatus_DeepCopyInto L s h =
     (let out = s;
          (nodes, h1) = clone_each node_t (BurstNodeStatus_DeepCopyInto L) (stm_Nodes s) h;
          (conditions, h2) = clone_each condition_t (Condition_DeepCopyInto L) (stm_Conditions s) h1
      in (out\<lparr>stm_Nodes := nodes, stm_Conditions := conditions\<rparr>, h2))"

definition BurstNodePool_DeepCopyInto :: "metav1 \<Rightarrow> pool_mem \<Rightarrow> memory \<Rightarrow> pool_mem \<times> memory" where
  "BurstNodePool_DeepCopyInto L s h =
     (let out = s\<lparr>pm_TypeMeta := pm_TypeMeta s\<rparr>;
          (meta, h1) = ObjectMeta_DeepCopyInto L (pm_ObjectMeta s) h;
          (spec, h2) = BurstNodePoolSpec_DeepCopyInto (pm_Spec s) h1;
          (status, h3) = BurstNodePoolStatus_DeepCopyInto L (pm_Status s) h2
      in (out\<lparr>pm_ObjectMeta := meta, pm_Spec := spec, pm_Status := status\<rparr>, h3))"

definition BurstNodePoolList_DeepCopyInto :: "metav1 \<Rightarrow> pool_list_mem \<Rightarrow> memory \<Rightarrow> pool_list_mem \<times> memory" where
  "BurstNodePoolList_DeepCopyInto L s h =
     (let out = s\<lparr>plm_TypeMeta := plm_TypeMeta s\<rparr>;
          (meta, h1) = ListMeta_DeepCopyInto L (plm_ListMeta s) h;
          (items, h2) = clone_each pool_t (BurstNodePool_DeepCopyInto L) (plm_Items s) h1
      in (out\<lparr>plm_ListMeta := meta, plm_Items := items\<rparr>, h2))"

text \<open>The types without references.\<close>

definition InstanceTypeConfig_DeepCopyInto :: "instance_type_config \<Rightarrow> memory \<Rightarrow> instance_type_config \<times> memory" where
  "InstanceTypeConfig_DeepCopyInto s h = (s, h)"

definition NodeTaint_DeepCopyInto :: "node_taint \<Rightarrow> memory \<Rightarrow> node_taint \<times> memory" where
  "NodeTaint_DeepCopyInto s h = (s, h)"

definition ResourceRule_DeepCopyInto :: "resource_rule \<Rightarrow> memory \<Rightarrow> resource_rule \<times> memory" where
  "ResourceRule_DeepCopyInto s h = (s, h)"

definition ScalingConfig_DeepCopyInto :: "scaling_config \<Rightarrow> memory \<Rightarrow> scaling_config \<times> memory" where
  "ScalingConfig_DeepCopyInto s h =
     (s\<lparr>CooldownPeriod := CooldownPeriod s, BootTimeout := BootTimeout s\<rparr>, h)"

definition TalosConfig_DeepCopyInto :: "talos_config \<Rightarrow> memory \<Rightarrow> talos_config \<times> memory" where
  "TalosConfig_DeepCopyInto s h = (s, h)"

definition TolerationRule_DeepCopyInto :: "toleration_rule \<Rightarrow> memory \<Rightarrow> toleration_rule \<times> memory" where
  "TolerationRule_DeepCopyInto s h = (s, h)"

text \<open>\<open>DeepCopy\<close>, on a pointer that may be nil.\<close>

definition AWSConfig_DeepCopy :: "ptr \<Rightarrow> memory \<Rightarrow> ptr \<times> memory" where
  "AWSConfig_DeepCopy = new_copy aws_t AWSConfig_DeepCopyInto"

definition BurstNodePool_DeepCopy :: "metav1 \<Rightarrow> ptr \<Rightarrow> memory \<Rightarrow> ptr \<times> memory" where
  "BurstNodePool_DeepCopy L = new_copy pool_t (BurstNodePool_DeepCopyInto L)"

definition BurstNodePoolList_DeepCopy :: "metav1 \<Rightarrow> ptr \<Rightarrow> memory \<Rightarrow> ptr \<times> memory" where
  "BurstNodePoolList_DeepCopy L = new_copy pool_list_t (BurstNodePoolList_DeepCopyInto L)"

definition BurstNodePoolSpec_DeepCopy :: "ptr \<Rightarrow> memory \<Rightarrow> ptr \<times> memory" where
  "BurstNodePoolSpec_DeepCopy = new_copy spec_t BurstNodePoolSpec_DeepCopyInto"

definition BurstNodePoolStatus_DeepCopy :: "metav1 \<Rightarrow> ptr \<Rightarrow> memory \<Rightarrow> ptr \<times> memory" where
  "BurstNodePoolStatus_DeepCopy L = new_copy status_t (BurstNodePoolStatus_DeepCopyInto L)"

definition BurstNodeStatus_DeepCopy :: "metav1 \<Rightarrow> ptr \<Rightarrow> memory \<Rightarrow> ptr \<times> memory" where
  "BurstNodeStatus_DeepCopy L = new_copy node_t (BurstNodeStatus_DeepCopyInto L)"

definition InstanceTypeConfig_DeepCopy :: "ptr \<Rightarrow> memory \<Rightarrow> ptr \<times> memory" where
  "InstanceTypeConfig_DeepCopy = new_copy itc_t InstanceTypeConfig_DeepCopyInto"

definition MatchRules_DeepCopy :: "ptr \<Rightarrow> memory \<Rightarrow> ptr \<times> memory" where
  "MatchRules_DeepCopy = new_copy match_t MatchRules_DeepCopyInto"

definition NodeTaint_DeepCopy :: "ptr \<Rightarrow> memory \<Rightarrow> ptr \<times> memory" where
  "NodeTaint_DeepCopy = new_copy taint_t NodeTaint_DeepCopyInto"

definition ResourceRule_DeepCopy :: "ptr \<Rightarrow> memory \<Rightarrow> ptr \<times> memory" where
  "ResourceRule_DeepCopy = new_copy resource_rule_t ResourceRule_DeepCopyInto"

definition ScalingConfig_DeepCopy :: "ptr \<Rightarrow> memory \<Rightarrow> ptr \<times> memory" where
  "ScalingConfig_DeepCopy = new_copy scaling_t ScalingConfig_DeepCopyInto"

definition TalosConfig_DeepCopy :: "ptr \<Rightarrow> memory \<Rightarrow> ptr \<times> memory" where
  "TalosConfig_DeepCopy = new_copy talos_t TalosConfig_DeepCopyInto"

definition TolerationRule_DeepCopy :: "ptr \<Rightarrow> memory \<Rightarrow> ptr \<times> memory" where
  "TolerationRule_DeepCopy = new_copy toleration_t TolerationRule_DeepCopyInto"

text \<open>\<open>DeepCopyObject\<close> answers with an interface: nil, or a pointer of a known type.\<close>

datatype runtime_object = PoolObject "addr \<times> nat" | PoolListObject "addr \<times> nat"

definition BurstNodePool_DeepCopyObject :: "metav1 \<Rightarrow> ptr \<Rightarrow> memory \<Rightarrow> runtime_object option \<times> memory" where
  "BurstNodePool_DeepCopyObject L p h =
     (let (c, h1) = BurstNodePool_DeepCopy L p h
      in (case c of Some q \<Rightarrow> (Some (PoolObject q), h1) | None \<Rightarrow> (None, h1)))"

definition BurstNodePoolList_DeepCopyObject :: "metav1 \<Rightarrow> ptr \<Rightarrow> memory \<Rightarrow> runtime_object option \<times> memory" where
  "BurstNodePoolList_DeepCopyObject L p h =
     (let (c, h1) = BurstNodePoolList_DeepCopy L p h
      in (case c of Some q \<Rightarrow> (Some (PoolListObject q), h1) | None \<Rightarrow> (None, h1)))"

section \<open>Every copy function fulfils the contract\<close>

lemma AWSConfig_copier: "deep_copier aws_val AWSConfig_DeepCopyInto"
proof (rule struct_copier_of_fields [OF pair_copier [OF instance_types.clone_slice_copier
        pair_copier [OF strings.clone_slice_copier string_maps.clone_map_copier]],
      where proj = "\<lambda>s. (am_InstanceTypes s, am_SecurityGroupIDs s, am_Tags s)"
      and put = "\<lambda>s (a, b, c). s\<lparr>am_InstanceTypes := a, am_SecurityGroupIDs := b, am_Tags := c\<rparr>"
      and mk = "\<lambda>s ((its, n1), (sgs, n2), tags).
        (\<lparr>aws_Region = am_Region s, aws_AMI = am_AMI s, aws_InstanceType = am_InstanceType s,
          aws_InstanceTypes = its, aws_SubnetID = am_SubnetID s, aws_SecurityGroupIDs = sgs,
          aws_VolumeSize = am_VolumeSize s, aws_VolumeType = am_VolumeType s, aws_Tags = tags\<rparr>, [n1, n2])"])
qed (auto simp: aws_val_def AWSConfig_DeepCopyInto_def pair_copy_def bind_eq_Some_conv Let_def split: prod.splits)

lemma MatchRules_copier: "deep_copier match_val MatchRules_DeepCopyInto"
proof (rule struct_copier_of_fields [OF pair_copier [OF tolerations.clone_slice_copier
        pair_copier [OF string_maps.clone_map_copier resource_rules.clone_slice_copier]],
      where proj = "\<lambda>s. (mm_Tolerations s, mm_NodeAffinityLabels s, mm_Resources s)"
      and put = "\<lambda>s (a, b, c). s\<lparr>mm_Tolerations := a, mm_NodeAffinityLabels := b, mm_Resources := c\<rparr>"
      and mk = "\<lambda>s ((tols, n1), labels, (ress, n2)).
        (\<lparr>Tolerations = tols, NodeAffinityLabels = labels, Resources = ress\<rparr>, [n1, n2])"])
qed (auto simp: match_val_def MatchRules_DeepCopyInto_def pair_copy_def bind_eq_Some_conv Let_def split: prod.splits)

interpretation aws: struct_copier aws_t aws_val AWSConfig_DeepCopyInto
  by (intro struct_copier.intro AWSConfig_copier) (unfold_locales, simp add: block_types)

interpretation match_rules: struct_copier match_t match_val MatchRules_DeepCopyInto
  by (intro struct_copier.intro MatchRules_copier) (unfold_locales, simp add: block_types)

lemma BurstNodePoolSpec_copier: "deep_copier spec_val BurstNodePoolSpec_DeepCopyInto"
proof (rule struct_copier_of_fields [OF pair_copier [OF aws.new_copy_copier pair_copier [OF MatchRules_copier
        pair_copier [OF string_maps.clone_map_copier taints.clone_slice_copier]]],
      where proj = "\<lambda>s. (sm_AWS s, sm_MatchRules s, sm_NodeLabels s, sm_NodeTaints s)"
      and put = "\<lambda>s (a, b, c, d). s\<lparr>sm_AWS := a, sm_MatchRules := b, sm_NodeLabels := c, sm_NodeTaints := d\<rparr>"
      and mk = "\<lambda>s (aws, (match, nils), labels, (taints, n1)).
        (\<lparr>Cloud = sm_Cloud s, AWS = map_option fst aws, Talos = sm_Talos s, Scaling = sm_Scaling s,
          MatchRules = match, NodeLabels = labels, NodeTaints = taints\<rparr>,
         (case aws of None \<Rightarrow> [] | Some (_, ns) \<Rightarrow> ns) @ nils @ [n1])"])
qed (auto simp: spec_val_def BurstNodePoolSpec_DeepCopyInto_def pair_copy_def bind_eq_Some_conv Let_def split: prod.splits)

interpretation pool_spec: struct_copier spec_t spec_val BurstNodePoolSpec_DeepCopyInto
  by (intro struct_copier.intro BurstNodePoolSpec_copier) (unfold_locales, simp add: block_types)

text \<open>The copy functions that need nothing of \<open>metav1\<close>, called through a pointer.\<close>

interpretation aws_pointer: deep_copier "ptr_val aws_t aws_val" AWSConfig_DeepCopy
  unfolding AWSConfig_DeepCopy_def by (rule aws.new_copy_copier)

interpretation match_rules_pointer: deep_copier "ptr_val match_t match_val" MatchRules_DeepCopy
  unfolding MatchRules_DeepCopy_def by (rule match_rules.new_copy_copier)

interpretation pool_spec_pointer: deep_copier "ptr_val spec_t spec_val" BurstNodePoolSpec_DeepCopy
  unfolding BurstNodePoolSpec_DeepCopy_def by (rule pool_spec.new_copy_copier)

lemma BurstNodeStatus_copier:
  assumes L: "metav1_copies L"
  shows "deep_copier node_val (BurstNodeStatus_DeepCopyInto L)"
proof -
  from L have time: "deep_copier plain (Time_DeepCopyInto L)"
    and ptr: "deep_copier (ptr_val time_t plain) (Time_DeepCopy L)" by (simp_all add: metav1_copies_def)
  note ptr = guarded_copier [OF ptr]
  show ?thesis
  proof (rule struct_copier_of_fields [OF pair_copier [OF pure_copier [of "map_of NodeStates"]
        pair_copier [OF time pair_copier [OF ptr ptr]]],
      where proj = "\<lambda>s. (nm_State s, nm_LaunchedAt s, nm_ReadyAt s, nm_LastPodFinished s)"
      and put = "\<lambda>s (a, b, c, d). s\<lparr>nm_State := a, nm_LaunchedAt := b, nm_ReadyAt := c, nm_LastPodFinished := d\<rparr>"
      and mk = "\<lambda>s (st, launched, ready, finished).
        \<lparr>ns_Name = nm_Name s, ns_InstanceID = nm_InstanceID s, ns_InstanceType = nm_InstanceType s,
         ns_State = st, ns_LaunchedAt = launched, ns_ReadyAt = ready, ns_LastPodFinished = finished\<rparr>"])
  qed (auto simp: node_val_def plain_def BurstNodeStatus_DeepCopyInto_def pair_copy_def bind_eq_Some_conv Let_def
      split: prod.splits)
qed

lemma node_structs: "metav1_copies L \<Longrightarrow> struct_copier node_t node_val (BurstNodeStatus_DeepCopyInto L)"
  by (intro struct_copier.intro BurstNodeStatus_copier) (unfold_locales, simp add: block_types)

lemma condition_structs: "metav1_copies L \<Longrightarrow> struct_copier condition_t plain (Condition_DeepCopyInto L)"
  by (intro struct_copier.intro conditions.go_type_axioms) (simp add: metav1_copies_def)

lemma BurstNodePoolStatus_copier:
  assumes L: "metav1_copies L"
  shows "deep_copier status_val (BurstNodePoolStatus_DeepCopyInto L)"
proof (rule struct_copier_of_fields [OF pair_copier [OF struct_copier.clone_each_copier [OF node_structs [OF L]]
        struct_copier.clone_each_copier [OF condition_structs [OF L]]],
      where proj = "\<lambda>s. (stm_Nodes s, stm_Conditions s)"
      and put = "\<lambda>s (a, b). s\<lparr>stm_Nodes := a, stm_Conditions := b\<rparr>"
      and mk = "\<lambda>s ((ns, n1), (cs, n2)).
        (\<lparr>ActiveNodes = stm_ActiveNodes s, PendingNodes = stm_PendingNodes s, Nodes = ns, Conditions = cs\<rparr>, [n1, n2])"])
qed (auto simp: status_val_def BurstNodePoolStatus_DeepCopyInto_def pair_copy_def bind_eq_Some_conv Let_def
    split: prod.splits)

lemma status_structs:
  "metav1_copies L \<Longrightarrow> struct_copier status_t status_val (BurstNodePoolStatus_DeepCopyInto L)"
  by (intro struct_copier.intro BurstNodePoolStatus_copier) (unfold_locales, simp add: block_types)

lemma BurstNodePool_copier:
  assumes L: "metav1_copies L"
  shows "deep_copier pool_val (BurstNodePool_DeepCopyInto L)"
proof -
  from L have meta: "deep_copier object_meta_val (ObjectMeta_DeepCopyInto L)" by (simp add: metav1_copies_def)
  show ?thesis
  proof (rule struct_copier_of_fields [OF pair_copier [OF meta pair_copier [OF BurstNodePoolSpec_copier
        BurstNodePoolStatus_copier [OF L]]],
      where proj = "\<lambda>s. (pm_ObjectMeta s, pm_Spec s, pm_Status s)"
      and put = "\<lambda>s (a, b, c). s\<lparr>pm_ObjectMeta := a, pm_Spec := b, pm_Status := c\<rparr>"
      and mk = "\<lambda>s ((ns, name, rv, labels, annotations), (spec, nils1), (status, nils2)).
        (pm_TypeMeta s, labels, annotations,
         \<lparr>pool_Namespace = ns, pool_Name = name, pool_ResourceVersion = rv, pool_Spec = spec, pool_Status = status\<rparr>,
         nils1 @ nils2)"])
  qed (auto simp: pool_val_def BurstNodePool_DeepCopyInto_def pair_copy_def bind_eq_Some_conv Let_def
      split: prod.splits)
qed

lemma pool_structs: "metav1_copies L \<Longrightarrow> struct_copier pool_t pool_val (BurstNodePool_DeepCopyInto L)"
  by (intro struct_copier.intro BurstNodePool_copier) (unfold_locales, simp add: block_types)

lemma BurstNodePoolList_copier:
  assumes L: "metav1_copies L"
  shows "deep_copier pool_list_val (BurstNodePoolList_DeepCopyInto L)"
proof -
  from L have meta: "deep_copier list_meta_val (ListMeta_DeepCopyInto L)" by (simp add: metav1_copies_def)
  show ?thesis
  proof (rule struct_copier_of_fields [OF pair_copier [OF meta
        struct_copier.clone_each_copier [OF pool_structs [OF L]]],
      where proj = "\<lambda>s. (plm_ListMeta s, plm_Items s)"
      and put = "\<lambda>s (a, b). s\<lparr>plm_ListMeta := a, plm_Items := b\<rparr>"
      and mk = "\<lambda>s (meta, (items, n1)). (plm_TypeMeta s, meta, items, n1)"])
  qed (auto simp: pool_list_val_def BurstNodePoolList_DeepCopyInto_def pair_copy_def bind_eq_Some_conv Let_def
      split: prod.splits)
qed

lemma pool_list_structs:
  "metav1_copies L \<Longrightarrow> struct_copier pool_list_t pool_list_val (BurstNodePoolList_DeepCopyInto L)"
  by (intro struct_copier.intro BurstNodePoolList_copier) (unfold_locales, simp add: block_types)

text \<open>The types without references are copied by assignment.\<close>

lemma plain_DeepCopyInto:
  "InstanceTypeConfig_DeepCopyInto = (\<lambda>x h. (x, h))"
  "NodeTaint_DeepCopyInto = (\<lambda>x h. (x, h))"
  "ResourceRule_DeepCopyInto = (\<lambda>x h. (x, h))"
  "ScalingConfig_DeepCopyInto = (\<lambda>x h. (x, h))"
  "TalosConfig_DeepCopyInto = (\<lambda>x h. (x, h))"
  "TolerationRule_DeepCopyInto = (\<lambda>x h. (x, h))"
  by (intro ext, simp add: InstanceTypeConfig_DeepCopyInto_def NodeTaint_DeepCopyInto_def ResourceRule_DeepCopyInto_def ScalingConfig_DeepCopyInto_def TalosConfig_DeepCopyInto_def TolerationRule_DeepCopyInto_def)+

lemma plain_copier: "deep_copier plain (\<lambda>x h. (x, h))"
  unfolding plain_def [abs_def] by (rule pure_copier)

lemma plain_DeepCopy_copier:
  "deep_copier (ptr_val itc_t plain) InstanceTypeConfig_DeepCopy"
  "deep_copier (ptr_val taint_t plain) NodeTaint_DeepCopy"
  "deep_copier (ptr_val resource_rule_t plain) ResourceRule_DeepCopy"
  "deep_copier (ptr_val scaling_t plain) ScalingConfig_DeepCopy"
  "deep_copier (ptr_val talos_t plain) TalosConfig_DeepCopy"
  "deep_copier (ptr_val toleration_t plain) TolerationRule_DeepCopy"
  unfolding InstanceTypeConfig_DeepCopy_def NodeTaint_DeepCopy_def ResourceRule_DeepCopy_def ScalingConfig_DeepCopy_def TalosConfig_DeepCopy_def TolerationRule_DeepCopy_def plain_DeepCopyInto
  by (intro struct_copier.new_copy_copier struct_copier.intro plain_copier instance_types.go_type_axioms taints.go_type_axioms resource_rules.go_type_axioms scalings.go_type_axioms taloses.go_type_axioms tolerations.go_type_axioms)+

section \<open>A library and a memory to evaluate on\<close>

definition sample_metav1 :: metav1 where
  "sample_metav1 =
     \<lparr>ObjectMeta_DeepCopyInto = (\<lambda>s h.
        let (labels, h1) = clone_map string_map_t (om_Labels s) h;
            (annotations, h2) = clone_map string_map_t (om_Annotations s) h1
        in (s\<lparr>om_Labels := labels, om_Annotations := annotations\<rparr>, h2)),
      ListMeta_DeepCopyInto = (\<lambda>s h.
        let (remaining, h1) = new_copy int_t (\<lambda>x h. (x, h)) (lm_RemainingItemCount s) h
        in (s\<lparr>lm_RemainingItemCount := remaining\<rparr>, h1)),
      Condition_DeepCopyInto = (\<lambda>s h. (s, h)),
      Time_DeepCopyInto = (\<lambda>t h. (t, h)),
      Time_DeepCopy = new_copy time_t (\<lambda>x h. (x, h))\<rparr>"

lemma sample_metav1_copies: "metav1_copies sample_metav1"
  unfolding metav1_copies_def
proof (intro conjI)
  show "deep_copier object_meta_val (ObjectMeta_DeepCopyInto sample_metav1)"
  proof (rule struct_copier_of_fields [OF pair_copier [OF string_maps.clone_map_copier string_maps.clone_map_copier],
      where proj = "\<lambda>s. (om_Labels s, om_Annotations s)"
      and put = "\<lambda>s (a, b). s\<lparr>om_Labels := a, om_Annotations := b\<rparr>"
      and mk = "\<lambda>s (a, b). (om_Namespace s, om_Name s, om_ResourceVersion s, a, b)"])
  qed (auto simp: object_meta_val_def sample_metav1_def pair_copy_def bind_eq_Some_conv Let_def split: prod.splits)
  have int: "deep_copier (ptr_val int_t plain) (new_copy int_t (\<lambda>x h. (x, h)))"
    by (intro struct_copier.new_copy_copier struct_copier.intro plain_copier ints.go_type_axioms)
  show "deep_copier list_meta_val (ListMeta_DeepCopyInto sample_metav1)"
  proof (rule struct_copier_of_fields [OF int, where proj = lm_RemainingItemCount
      and put = "\<lambda>s a. s\<lparr>lm_RemainingItemCount := a\<rparr>"
      and mk = "\<lambda>s a. (lm_ResourceVersion s, lm_Continue s, a)"])
  qed (auto simp: list_meta_val_def sample_metav1_def bind_eq_Some_conv Let_def split: prod.splits)
  show "deep_copier (ptr_val time_t plain) (Time_DeepCopy sample_metav1)"
    unfolding sample_metav1_def metav1.select_convs
    by (intro struct_copier.new_copy_copier struct_copier.intro plain_copier times.go_type_axioms)
qed (simp_all add: sample_metav1_def plain_copier)

text \<open>A pool at address 9, with an AWS configuration, one running node, and no match rules.\<close>

definition sample_memory :: memory where
  "sample_memory =
     [InstanceTypeConfigs [\<lparr>itc_Name = ''m6i.xlarge'', itc_AMI = '''', itc_Architecture = ''amd64''\<rparr>],
      Strings [''sg-1'', ''sg-2'', ''sg-3''],
      StringMap [(''team'', ''ml'')],
      AWSConfigs [\<lparr>am_Region = ''us-west-2'', am_AMI = ''ami-1'', am_InstanceType = '''',
        am_InstanceTypes = Slice 0 0 1, am_SubnetID = ''subnet-1'', am_SecurityGroupIDs = Slice 1 1 2,
        am_VolumeSize = 30, am_VolumeType = ''gp3'', am_Tags = Some 2\<rparr>],
      StringMap [(''role'', ''burst''), (''zone'', ''a'')],
      Taints [],
      Times [100],
      NodeStatuses [\<lparr>nm_Name = ''burst-1'', nm_InstanceID = ''i-1'', nm_InstanceType = ''m6i.xlarge'', nm_State = ''Running'',
        nm_LaunchedAt = 50, nm_ReadyAt = Some (6, 0), nm_LastPodFinished = None\<rparr>],
      StringMap [],
      PoolObjects [\<lparr>pm_TypeMeta = \<lparr>tm_Kind = ''BurstNodePool'', tm_APIVersion = ''burst.homelab.dev/v1alpha1''\<rparr>,
        pm_ObjectMeta = \<lparr>om_Namespace = '''', om_Name = ''burst'', om_ResourceVersion = 7, om_Labels = Some 8, om_Annotations = None\<rparr>,
        pm_Spec = \<lparr>sm_Cloud = ''aws'', sm_AWS = Some (3, 0),
          sm_Talos = \<lparr>MachineConfigSecret = ''talos'', MachineConfigKey = ''worker.yaml''\<rparr>,
          sm_Scaling = \<lparr>MaxNodes = 3, CooldownPeriod = 0, BootTimeout = 0\<rparr>,
          sm_MatchRules = \<lparr>mm_Tolerations = NilSlice, mm_NodeAffinityLabels = None, mm_Resources = NilSlice\<rparr>,
          sm_NodeLabels = Some 4, sm_NodeTaints = Slice 5 0 0\<rparr>,
        pm_Status = \<lparr>stm_ActiveNodes = 1, stm_PendingNodes = 0, stm_Nodes = Slice 7 0 1, stm_Conditions = NilSlice\<rparr>\<rparr>]]"

section \<open>Properties\<close>

text \<open>
  C18. A copy of a pool made by \<open>DeepCopyObject\<close> is a new object with the value of the original, nil and
  empty slices told apart, and shares no memory with it: the original keeps its value whatever is
  written to memory allocated by the copy, and the copy keeps its value whatever is written to memory
  that existed before.
\<close>

theorem BurstNodePool_DeepCopyObject_independent:
  assumes "metav1_copies L" and "elem_at pool_t h src = Some s" and "pool_val h s = Some v"
  shows "\<exists>q h'. BurstNodePool_DeepCopyObject L (Some src) h = (Some (PoolObject q), h') \<and>
    ptr_val pool_t pool_val h' (Some q) = Some (Some v) \<and>
    (\<forall>g. keeps 0 h g \<longrightarrow> ptr_val pool_t pool_val g (Some src) = Some (Some v)) \<and>
    (\<forall>g. keeps (length h) h' g \<longrightarrow> ptr_val pool_t pool_val g (Some q) = Some (Some v))"
proof -
  note copier = struct_copier.new_copy_copier [OF pool_structs [OF assms(1)]]
  have v: "ptr_val pool_t pool_val h (Some src) = Some (Some v)" using assms(2,3) by (simp add: ptr_val_def)
  obtain c h' where c: "new_copy pool_t (BurstNodePool_DeepCopyInto L) (Some src) h = (c, h')" by fastforce
  then obtain q where "c = Some q" by (auto simp: new_copy_def split: prod.splits)
  with deep_copier.independent [OF copier v c] c show ?thesis
    by (simp add: BurstNodePool_DeepCopyObject_def BurstNodePool_DeepCopy_def)
qed

lemma BurstNodePool_DeepCopyObject_independent_witness:
  "\<exists>v q h'. BurstNodePool_DeepCopyObject sample_metav1 (Some (9, 0)) sample_memory = (Some (PoolObject q), h') \<and>
    ptr_val pool_t pool_val h' (Some q) = Some (Some v) \<and>
    ptr_val pool_t pool_val (sample_memory @ [Strings []]) (Some (9, 0)) = Some (Some v)"
proof -
  have "\<exists>s v. elem_at pool_t sample_memory (9, 0) = Some s \<and> pool_val sample_memory s = Some v"
    by (intro exI conjI) code_simp+
  then obtain s v where s: "elem_at pool_t sample_memory (9, 0) = Some s" "pool_val sample_memory s = Some v"
    by blast
  from BurstNodePool_DeepCopyObject_independent [OF sample_metav1_copies s] show ?thesis by fastforce
qed

text \<open>
  Every \<open>DeepCopy\<close> of the package answers nil for nil, and otherwise copies: the value of what the
  receiver points to, in new memory only.
\<close>

theorem DeepCopy_all_copy:
  assumes "metav1_copies L"
  shows "(\<forall>h. BurstNodePool_DeepCopyObject L None h = (None, h) \<and> BurstNodePoolList_DeepCopyObject L None h = (None, h)) \<and>
    deep_copier (ptr_val pool_t pool_val) (BurstNodePool_DeepCopy L) \<and>
    deep_copier (ptr_val pool_list_t pool_list_val) (BurstNodePoolList_DeepCopy L) \<and>
    deep_copier (ptr_val spec_t spec_val) BurstNodePoolSpec_DeepCopy \<and>
    deep_copier (ptr_val status_t status_val) (BurstNodePoolStatus_DeepCopy L) \<and>
    deep_copier (ptr_val node_t node_val) (BurstNodeStatus_DeepCopy L) \<and>
    deep_copier (ptr_val aws_t aws_val) AWSConfig_DeepCopy \<and>
    deep_copier (ptr_val match_t match_val) MatchRules_DeepCopy \<and>
    deep_copier (ptr_val itc_t plain) InstanceTypeConfig_DeepCopy \<and>
    deep_copier (ptr_val taint_t plain) NodeTaint_DeepCopy \<and>
    deep_copier (ptr_val resource_rule_t plain) ResourceRule_DeepCopy \<and>
    deep_copier (ptr_val scaling_t plain) ScalingConfig_DeepCopy \<and>
    deep_copier (ptr_val talos_t plain) TalosConfig_DeepCopy \<and>
    deep_copier (ptr_val toleration_t plain) TolerationRule_DeepCopy"
  unfolding BurstNodePool_DeepCopy_def BurstNodePoolList_DeepCopy_def
    BurstNodePoolStatus_DeepCopy_def BurstNodeStatus_DeepCopy_def
    BurstNodePool_DeepCopyObject_def BurstNodePoolList_DeepCopyObject_def
  using plain_DeepCopy_copier aws_pointer.deep_copier_axioms match_rules_pointer.deep_copier_axioms
    pool_spec_pointer.deep_copier_axioms
    struct_copier.new_copy_copier [OF node_structs [OF assms]] struct_copier.new_copy_copier [OF status_structs [OF assms]]
    struct_copier.new_copy_copier [OF pool_structs [OF assms]] struct_copier.new_copy_copier [OF pool_list_structs [OF assms]]
  by (simp add: new_copy_def [of _ _ None])

lemma DeepCopy_all_copy_witness:
  "deep_copier (ptr_val pool_list_t pool_list_val) (BurstNodePoolList_DeepCopy sample_metav1) \<and>
   deep_copier (ptr_val node_t node_val) (BurstNodeStatus_DeepCopy sample_metav1)"
  using DeepCopy_all_copy [OF sample_metav1_copies] by simp



end
