(* ===== verification/Progress.thy ===== *)
theory Progress
  imports Cluster
begin

text \<open>
  That the handlers get somewhere: every run ends after a number of calls bounded by what it read,
  a teardown that meets no failure completes, the idle timer call by call, and the status of a pool
  restored when a node has gone through its whole life.
\<close>

section \<open>Providers that make one call per operation\<close>

locale direct_provider = cloud_provider +
  assumes launch_one: "emits (LaunchNode P opts) (\<lambda>r es. length es \<le> 1)"
    and terminate_one: "emits (TerminateNode P i) (\<lambda>r es. length es \<le> 1)"
    and list_one: "emits (ListManagedNodes P) (\<lambda>r es. length es \<le> 1)"

text \<open>The number of instance types a pool offers.\<close>

definition type_count :: "pool \<Rightarrow> nat" where
  "type_count pl = (case AWS (pool_Spec pl) of None \<Rightarrow> 0 | Some aws \<Rightarrow> length (ResolveInstanceTypes aws))"

lemma SelectInstanceTypes_length:
  assumes "slice_sort (pdqsort_types W)"
  shows "length (SelectInstanceTypes (sort_types W) pl pods) \<le> type_count pl"
proof (cases "AWS (pool_Spec pl)")
  case None
  then show ?thesis by (simp add: SelectInstanceTypes_def)
next
  case (Some aws)
  obtain cpu mem gpu where m: "maxPodRequirements pods = (cpu, mem, gpu)" by (metis prod_cases3)
  have "mset (SelectInstanceTypes (sort_types W) pl pods) =
      mset (filter (candidate_fits cpu mem gpu (requiredArchitecture pods)) (ResolveInstanceTypes aws))"
    unfolding sort_types_def
    by (rule type_sort.SelectInstanceTypes_mset [OF type_sort_sort_slice [OF assms] Some m])
  then have "length (SelectInstanceTypes (sort_types W) pl pods) =
      length (filter (candidate_fits cpu mem gpu (requiredArchitecture pods)) (ResolveInstanceTypes aws))"
    by (rule mset_eq_length)
  then show ?thesis by (simp add: type_count_def Some)
qed

context direct_provider
begin

lemma launchWithFallback_calls: "emits (launchWithFallback P pl cs nm ud) (\<lambda>r es. length es \<le> length cs)"
proof (induction cs)
  case Nil
  then show ?case by (simp add: emits_return)
next
  case (Cons c cs)
  show ?case
    unfolding launchWithFallback.simps
    by (intro emits_rules emits_bind [OF launch_one] emits_mono [OF Cons.IH]) auto
qed

lemma launch_loop_calls: "emits (launch_loop W P cs cd n pl) (\<lambda>r es. length es \<le> n * (2 + length cs))"
proof (induction n arbitrary: pl)
  case 0
  then show ?case by (simp add: emits_return)
next
  case (Suc n)
  show ?case
    unfolding launch_loop.simps randomSuffix_def world_calls
      State_Monad.bind_assoc State_Monad.bind_left_identity Let_def
    by (intro emits_rules emits_bind [OF launchWithFallback_calls] emits_mono [OF Suc.IH]) auto
qed

lemma provisioner_launch_calls:
  "emits (provisioner_launch W P p pl cs k) (\<lambda>r es. length es \<le> 3 + nat k * (2 + length cs))"
  unfolding provisioner_launch_def world_calls Let_def
  by (intro emits_rules emits_bind [OF launch_loop_calls]) auto

lemma provisioner_size_calls:
  assumes "slice_sort (pdqsort_types W)"
  shows "emits (provisioner_size W P p pl) (\<lambda>r es. length es \<le> 4 + nat (room pl) * (2 + type_count pl))"
proof -
  have launch: "emits (provisioner_launch W P p pl (SelectInstanceTypes (sort_types W) pl pods)
      (CalculateNodesNeeded pods' cap (currentNodes pl) (MaxNodes (Scaling (pool_Spec pl)))))
      (\<lambda>r es. length es \<le> 3 + nat (room pl) * (2 + type_count pl))" for pods pods' cap
  proof (rule emits_mono [OF provisioner_launch_calls])
    fix r and es :: "event list"
    let ?k = "CalculateNodesNeeded pods' cap (currentNodes pl) (MaxNodes (Scaling (pool_Spec pl)))"
    let ?n = "length (SelectInstanceTypes (sort_types W) pl pods)"
    assume es: "length es \<le> 3 + nat ?k * (2 + ?n)"
    have "nat ?k \<le> nat (room pl)"
      using CalculateNodesNeeded_range [of pods' cap "currentNodes pl" "MaxNodes (Scaling (pool_Spec pl))"]
      by (intro nat_mono) (simp add: room_def pool_max_def)
    then have "nat ?k * (2 + ?n) \<le> nat (room pl) * (2 + type_count pl)"
      using SelectInstanceTypes_length [OF assms, of pl pods] by (intro mult_le_mono) simp_all
    with es show "length es \<le> 3 + nat (room pl) * (2 + type_count pl)" by simp
  qed
  show ?thesis
    unfolding provisioner_size_def world_calls Let_def
    by (intro emits_rules) (auto intro!: emits_mono [OF launch])
qed

text \<open>The pool in the bound is one the run read.\<close>

lemma provisioner_match_calls:
  assumes "slice_sort (pdqsort_types W)"
  shows "emits (provisioner_match W P p) (\<lambda>r es. length es \<le> 2 \<or>
    (\<exists>pl \<in> set (pools_read es). length es \<le> 6 + nat (room pl) * (2 + type_count pl)))"
  unfolding provisioner_match_def world_calls
  by (intro emits_rules emits_mono [OF provisioner_size_calls [OF assms]]) auto

lemma within_debounce_calls:
  "emits (within_debounce W d p) (\<lambda>r es. length es \<le> 1 \<and> pools_read es = [])"
  unfolding within_debounce_def world_calls Let_def by (intro emits_rules) simp_all

lemma provisioner_calls:
  assumes "slice_sort (pdqsort_types W)"
  shows "emits (ProvisionerReconciler_Reconcile W P d req) (\<lambda>r es. length es \<le> 4 \<or>
    (\<exists>pl \<in> set (pools_read es). length es \<le> 8 + nat (room pl) * (2 + type_count pl)))"
  unfolding ProvisionerReconciler_Reconcile_def world_calls
  by (intro emits_rules emits_bind [OF within_debounce_calls] emits_mono [OF provisioner_match_calls [OF assms]])
     (auto simp: algebra_simps intro: rev_bexI)

lemma reaper_calls: "emits (ReaperReconciler_Reconcile W P D i req) (\<lambda>r es. length es \<le> 14)"
proof -
  have drain: "emits (case D of None \<Rightarrow> State_Monad.return None | Some d \<Rightarrow> DrainNode W d m) (\<lambda>r es. length es \<le> 1)" for m
    unfolding DrainNode_def world_calls by (intro emits_rules) simp_all
  have cordon: "emits (case D of None \<Rightarrow> State_Monad.return None | Some d \<Rightarrow> CordonNode W m) (\<lambda>r es. length es \<le> 2)" for m
    unfolding CordonNode_def world_calls by (intro emits_rules) simp_all
  have ending: "emits (teardown_terminate W P n pl j) (\<lambda>r es. length es \<le> 4)" for n pl j
    unfolding teardown_terminate_def world_calls by (intro emits_rules emits_bind [OF terminate_one]) auto
  have drained: "emits (teardown_drain W P D n pl j) (\<lambda>r es. length es \<le> 6)" for n pl j
    unfolding teardown_drain_def by (intro emits_rules emits_bind [OF drain] emits_mono [OF ending]) auto
  have down: "emits (teardown W P D n pl j) (\<lambda>r es. length es \<le> 9)" for n pl j
    unfolding teardown_def by (intro emits_rules emits_bind [OF cordon] emits_mono [OF drained]) auto
  have running: "emits (reap_running W P D k n pl j) (\<lambda>r es. length es \<le> 12)" for k n pl j
    unfolding reap_running_def isNodeIdle_def reap_idle_def world_calls Let_def
      State_Monad.bind_assoc State_Monad.bind_left_identity
    by (intro emits_rules) (auto intro!: emits_rules emits_mono [OF down] split: sum.split)
  show ?thesis
    unfolding ReaperReconciler_Reconcile_def findPoolAndNode_def world_calls
      State_Monad.bind_assoc State_Monad.bind_left_identity
    by (intro emits_rules) (auto intro!: emits_rules emits_mono [OF running] split: sum.split)
qed

lemma scan_nodes_calls:
  "emits (scan_nodes W P n pl js) (\<lambda>r es. length es \<le> 3 \<and> (r = None \<longrightarrow> es = []))"
proof (induction js)
  case (Cons j js)
  then show ?case
    unfolding scan_nodes.simps node_became_ready_def check_boot_timeout_def world_calls Let_def
    by (intro emits_rules emits_bind [OF terminate_one]) (auto intro!: emits_rules emits_bind [OF terminate_one])
qed (simp add: emits_return)

lemma scan_pools_calls: "emits (scan_pools W P n pls) (\<lambda>r es. length es \<le> 3)"
proof (induction pls)
  case (Cons pl pls)
  then show ?case
    unfolding scan_pools.simps
    by (intro emits_bind [OF scan_nodes_calls] emits_rules) (auto elim!: emits_mono)
qed (simp add: emits_return)

lemma node_ready_calls: "emits (NodeReadyReconciler_Reconcile W P req) (\<lambda>r es. length es \<le> 5)"
  unfolding NodeReadyReconciler_Reconcile_def world_calls
  by (intro emits_rules emits_mono [OF scan_pools_calls]) auto

lemma remove_in_nodes_calls:
  "emits (remove_in_nodes W nm pl js) (\<lambda>r es. length es \<le> 1 \<and> (\<not> r \<longrightarrow> es = []))"
proof (induction js)
  case (Cons j js)
  then show ?case unfolding remove_in_nodes.simps by (intro emits_rules) auto
qed (simp add: emits_return)

lemma remove_in_pools_calls: "emits (remove_in_pools W nm pls) (\<lambda>r es. length es \<le> 1)"
proof (induction pls)
  case (Cons pl pls)
  then show ?case
    unfolding remove_in_pools.simps
    by (intro emits_bind [OF remove_in_nodes_calls] emits_rules) (auto elim!: emits_mono)
qed (simp add: emits_return)

lemma removeFromPoolStatus_calls: "emits (removeFromPoolStatus W nm) (\<lambda>r es. length es \<le> 2)"
  unfolding removeFromPoolStatus_def world_calls
  by (intro emits_rules emits_mono [OF remove_in_pools_calls]) auto

lemma terminate_orphans_calls: "emits (terminate_orphans W P names b cns) (\<lambda>r es. length es \<le> 4 * length cns)"
proof (induction cns)
  case (Cons cn cns)
  show ?case
    unfolding terminate_orphans.simps world_calls
    by (intro emits_rules emits_bind [OF terminate_one] emits_bind [OF removeFromPoolStatus_calls]
        emits_mono [OF Cons.IH]) auto
qed (simp add: emits_return)

lemma delete_orphans_calls: "emits (delete_orphans W byname ns) (\<lambda>r es. length es \<le> 3 * length ns)"
proof (induction ns)
  case (Cons n ns)
  show ?case
    unfolding delete_orphans.simps world_calls
    by (intro emits_rules emits_bind [OF removeFromPoolStatus_calls] emits_mono [OF Cons.IH]) auto
qed (simp add: emits_return)

end

interpretation ec2_direct: direct_provider "ec2_provider W" for W
  by unfold_locales
     (simp_all add: EC2Provider_LaunchNode_def EC2Provider_TerminateNode_def EC2Provider_ListManagedNodes_def
        world_calls emits_def)

lemma collect_nodes_length: "collect_nodes is ns = Inr ms \<Longrightarrow> length ms = length is + length ns"
  by (induction "is" arbitrary: ns) (auto split: sum.splits)

text \<open>The orphan check with EC2: the two lists are the answers to its first two calls.\<close>

lemma orphan_calls:
  "emits (OrphanReconciler_Reconcile W (ec2_provider W) c b) (\<lambda>r es. length es \<le> 2 \<or>
    (\<exists>rs ns fs. es = EvDescribeInstances managed_filters (Inr rs) #
       EvListNodesWithLabel (managedLabel, labelValueTrue) (Inr ns) # fs \<and>
       length fs \<le> 4 * length (concat rs) + 3 * length ns))"
proof -
  have work: "emits (do { terminate_orphans W (ec2_provider W) names bt cns;
      delete_orphans W byname ns; State_Monad.return x }) (\<lambda>r es. length es \<le> 4 * length cns + 3 * length ns)"
    for names bt cns byname ns and x :: reconcile_result
    by (intro emits_bind [OF ec2_direct.terminate_orphans_calls] emits_bind [OF ec2_direct.delete_orphans_calls]
        emits_return) simp
  show ?thesis
    unfolding OrphanReconciler_Reconcile_def ec2_provider_simps EC2Provider_ListManagedNodes_def world_calls
      State_Monad.bind_assoc State_Monad.bind_left_identity
    by (intro emits_rules) (auto dest: collect_nodes_length intro!: emits_mono [OF work] split: sum.splits)
qed

section \<open>No panic\<close>

text \<open>The pool's \<open>aws\<close> section is dereferenced only for a selected candidate, which needs one.\<close>

lemma selected_has_aws: "SelectInstanceTypes srt pl pods \<noteq> [] \<Longrightarrow> AWS (pool_Spec pl) \<noteq> None"
  by (cases "AWS (pool_Spec pl)") (simp_all add: SelectInstanceTypes_def)

context cloud_provider
begin

lemma launch_no_panic:
  assumes "AWS (pool_Spec pl) \<noteq> None"
  shows "emits (provisioner_launch W P p pl cs k) (\<lambda>r es. r \<noteq> Inl NilDeref)"
  unfolding provisioner_launch_def world_calls Let_def
  by (intro emits_rules emits_bind [OF launch_loop_spec])
     (auto simp: loop_result_def no_requeue_def assms)

lemma size_no_panic: "emits (provisioner_size W P p pl) (\<lambda>r es. r \<noteq> Inl NilDeref)"
  unfolding provisioner_size_def world_calls Let_def
  by (intro emits_rules launch_no_panic) (auto simp: requeue_after_def dest!: selected_has_aws)

lemma match_no_panic: "emits (provisioner_match W P p) (\<lambda>r es. r \<noteq> Inl NilDeref)"
  unfolding provisioner_match_def world_calls
  by (intro emits_rules size_no_panic) (auto simp: no_requeue_def)

lemma provisioner_no_panic_spec:
  assumes "\<And>h. w_GetPod W h req \<noteq> Inl NilDeref"
  shows "emits (ProvisionerReconciler_Reconcile W P d req) (\<lambda>r es. r \<noteq> Inl NilDeref)"
proof -
  have wait: "emits (within_debounce W d p) (\<lambda>r es. True)" for p
    unfolding within_debounce_def world_calls Let_def by (intro emits_rules) simp_all
  show ?thesis
    unfolding ProvisionerReconciler_Reconcile_def get_pod_def
  proof (rule emits_bind_answer)
    fix h
    show "emits (case w_GetPod W h req of
        Inl err \<Rightarrow> State_Monad.return (if IsNotFound err then no_requeue else Inl err)
      | Inr p \<Rightarrow> if \<not> IsPodUnschedulable p then State_Monad.return no_requeue
          else do {
            w \<leftarrow> within_debounce W d p;
            (if w then State_Monad.return (requeue_after (debouncePeriod d)) else provisioner_match W P p)
          }) (\<lambda>r fs. r \<noteq> Inl NilDeref)"
      using assms [of h]
      by (intro emits_rules emits_bind [OF wait] match_no_panic)
         (auto simp: no_requeue_def requeue_after_def)
  qed
qed

end

section \<open>A teardown without failures\<close>

lemma update_accepted:
  assumes "status_accepted W"
  shows "emits (update_status W q) (\<lambda>r es. \<exists>rv. r = (None, at_version rv q) \<and> es = [EvUpdateStatus q (Inr rv)])"
proof -
  obtain rv where "\<And>h p. w_UpdateStatus W h p = Inr (rv h p)"
    using assms unfolding status_accepted_def by metis
  then show ?thesis
    unfolding update_status_def
    by (intro emits_bind_answer emits_return) (simp add: at_version_def)
qed

text \<open>What a complete teardown leaves on the trace: the instance, the node, and the last status.\<close>

definition torn_down :: "node \<Rightarrow> pool \<Rightarrow> nat \<Rightarrow> reconcile_result \<Rightarrow> event list \<Rightarrow> bool" where
  "torn_down n pl j r es \<longleftrightarrow>
     r = no_requeue \<and> terminated es = [ns_InstanceID (Nodes (pool_Status pl) ! j)] \<and> deleted es = [node_Name n] \<and>
     pools_written es \<noteq> [] \<and>
     Nodes (pool_Status (last (pools_written es))) = remove_at j (Nodes (pool_Status pl)) \<and>
     ActiveNodes (pool_Status (last (pools_written es))) = max 0 (int32 (ActiveNodes (pool_Status pl) - 1))"

lemma remove_at_update [simp]: "remove_at j (xs[j := x]) = remove_at j xs"
  by (simp add: remove_at_def)

lemma terminate_completes:
  assumes "status_accepted W" and "\<And>h ids. w_TerminateInstances W h ids = None" and "j < length (Nodes (pool_Status pl))"
  shows "emits (teardown_terminate W (ec2_provider W) n pl j) (torn_down n pl j)"
proof -
  have stop: "emits (EC2Provider_TerminateNode W i) (\<lambda>r es. r = None \<and> es = [EvTerminateInstances [i] None])" for i
    unfolding EC2Provider_TerminateNode_def world_calls
    by (intro emits_bind_answer emits_return) (simp add: assms(2))
  show ?thesis
    unfolding teardown_terminate_def delete_node_def
    by (rule emits_bind [OF update_accepted [OF assms(1)]], clarsimp, rule emits_bind [OF stop], clarsimp,
        rule emits_bind_call, rule emits_bind [OF update_accepted [OF assms(1)]])
       (auto simp: torn_down_def at_version_def forget_node_def Let_def set_state_def assms(3) intro!: emits_return)
qed

lemma drain_calls_quiet: "list_all (is_drain_call m) es \<Longrightarrow> pools_written es = [] \<and> untouched es"
proof (induction es)
  case (Cons e es)
  then show ?case by (cases e) auto
qed simp

lemma torn_down_step:
  "torn_down n (at_version rv (set_state j st pl)) j r fs \<Longrightarrow> j < length (Nodes (pool_Status pl)) \<Longrightarrow>
   pools_written ds = [] \<and> untouched ds \<Longrightarrow> torn_down n pl j r (EvUpdateStatus q a # ds @ fs)"
  by (simp add: torn_down_def untouched_def at_version_def set_state_def)

lemma teardown_completes:
  assumes "status_accepted W" and "\<And>h ids. w_TerminateInstances W h ids = None" and "j < length (Nodes (pool_Status pl))"
  shows "emits (teardown W (ec2_provider W) D n pl j) (torn_down n pl j)"
proof -
  have drain: "emits (case D of None \<Rightarrow> State_Monad.return None | Some d \<Rightarrow> DrainNode W d m)
      (\<lambda>r ds. pools_written ds = [] \<and> untouched ds)" for m
    by (rule emits_mono [OF drain_node_calls]) (auto split: option.splits)
  have cordon: "emits (case D of None \<Rightarrow> State_Monad.return None | Some d \<Rightarrow> CordonNode W m)
      (\<lambda>r ds. pools_written ds = [] \<and> untouched ds)" for m
    by (rule emits_mono [OF cordon_node_calls]) (auto dest: drain_calls_quiet [OF cordon_node_drain_calls])
  have len: "j < length (Nodes (pool_Status (at_version rv (set_state j st q))))"
    if "j < length (Nodes (pool_Status q))" for rv st q
    using that by (simp add: at_version_def)
  have drained: "emits (teardown_drain W (ec2_provider W) D n q j) (torn_down n q j)"
    if q: "j < length (Nodes (pool_Status q))" for q
    unfolding teardown_drain_def
    by (rule emits_bind [OF update_accepted [OF assms(1)]], clarsimp, rule emits_bind [OF drain],
        rule emits_mono [OF terminate_completes [OF assms(1,2) len [OF q]]])
       (simp add: torn_down_step q)
  show ?thesis
    unfolding teardown_def
    by (rule emits_bind [OF update_accepted [OF assms(1)]], clarsimp, rule emits_bind [OF cordon],
        rule emits_mono [OF drained [OF len [OF assms(3)]]])
       (simp add: torn_down_step assms(3))
qed

lemma reap_completes:
  assumes "status_accepted W" and "\<And>h ids. w_TerminateInstances W h ids = None" and "j < length (Nodes (pool_Status pl))"
    and "\<And>h. w_ListPodsOnNode W h (node_Name n) = Inr pods" and "idle_loop pods"
    and "ns_LastPodFinished (Nodes (pool_Status pl) ! j) = Some since"
    and "\<And>h. cooldown_of pl \<le> time_sub (w_Now W h) since"
  shows "emits (reap_running W (ec2_provider W) D i n pl j) (torn_down n pl j)"
proof -
  have due: "\<not> time_sub (w_Now W h) since < cooldown_of pl" for h using assms(7) [of h] by simp
  have down: "emits (teardown W (ec2_provider W) D n pl j) (\<lambda>r es. torn_down n pl j r (EvListPodsOnNode m ps # EvNow t # EvNow u # es))"
    for m ps t u
    by (rule emits_mono [OF teardown_completes [OF assms(1-3)]]) (simp add: torn_down_def)
  show ?thesis
    unfolding reap_running_def isNodeIdle_def reap_idle_def world_calls State_Monad.bind_assoc State_Monad.bind_left_identity
    by (rule emits_bind_answer, simp only: assms(4,5) sum.case simp_thms if_False, rule emits_bind_call,
        simp only: assms(6) option.case, rule emits_bind_answer, simp only: Let_def due if_False, rule down)
qed

section \<open>A pool with one node more\<close>

definition grown :: "int \<Rightarrow> int \<Rightarrow> node_status \<Rightarrow> pool \<Rightarrow> pool" where
  "grown a p x pl = pl\<lparr>pool_Status := (pool_Status pl)
     \<lparr>Nodes := Nodes (pool_Status pl) @ [x], ActiveNodes := a, PendingNodes := p\<rparr>\<rparr>"

lemma status_restored [simp]:
  "st\<lparr>Nodes := Nodes st, ActiveNodes := ActiveNodes st, PendingNodes := PendingNodes st\<rparr> = st"
  by simp

text \<open>The writes on the node at the end.\<close>

lemma grown_add: "add_pending n pl = grown (ActiveNodes (pool_Status pl)) (int32 (PendingNodes (pool_Status pl) + 1)) n pl"
  by (simp add: add_pending_def grown_def)

lemma grown_set_node:
  "set_node (length (Nodes (pool_Status pl))) f (grown a p x pl) = grown a p (f x) pl"
  by (simp add: set_node_def grown_def)

lemma grown_set_state:
  "set_state (length (Nodes (pool_Status pl))) s (grown a p x pl) = grown a p (x\<lparr>ns_State := s\<rparr>) pl"
  by (simp add: set_state_def grown_set_node)

lemma grown_mark_ready:
  "mark_ready (length (Nodes (pool_Status pl))) t (grown a p x pl) =
   grown (int32 (a + 1)) (int32 (p - 1)) (x\<lparr>ns_State := Running, ns_ReadyAt := Some t\<rparr>) pl"
  unfolding mark_ready_def grown_set_node Let_def by (simp add: grown_def)

lemma grown_removed: "remove_at (length (Nodes (pool_Status pl))) (Nodes (pool_Status (grown a p x pl))) = Nodes (pool_Status pl)"
  by (simp add: grown_def remove_at_def)

lemma grown_simps [simp]:
  "Nodes (pool_Status (grown a p x pl)) ! length (Nodes (pool_Status pl)) = x"
  "ActiveNodes (pool_Status (grown a p x pl)) = a" "PendingNodes (pool_Status (grown a p x pl)) = p"
  "(pool_Status (grown a p x pl))\<lparr>Nodes := ns, ActiveNodes := a', PendingNodes := p'\<rparr> =
   (pool_Status pl)\<lparr>Nodes := ns, ActiveNodes := a', PendingNodes := p'\<rparr>"
  by (simp_all add: grown_def)

lemma grown_forget:
  "pool_Status (forget_node (length (Nodes (pool_Status pl))) (grown a p x pl)) =
   (pool_Status pl)\<lparr>ActiveNodes := max 0 (int32 (a - 1)), PendingNodes := p\<rparr>"
  unfolding forget_node_def grown_removed by (simp add: grown_def Let_def max_def)

lemma grown_timed_out:
  "pool_Status (drop_timed_out (length (Nodes (pool_Status pl))) (grown a p x pl)) =
   (pool_Status pl)\<lparr>ActiveNodes := a, PendingNodes := int32 (p - 1)\<rparr>"
  unfolding drop_timed_out_def grown_removed by (simp add: grown_def)

lemma grown_orphan:
  "pool_Status (orphan_remove (length (Nodes (pool_Status pl))) (grown a p x pl)) =
   (pool_Status pl)\<lparr>ActiveNodes := max 0 (if ns_State x \<in> {Running, Cordoned, Draining} then int32 (a - 1) else a),
     PendingNodes := max 0 (if ns_State x = Pending then int32 (p - 1) else p)\<rparr>"
  unfolding orphan_remove_def grown_removed grown_simps Let_def
  by (cases "ns_State x") (simp_all add: grown_def max_def)

section \<open>Properties\<close>

text \<open>
  C16. Every run of a handler ends, after a number of calls bounded by what it read: for the provisioner
  by the room of a pool it read and the number of its instance types, for the orphan check by the
  numbers of listed instances and nodes, for the reaper and the node-ready handler by a constant.
\<close>

theorem handlers_bounded:
  assumes "slice_sort (pdqsort_types W)"
  shows "(let es = calls_of (ProvisionerReconciler_Reconcile W (ec2_provider W) d req) h in
      length es \<le> 4 \<or> (\<exists>pl \<in> set (pools_read es). length es \<le> 8 + nat (room pl) * (2 + type_count pl))) \<and>
    length (calls_of (NodeReadyReconciler_Reconcile W (ec2_provider W) nm) h) \<le> 5 \<and>
    length (calls_of (ReaperReconciler_Reconcile W (ec2_provider W) D i nm) h) \<le> 14 \<and>
    (let es = calls_of (OrphanReconciler_Reconcile W (ec2_provider W) c b) h in
      length es \<le> 2 \<or> (\<exists>rs ns fs. es = EvDescribeInstances managed_filters (Inr rs) #
         EvListNodesWithLabel (managedLabel, labelValueTrue) (Inr ns) # fs \<and>
         length fs \<le> 4 * length (concat rs) + 3 * length ns))"
  unfolding Let_def
  by (intro conjI, rule emitsD [OF ec2_direct.provisioner_calls [OF assms]],
      rule emitsD [OF ec2_direct.node_ready_calls], rule emitsD [OF ec2_direct.reaper_calls],
      rule emitsD [OF orphan_calls])

lemma handlers_bounded_witness:
  "length (calls_of (ReaperReconciler_Reconcile sample_world (ec2_provider sample_world) (Some 1) 0 ''n'') []) \<le> 14"
  using handlers_bounded [OF sample_world_sorts(2)] by blast

text \<open>
  The provisioner never dereferences the \<open>aws\<close> section of a pool without one, the one nil pointer it
  meets without a check of its own: whatever the world answers, a failing call ends in an error value.
\<close>

theorem provisioner_no_panic:
  assumes "\<And>h. w_GetPod W h req \<noteq> Inl NilDeref"
  shows "outcome_of (ProvisionerReconciler_Reconcile W (ec2_provider W) d req) h \<noteq> Inl NilDeref"
  by (rule emitsD [OF ec2.provisioner_no_panic_spec [OF assms]])

definition no_aws_world :: world where
  "no_aws_world = sample_world
     \<lparr>w_GetPool := \<lambda>h key. Inr (sample_pool\<lparr>pool_Spec := (pool_Spec sample_pool)\<lparr>AWS := None\<rparr>\<rparr>)\<rparr>"

lemma provisioner_no_panic_witness:
  "outcome_of (ProvisionerReconciler_Reconcile no_aws_world (ec2_provider no_aws_world) 0 (''default'', ''web'')) [] \<noteq> Inl NilDeref"
  by (rule provisioner_no_panic) (simp add: no_aws_world_def sample_world_def)

text \<open>
  C19. When the calls succeed, the reaper finishes in one run: for a managed node, tracked as running, idle
  and past the cooldown, the instance is terminated, the node deleted and its entry removed, the
  active counter goes down by one, and no requeue is asked for. Failures to cordon, to drain or to
  delete the node do not stop it.
\<close>

theorem reaper_completes:
  fixes W D i req h
  defines "m \<equiv> ReaperReconciler_Reconcile W (ec2_provider W) D i req"
  assumes "status_accepted W" and "\<And>h ids. w_TerminateInstances W h ids = None"
    and "\<And>h. w_GetNode W h req = Inr n" and "managed_node n"
    and "\<And>h. w_ListPools W h = Inr items" and "find_pool (node_Name n) items = Some (pl, j)"
    and "ns_State (Nodes (pool_Status pl) ! j) = Running"
    and "\<And>h. w_ListPodsOnNode W h (node_Name n) = Inr pods" and "idle_loop pods"
    and "ns_LastPodFinished (Nodes (pool_Status pl) ! j) = Some since"
    and "\<And>h. cooldown_of pl \<le> time_sub (w_Now W h) since"
  shows "outcome_of m h = no_requeue \<and>
    terminated (calls_of m h) = [ns_InstanceID (Nodes (pool_Status pl) ! j)] \<and>
    deleted (calls_of m h) = [node_Name n] \<and>
    Nodes (pool_Status (last (pools_written (calls_of m h)))) = remove_at j (Nodes (pool_Status pl)) \<and>
    ActiveNodes (pool_Status (last (pools_written (calls_of m h)))) = max 0 (int32 (ActiveNodes (pool_Status pl) - 1))"
proof -
  from find_pool_nth [OF assms(7)] have j: "j < length (Nodes (pool_Status pl))" by simp
  have run: "emits (reap_running W (ec2_provider W) D k n pl j) (\<lambda>r es. torn_down n pl j r (EvGetNode req g # EvListPools ps # es))"
    for k g ps
    by (rule emits_mono [OF reap_completes [OF assms(2,3) j assms(9-12)]]) (simp add: torn_down_def)
  have "emits m (torn_down n pl j)"
    unfolding m_def ReaperReconciler_Reconcile_def findPoolAndNode_def world_calls
      State_Monad.bind_assoc State_Monad.bind_left_identity
    by (rule emits_bind_answer, simp only: assms(4,5) sum.case simp_thms if_False, rule emits_bind_answer,
        simp only: assms(6,7,8) sum.case option.case prod.case simp_thms if_False, rule run)
  from emitsD [OF this, of h] show ?thesis by (simp add: torn_down_def)
qed

lemma reaper_completes_witness:
  "terminated (calls_of (ReaperReconciler_Reconcile idle_world (ec2_provider idle_world) None 0 ''n'') []) = [''i-1'']"
proof -
  have "find_pool (node_Name managed_sample) [idle_pool] = Some (idle_pool, 0)"
    "ns_State (Nodes (pool_Status idle_pool) ! 0) = Running" "managed_node managed_sample"
    "ns_LastPodFinished (Nodes (pool_Status idle_pool) ! 0) = Some 2"
    "cooldown_of idle_pool \<le> time_sub 1000000000000 2" "ns_InstanceID (Nodes (pool_Status idle_pool) ! 0) = ''i-1''" by code_simp+
  then show ?thesis
    using reaper_completes [of idle_world "''n''" managed_sample "[idle_pool]" idle_pool 0 "[]" 2 None 0 "[]"]
    by (simp add: idle_world_def sample_world_def status_accepted_def)
qed

text \<open>
  C22. A node leaves a pool as it found it. Take any sound pool with room and launch a node into it: the
  status after the writes of its whole life, pending, running, idle timer set, cordoned, draining,
  terminating and removed, is the status before the launch, with both counters; likewise when
  the node is dropped by its boot timeout, or removed by the orphan check while it is pending or in
  use. Only the orphan check on a terminating node leaves a node counted as active.
\<close>

theorem node_leaves_no_trace:
  fixes pl n
  defines "j \<equiv> length (Nodes (pool_Status pl))"
  assumes "pool_ok pl" and "currentNodes pl < pool_max pl" and "ns_State n = Pending"
  shows "let pending = add_pending n pl;
      running = mark_ready j ready pending;
      idle = set_node j (\<lambda>x. x\<lparr>ns_LastPodFinished := since\<rparr>) running;
      cordoned = set_state j Cordoned idle;
      draining = set_state j Draining cordoned;
      terminating = set_state j Terminating draining
    in pool_Status (forget_node j terminating) = pool_Status pl \<and>
      pool_Status (drop_timed_out j pending) = pool_Status pl \<and>
      (\<forall>p \<in> {pending, running, idle, cordoned, draining}. pool_Status (orphan_remove j p) = pool_Status pl) \<and>
      pool_Status (orphan_remove j terminating) = (pool_Status pl)\<lparr>ActiveNodes := ActiveNodes (pool_Status pl) + 1\<rparr>"
proof -
  note c = pool_ok_counters [OF assms(2)]
  have cur: "currentNodes pl = ActiveNodes (pool_Status pl) + PendingNodes (pool_Status pl)"
    unfolding currentNodes_def using c by (intro int32_small) auto
  have int32: "int32 x = x" if "0 \<le> x" "x \<le> pool_max pl" for x
    using that c(5) by (intro int32_small) auto
  have wrap: "int32 (PendingNodes (pool_Status pl) + 1) = PendingNodes (pool_Status pl) + 1"
    "int32 (ActiveNodes (pool_Status pl) + 1) = ActiveNodes (pool_Status pl) + 1"
    "int32 (PendingNodes (pool_Status pl)) = PendingNodes (pool_Status pl)"
    "int32 (ActiveNodes (pool_Status pl)) = ActiveNodes (pool_Status pl)"
    using c assms(3) cur by (auto intro!: int32)
  show ?thesis
    unfolding Let_def j_def grown_add grown_mark_ready grown_set_node grown_set_state ball_simps
      grown_forget grown_timed_out grown_orphan
    using c(2,3) assms(4) by (simp add: wrap)
qed

lemma node_leaves_no_trace_witness:
  "pool_Status (drop_timed_out 0 (add_pending (sample_status Pending) sample_pool)) = pool_Status sample_pool"
proof -
  have "pool_ok sample_pool" "currentNodes sample_pool < pool_max sample_pool"
    "ns_State (sample_status Pending) = Pending" "length (Nodes (pool_Status sample_pool)) = 0" by code_simp+
  then show ?thesis using node_leaves_no_trace [of sample_pool "sample_status Pending"] by (simp add: Let_def)
qed

text \<open>
  C32. The idle timer of a running node: with a pod that is neither of a daemon set nor finished on the
  node the timer is cleared, and on an idle node without a timer it is set to the present; either is
  written to the pool and the check interval asked for, or the error of the write is returned. While the
  timer runs within the cooldown nothing is written, and the rest of the cooldown is asked for.
\<close>

theorem reaper_idle_timer:
  fixes W P D i req h pl j
  defines "m \<equiv> ReaperReconciler_Reconcile W P D i req"
    and "set_timer \<equiv> \<lambda>t. set_node j (\<lambda>n. n\<lparr>ns_LastPodFinished := t\<rparr>) pl"
    and "timer \<equiv> ns_LastPodFinished (Nodes (pool_Status pl) ! j)"
  assumes "\<And>h. w_GetNode W h req = Inr n" and "managed_node n"
    and "\<And>h. w_ListPools W h = Inr items" and "find_pool (node_Name n) items = Some (pl, j)"
    and "ns_State (Nodes (pool_Status pl) ! j) = Running"
    and "\<And>h. w_ListPodsOnNode W h (node_Name n) = Inr pods" and "\<And>h. w_Now W h = now"
    and "\<And>h p. w_UpdateStatus W h p = answer"
  shows "(if \<not> idle_loop pods then
      calls_of m h = [EvGetNode req (Inr n), EvListPools (Inr items), EvListPodsOnNode (node_Name n) (Inr pods),
        EvUpdateStatus (set_timer None) answer] \<and>
      outcome_of m h = (case answer of Inl err \<Rightarrow> Inl err | Inr rv \<Rightarrow> requeue_after (reaper_checkInterval i))
    else case timer of
      None \<Rightarrow>
        calls_of m h = [EvGetNode req (Inr n), EvListPools (Inr items), EvListPodsOnNode (node_Name n) (Inr pods),
          EvNow now, EvUpdateStatus (set_timer (Some now)) answer] \<and>
        outcome_of m h = (case answer of Inl err \<Rightarrow> Inl err | Inr rv \<Rightarrow> requeue_after (reaper_checkInterval i))
    | Some since \<Rightarrow>
        time_sub now since < cooldown_of pl \<longrightarrow>
        calls_of m h = [EvGetNode req (Inr n), EvListPools (Inr items), EvListPodsOnNode (node_Name n) (Inr pods),
          EvNow now, EvNow now] \<and>
        outcome_of m h = requeue_after (int64 (cooldown_of pl - time_sub now since)))"
  using assms(5,7,8)
  by (simp add: m_def set_timer_def timer_def assms(4,6,9-11) ReaperReconciler_Reconcile_def findPoolAndNode_def
      reap_running_def isNodeIdle_def reap_idle_def update_status_def world_calls outcome_of_def calls_of_def
      status_or_interval_def Let_def split: option.split sum.split)

lemma reaper_idle_timer_witness:
  "outcome_of (ReaperReconciler_Reconcile (idle_world\<lparr>w_ListPodsOnNode := \<lambda>h n. Inr [sample_pod]\<rparr>)
     (ec2_provider idle_world) None 0 ''n'') [] = requeue_after (60 * second)"
proof -
  have "find_pool (node_Name managed_sample) [idle_pool] = Some (idle_pool, 0)"
    "ns_State (Nodes (pool_Status idle_pool) ! 0) = Running" "managed_node managed_sample"
    "\<not> idle_loop [sample_pod]" "reaper_checkInterval 0 = 60 * second" by code_simp+
  then show ?thesis
    using reaper_idle_timer [of "idle_world\<lparr>w_ListPodsOnNode := \<lambda>h n. Inr [sample_pod]\<rparr>" "''n''" managed_sample
        "[idle_pool]" idle_pool 0 "[sample_pod]" 1000000000000 "Inr 2" "ec2_provider idle_world" None 0 "[]"]
    by (simp add: idle_world_def sample_world_def)
qed

end
