(* ===== verification/System.thy ===== *)
theory System
  imports Cluster
begin

text \<open>
  The controller at work: any number of handler runs, interleaved call by call, against an API server
  with optimistic concurrency, users who create, edit and delete pools, and an EC2 that gives every
  instance an ID of its own. A state is the log of the API server and what each run has done so far.
  The history of every pool is shown to be one run of the lifecycle machine, whatever the interleaving:
  no update is lost, no instance is tracked twice, none comes back, none goes back to an earlier state.
\<close>

section \<open>The API server\<close>

datatype entry = Stored pool | Deleted nname

definition key_of :: "pool \<Rightarrow> nname" where
  "key_of p = (pool_Namespace p, pool_Name p)"

text \<open>The newest entry is first; \<open>current H k\<close> is the object the server holds under the name \<open>k\<close>.\<close>

fun current :: "entry list \<Rightarrow> nname \<Rightarrow> pool option" where
  "current [] k = None"
| "current (Stored p # H) k = (if key_of p = k then Some p else current H k)"
| "current (Deleted l # H) k = (if l = k then None else current H k)"

fun stored_in :: "entry \<Rightarrow> pool list" where
  "stored_in (Stored p) = [p]"
| "stored_in (Deleted l) = []"

definition versions :: "entry list \<Rightarrow> pool list" where
  "versions H = concat (map stored_in H)"

lemma versions_simps [simp]:
  "versions [] = []" "versions (e # H) = stored_in e @ versions H" "versions (G @ H) = versions G @ versions H"
  by (simp_all add: versions_def)

text \<open>A version as a client decodes it: of the status it keeps what \<open>reread\<close> keeps.\<close>

definition reading :: "pool \<Rightarrow> pool \<Rightarrow> bool" where
  "reading a b \<longleftrightarrow> reread a b \<and> key_of b = key_of a \<and> pool_ResourceVersion b = pool_ResourceVersion a"

definition newest :: "entry list \<Rightarrow> nat \<Rightarrow> bool" where
  "newest H rv \<longleftrightarrow> (\<forall>v \<in> set (versions H). pool_ResourceVersion v < rv)"

text \<open>
  What the server may answer. A read, from a cache of unknown age, returns versions once stored. A
  status update is accepted only if it carries the resource version of the object the server holds,
  which it replaces under a new one. Errors may be answered at any time.
\<close>

fun answers :: "entry list \<Rightarrow> event \<Rightarrow> bool" where
  "answers H (EvGetPool k (Inr b)) = (key_of b = k \<and> (\<exists>a \<in> set (versions H). reading a b))"
| "answers H (EvListPools (Inr bs)) = (\<forall>b \<in> set bs. \<exists>a \<in> set (versions H). reading a b)"
| "answers H (EvUpdateStatus p (Inr rv)) =
     ((case current H (key_of p) of None \<Rightarrow> False | Some a \<Rightarrow> pool_ResourceVersion a = pool_ResourceVersion p) \<and>
      newest H rv)"
| "answers H e = True"

section \<open>The system\<close>

definition no_status :: pool_status where
  "no_status = \<lparr>ActiveNodes = 0, PendingNodes = 0, Nodes = [], Conditions = []\<rparr>"

text \<open>EC2 answers no \<open>RunInstances\<close> call with the ID of an instance it launched before.\<close>

definition fresh :: "(nat \<Rightarrow> event list) \<Rightarrow> event \<Rightarrow> bool" where
  "fresh T e \<longleftrightarrow> (\<forall>x \<in> set (launched_of e). \<forall>i. x \<notin> set (launched (T i)))"

text \<open>
  \<open>T i\<close> are the calls run \<open>i\<close> has made so far, the beginning of a run of one of the four handlers.
  A run that makes no further call has ended, crashed or is waiting. A user may edit a specification but
  not lower \<open>maxNodes\<close>; the status subresource keeps a status from being created or edited by hand.
\<close>

inductive moves :: "entry list \<times> (nat \<Rightarrow> event list) \<Rightarrow> entry list \<times> (nat \<Rightarrow> event list) \<Rightarrow> bool" where
  created: "current H (key_of p) = None \<Longrightarrow> pool_Status p = no_status \<Longrightarrow>
    0 \<le> pool_max p \<Longrightarrow> pool_max p < 2 ^ 31 \<Longrightarrow> newest H (pool_ResourceVersion p) \<Longrightarrow>
    moves (H, T) (Stored p # H, T)"
| edited: "current H (key_of p) = Some a \<Longrightarrow> pool_Status p = pool_Status a \<Longrightarrow>
    pool_max a \<le> pool_max p \<Longrightarrow> pool_max p < 2 ^ 31 \<Longrightarrow> newest H (pool_ResourceVersion p) \<Longrightarrow>
    moves (H, T) (Stored p # H, T)"
| deleted: "current H k = Some a \<Longrightarrow> moves (H, T) (Deleted k # H, T)"
| called: "handler_run W (T i @ e # fs) \<Longrightarrow> answers H e \<Longrightarrow> fresh T e \<Longrightarrow>
    moves (H, T) (map Stored (stored_of e) @ H, T(i := T i @ [e]))"

inductive_cases movesE: "moves (H, T) (H', T')"

definition system :: "entry list \<Rightarrow> (nat \<Rightarrow> event list) \<Rightarrow> bool" where
  "system H T \<longleftrightarrow> moves\<^sup>*\<^sup>* ([], \<lambda>_. []) (H, T)"

lemma system_start: "system [] (\<lambda>_. [])"
  by (simp add: system_def)

lemma system_moves: "system H T \<Longrightarrow> moves (H, T) (H', T') \<Longrightarrow> system H' T'"
  unfolding system_def by (rule rtranclp.rtrancl_into_rtrancl)

section \<open>Lawful logs\<close>

text \<open>The instances of a status, and those any version in a log ever tracked.\<close>

definition instances :: "pool \<Rightarrow> string set" where
  "instances p = ns_InstanceID ` set (Nodes (pool_Status p))"

definition used :: "entry list \<Rightarrow> string set" where
  "used H = (\<Union>p \<in> set (versions H). instances p)"

text \<open>
  \<open>p\<close> is a status written on the version \<open>a\<close>: by lifecycle steps from a reading of it, with
  instances of \<open>M\<close> launched for it.
\<close>

definition written :: "string multiset \<Rightarrow> pool \<Rightarrow> pool \<Rightarrow> bool" where
  "written M a p \<longleftrightarrow> (\<exists>b q rv. reading a b \<and> follows M b q \<and> p = q\<lparr>pool_ResourceVersion := rv\<rparr>)"

definition new_instances :: "string multiset \<Rightarrow> entry list \<Rightarrow> bool" where
  "new_instances M H \<longleftrightarrow> (\<forall>x. count M x \<le> 1) \<and> set_mset M \<inter> used H = {}"

text \<open>Every version is the creation of its pool, an edit of the version before it, or written on it.\<close>

fun lawful :: "entry list \<Rightarrow> bool" where
  "lawful [] = True"
| "lawful (Deleted k # H) = lawful H"
| "lawful (Stored p # H) = (lawful H \<and> newest H (pool_ResourceVersion p) \<and>
     (case current H (key_of p) of
        None \<Rightarrow> pool_Status p = no_status \<and> 0 \<le> pool_max p \<and> pool_max p < 2 ^ 31
      | Some a \<Rightarrow>
          pool_Status p = pool_Status a \<and> pool_max a \<le> pool_max p \<and> pool_max p < 2 ^ 31 \<or>
          (\<exists>M. written M a p \<and> new_instances M H)))"

lemma current_version: "current H k = Some a \<Longrightarrow> a \<in> set (versions H) \<and> key_of a = k"
  by (induction H k rule: current.induct) (auto split: if_splits)

lemma reading_refl [simp]: "reading a a"
  by (simp add: reading_def reread_def)

lemma lawful_versions_apart:
  "lawful H \<Longrightarrow> inj_on pool_ResourceVersion (set (versions H))"
proof (induction H rule: lawful.induct)
  case (3 p H)
  then show ?case by (auto simp: newest_def image_iff)
qed auto

lemma lawful_suffix: "lawful (G @ H) \<Longrightarrow> lawful H"
  by (induction G rule: lawful.induct) auto

text \<open>What a reading keeps of the instances and of the nodes.\<close>

lemma reading_nodes: "reading a b \<Longrightarrow> map kept_fields (Nodes (pool_Status b)) = map kept_fields (Nodes (pool_Status a))"
  by (simp add: reading_def reread_def)

lemma reading_tracked: "reading a b \<Longrightarrow> tracked (pool_Status b) = tracked (pool_Status a)"
proof -
  assume "reading a b"
  then have "map (fst \<circ> snd) (map kept_fields (Nodes (pool_Status b))) =
      map (fst \<circ> snd) (map kept_fields (Nodes (pool_Status a)))" by (simp only: reading_nodes)
  then show ?thesis unfolding tracked_def by (simp add: comp_def kept_fields_def del: mset_map)
qed

lemma tracked_instances: "set_mset (tracked (pool_Status p)) = instances p"
  by (simp add: tracked_def instances_def)

lemma written_frame:
  assumes "written M a p"
  shows "key_of p = key_of a" "pool_Spec p = pool_Spec a"
    "tracked (pool_Status p) \<subseteq># tracked (pool_Status a) + M" "instances p \<subseteq> instances a \<union> set_mset M"
proof -
  from assms obtain b q rv where b: "reading a b" "follows M b q" "p = q\<lparr>pool_ResourceVersion := rv\<rparr>"
    by (auto simp: written_def)
  then have q: "pool_Status p = pool_Status q" "key_of p = key_of q" "pool_Spec p = pool_Spec q"
    by (simp_all add: key_of_def)
  from b(2) have "key_of q = key_of b" "pool_Spec q = pool_Spec b"
    by (auto simp: follows_def same_version_def key_of_def)
  with b(1) q show "key_of p = key_of a" "pool_Spec p = pool_Spec a"
    by (simp_all add: reading_def reread_def)
  from b(2) q(1) reading_tracked [OF b(1)]
  show t: "tracked (pool_Status p) \<subseteq># tracked (pool_Status a) + M" by (simp add: follows_def)
  from set_mset_mono [OF t] show "instances p \<subseteq> instances a \<union> set_mset M"
    by (simp add: tracked_instances)
qed

section \<open>What a lawful log keeps\<close>

lemma reading_ok: "reading a b \<Longrightarrow> pool_ok a \<Longrightarrow> pool_ok b"
  by (auto simp: reading_def intro: reread_ok)

lemma written_ok: "written M a p \<Longrightarrow> pool_ok a \<Longrightarrow> pool_ok p"
  by (auto simp: written_def version_ok dest: reading_ok follows_ok)

lemma no_status_ok: "pool_Status p = no_status \<Longrightarrow> 0 \<le> pool_max p \<Longrightarrow> pool_max p < 2 ^ 31 \<Longrightarrow> pool_ok p"
  by (simp add: no_status_def pool_ok_def status_ok_def counters_ok_def within_def)

lemma edit_ok:
  "pool_ok a \<Longrightarrow> pool_Status p = pool_Status a \<Longrightarrow> pool_max a \<le> pool_max p \<Longrightarrow> pool_max p < 2 ^ 31 \<Longrightarrow> pool_ok p"
  by (auto simp: pool_ok_def status_ok_def within_def)

lemma no_status_instances [simp]: "pool_Status p = no_status \<Longrightarrow> instances p = {}"
  by (simp add: no_status_def instances_def)

lemma lawful_ok: "lawful H \<Longrightarrow> \<forall>p \<in> set (versions H). pool_ok p"
proof (induction H rule: lawful.induct)
  case (3 p H)
  have "pool_ok p"
  proof (cases "current H (key_of p)")
    case None
    with 3(2) show ?thesis by (auto intro: no_status_ok)
  next
    case (Some a)
    with 3 have "pool_ok a" by (auto dest: current_version)
    with 3(2) Some show ?thesis by (auto intro: edit_ok written_ok)
  qed
  with 3 show ?case by simp
qed simp_all

lemma subset_count_le:
  "N \<subseteq># A + M \<Longrightarrow> (\<forall>x. count A x \<le> 1) \<Longrightarrow> (\<forall>x. count M x \<le> 1) \<Longrightarrow> set_mset A \<inter> set_mset M = {} \<Longrightarrow>
   count N x \<le> (1 :: nat)"
proof -
  assume n: "N \<subseteq># A + M" "\<forall>x. count A x \<le> 1" "\<forall>x. count M x \<le> 1" "set_mset A \<inter> set_mset M = {}"
  from n(1) have "count N x \<le> count A x + count M x" by (metis count_union mset_subset_eq_count)
  moreover from n(4) have "count A x = 0 \<or> count M x = 0" by (auto simp: count_eq_zero_iff)
  ultimately show ?thesis using n(2,3) by (metis add.left_neutral add.right_neutral order_trans)
qed

lemma version_instances_used: "p \<in> set (versions H) \<Longrightarrow> instances p \<subseteq> used H"
  by (auto simp: used_def)

text \<open>No version tracks an instance twice.\<close>

lemma lawful_once: "lawful H \<Longrightarrow> \<forall>p \<in> set (versions H). \<forall>x. count (tracked (pool_Status p)) x \<le> 1"
proof (induction H rule: lawful.induct)
  case (3 p H)
  have "count (tracked (pool_Status p)) x \<le> 1" for x
  proof (cases "current H (key_of p)")
    case None
    with 3(2) show ?thesis by (simp add: no_status_def tracked_def)
  next
    case (Some a)
    then have a: "a \<in> set (versions H)" by (blast dest: current_version)
    with 3 have once: "\<forall>x. count (tracked (pool_Status a)) x \<le> 1" by auto
    from 3(2) Some consider "pool_Status p = pool_Status a" | M where "written M a p" "new_instances M H" by auto
    then show ?thesis
    proof cases
      case 2
      with version_instances_used [OF a] have "set_mset (tracked (pool_Status a)) \<inter> set_mset M = {}"
        by (auto simp: new_instances_def tracked_instances)
      with subset_count_le [OF written_frame(3) [OF 2(1)] once] 2(2) show ?thesis
        by (simp add: new_instances_def)
    next
      case 1
      with once show ?thesis by simp
    qed
  qed
  with 3 show ?case by auto
qed simp_all

definition tracks :: "entry list \<Rightarrow> nname \<Rightarrow> string \<Rightarrow> bool" where
  "tracks H k x = (case current H k of None \<Rightarrow> False | Some a \<Rightarrow> x \<in> instances a)"

text \<open>Where the instances of a version come from: the version before it, or they are new.\<close>

lemma lawful_source:
  assumes "lawful (Stored p # H)" "x \<in> instances p"
  shows "tracks H (key_of p) x \<or> x \<notin> used H"
proof (cases "current H (key_of p)")
  case None
  with assms show ?thesis by auto
next
  case (Some a)
  with assms(1) consider "pool_Status p = pool_Status a" | M where "written M a p" "new_instances M H" by auto
  then show ?thesis
  proof cases
    case 1
    with assms(2) Some show ?thesis by (simp add: instances_def tracks_def)
  next
    case 2
    with assms(2) Some written_frame(4) [OF 2(1)] show ?thesis by (auto simp: new_instances_def tracks_def)
  qed
qed

lemma lawful_one_pool:
  "lawful H \<Longrightarrow> p \<in> set (versions H) \<Longrightarrow> q \<in> set (versions H) \<Longrightarrow> x \<in> instances p \<Longrightarrow> x \<in> instances q \<Longrightarrow>
   key_of p = key_of q"
proof (induction H arbitrary: p q rule: lawful.induct)
  case (3 r H)
  have new: "key_of q = key_of r" if x: "x \<in> instances r" "x \<in> instances q" "q \<in> set (versions H)" for q
    using lawful_source [OF 3(2) x(1)]
  proof
    assume "tracks H (key_of r) x"
    then obtain a where a: "current H (key_of r) = Some a" "x \<in> instances a"
      by (auto simp: tracks_def split: option.splits)
    from 3(1) [of a q] 3(2) current_version [OF a(1)] a(2) x show ?thesis by auto
  next
    assume "x \<notin> used H"
    with version_instances_used [OF x(3)] x(2) show ?thesis by blast
  qed
  from 3(3,4) consider "p = r" | "q = r" | "p \<in> set (versions H)" "q \<in> set (versions H)" by auto
  then show ?case
  proof cases
    case 1
    with new [of q] 3(4-6) show ?thesis by (cases "q = r") auto
  next
    case 2
    with new [of p] 3(3,5,6) show ?thesis by (cases "p = r") auto
  next
    case 3
    from 3 \<open>lawful (Stored r # H)\<close> \<open>x \<in> instances p\<close> \<open>x \<in> instances q\<close> show ?thesis
      by (intro "3.IH") simp_all
  qed
next
  case (2 k H)
  from 2(2-) show ?case by (intro 2(1)) simp_all
qed simp

section \<open>An instance in a lawful log\<close>

text \<open>Once no pool tracks it any more, no later version does.\<close>

lemma lawful_forgotten:
  "lawful (G @ H) \<Longrightarrow> x \<in> used H \<Longrightarrow> \<forall>k. \<not> tracks H k x \<Longrightarrow>
   (\<forall>p \<in> set (versions G). x \<notin> instances p) \<and> (\<forall>k. \<not> tracks (G @ H) k x)"
proof (induction G)
  case (Cons e G)
  show ?case
  proof (cases e)
    case (Stored p)
    with Cons have IH: "\<forall>p \<in> set (versions G). x \<notin> instances p" "\<forall>k. \<not> tracks (G @ H) k x" by simp_all
    from Cons.prems(2) have "x \<in> used (G @ H)" by (simp add: used_def)
    with lawful_source [of p "G @ H" x] Cons.prems(1) Stored IH(2) have "x \<notin> instances p"
      unfolding append_Cons by blast
    with IH Stored show ?thesis by (auto simp: tracks_def)
  next
    case (Deleted k)
    with Cons show ?thesis by (auto simp: tracks_def)
  qed
qed simp

lemma current_append: "current (G @ H) k = Some c \<Longrightarrow> c \<in> set (versions G) \<or> current H k = Some c"
  by (induction G k rule: current.induct) (auto split: if_splits)

text \<open>What a version tracks, the version before it tracked at the same or an earlier state.\<close>

lemma reading_onward:
  assumes "reading a b" "n' \<in> set (Nodes (pool_Status b))"
  shows "\<exists>n \<in> set (Nodes (pool_Status a)). onward n n'"
proof -
  have "kept_fields n' \<in> set (map kept_fields (Nodes (pool_Status a)))"
    unfolding reading_nodes [OF assms(1), symmetric] using assms(2) by simp
  then show ?thesis by (auto simp: kept_fields_def onward_def)
qed

lemma written_onward:
  assumes "written M a p" "pool_ok a" "n' \<in> set (Nodes (pool_Status p))" "ns_InstanceID n' \<notin># M"
  shows "\<exists>n \<in> set (Nodes (pool_Status a)). onward n n'"
proof -
  from assms(1) obtain b q where b: "reading a b" "follows M b q" "pool_Status p = pool_Status q"
    by (auto simp: written_def)
  from b(2) reading_ok [OF b(1) assms(2)]
  have "(life (set_mset M) (pool_max b))\<^sup>*\<^sup>* (pool_Status b) (pool_Status p)" by (simp add: follows_def b(3))
  from life_star_onward [OF this assms(3)] assms(4) obtain m where
    m: "m \<in> set (Nodes (pool_Status b))" "onward m n'" by blast
  from reading_onward [OF b(1) m(1)] m(2) show ?thesis by (blast intro: onward_trans)
qed

lemma lawful_onward_step:
  assumes "lawful (Stored p # H)" "current H (key_of p) = Some a"
    "n' \<in> set (Nodes (pool_Status p))" "ns_InstanceID n' \<in> used H"
  shows "\<exists>n \<in> set (Nodes (pool_Status a)). onward n n'"
proof -
  from assms(1,2) consider "pool_Status p = pool_Status a" | M where "written M a p" "new_instances M H" by auto
  then show ?thesis
  proof cases
    case 1
    with assms(3) show ?thesis by (simp add: onward_self)
  next
    case 2
    from lawful_ok [of H] assms(1,2) have "pool_ok a" by (auto dest: current_version)
    from written_onward [OF 2(1) this assms(3)] 2(2) assms(4) show ?thesis
      by (auto simp: new_instances_def)
  qed
qed

lemma once_distinct: "\<forall>x. count (tracked st) x \<le> 1 \<Longrightarrow> distinct (map ns_InstanceID (Nodes st))"
  unfolding tracked_def distinct_count_atmost_1 by (auto simp del: mset_map intro!: le_antisym simp: Suc_le_eq)

lemma once_same_node:
  assumes "\<forall>x. count (tracked st) x \<le> 1" "n \<in> set (Nodes st)" "m \<in> set (Nodes st)"
    "ns_InstanceID n = ns_InstanceID m"
  shows "n = m"
  using once_distinct [OF assms(1)] assms(2-4) by (simp add: distinct_map inj_on_def)

lemma lawful_onward:
  assumes "current H k = Some a" "n \<in> set (Nodes (pool_Status a))"
  shows "lawful (G @ H) \<Longrightarrow> p \<in> set (versions G) \<Longrightarrow> key_of p = k \<Longrightarrow> n' \<in> set (Nodes (pool_Status p)) \<Longrightarrow>
    ns_InstanceID n' = ns_InstanceID n \<Longrightarrow> onward n n'"
proof (induction G arbitrary: p n')
  case (Cons e G)
  have used: "ns_InstanceID n' \<in> used (G @ H)"
    using current_version [OF assms(1)] assms(2) Cons.prems(5) by (auto simp: used_def instances_def)
  from Cons.prems(1) have law: "lawful (G @ H)" "lawful H" using lawful_suffix [of "e # G" H] by (cases e; simp)+
  show ?case
  proof (cases "p \<in> set (versions G)")
    case True
    show ?thesis by (rule Cons.IH [OF law(1) True Cons.prems(3-5)])
  next
    case False
    with Cons.prems(2) have e: "e = Stored p" by (cases e) auto
    have "instances p \<noteq> {}" using Cons.prems(4) by (auto simp: instances_def)
    with Cons.prems(1) e obtain c where c: "current (G @ H) (key_of p) = Some c"
      by (cases "current (G @ H) (key_of p)") auto
    from lawful_onward_step [OF _ c Cons.prems(4) used] Cons.prems(1) e obtain m where
      m: "m \<in> set (Nodes (pool_Status c))" "onward m n'" by auto
    then have mid: "ns_InstanceID m = ns_InstanceID n" using Cons.prems(5) by (simp add: onward_def)
    have "onward n m"
    proof (cases "c \<in> set (versions G)")
      case True
      with Cons.IH [OF law(1) True _ m(1) mid] current_version [OF c] Cons.prems(3) show ?thesis by simp
    next
      case False
      with current_append [OF c] assms(1) Cons.prems(3) have "c = a" by simp
      with once_same_node [of "pool_Status a" n m] lawful_once [OF law(2)] current_version [OF assms(1)] assms(2) m(1) mid
      show ?thesis by simp
    qed
    with m(2) show ?thesis by (blast intro: onward_trans)
  qed
qed simp

section \<open>The log of the system is lawful\<close>

text \<open>The instances run \<open>T i\<close> has launched and not yet written.\<close>

abbreviation hand :: "event list \<Rightarrow> string multiset" where
  "hand es \<equiv> foldl at_hand {#} es"

definition known_bases :: "entry list \<Rightarrow> (nat \<Rightarrow> event list) \<Rightarrow> bool" where
  "known_bases H T \<longleftrightarrow> (\<forall>i. \<forall>b \<in> set (bases (T i)). \<exists>a \<in> set (versions H). reading a b)"

definition hands_ok :: "entry list \<Rightarrow> (nat \<Rightarrow> event list) \<Rightarrow> bool" where
  "hands_ok H T \<longleftrightarrow>
     (\<forall>i. new_instances (hand (T i)) H \<and> set_mset (hand (T i)) \<subseteq> set (launched (T i))) \<and>
     (\<forall>i j. i \<noteq> j \<longrightarrow> set (launched (T i)) \<inter> set (launched (T j)) = {}) \<and>
     used H \<subseteq> (\<Union>i. set (launched (T i)))"

lemma launched_of_once: "launched_of e = [] \<or> (\<exists>x. launched_of e = [x])"
  by (cases e rule: launched_of.cases) auto

lemma write_launches_nothing: "write_of e \<noteq> [] \<Longrightarrow> launched_of e = []"
  by (cases e) auto

lemma stored_of_cases:
  obtains "stored_of e = []" | p rv where "e = EvUpdateStatus p (Inr rv)"
  by (cases e rule: stored_of.cases) auto

lemma version_key [simp]:
  "key_of (p\<lparr>pool_ResourceVersion := rv\<rparr>) = key_of p" "instances (p\<lparr>pool_ResourceVersion := rv\<rparr>) = instances p"
  by (simp_all add: key_of_def instances_def)

text \<open>
  The one step that matters: an accepted write is made on the version the server holds, because the
  run made it on a version it knows and the resource versions agree.
\<close>

lemma write_on_current:
  assumes "lawful H" "known_bases H T" "handler_run W (T i @ EvUpdateStatus p (Inr rv) # fs)"
    "answers H (EvUpdateStatus p (Inr rv))"
  shows "\<exists>a. current H (key_of p) = Some a \<and> written (hand (T i)) a (p\<lparr>pool_ResourceVersion := rv\<rparr>)"
proof -
  from handler_run_disciplined [OF assms(3)] obtain b where
    b: "b \<in> set (bases (T i))" "follows (hand (T i)) b p" by (auto simp: disciplined_append)
  from b(1) assms(2) obtain a where a: "a \<in> set (versions H)" "reading a b" by (auto simp: known_bases_def)
  from assms(4) obtain c where c: "current H (key_of p) = Some c" "pool_ResourceVersion c = pool_ResourceVersion p"
    by (auto split: option.splits)
  from b(2) a(2) have "pool_ResourceVersion p = pool_ResourceVersion a"
    by (auto simp: follows_def same_version_def reading_def)
  with c lawful_versions_apart [OF assms(1)] a(1) current_version [OF c(1)] have "c = a" by (auto dest: inj_onD)
  with c(1) a(2) b(2) show ?thesis by (auto simp: written_def)
qed

lemma called_lawful:
  assumes "lawful H" "known_bases H T" "hands_ok H T" "handler_run W (T i @ e # fs)" "answers H e"
  shows "lawful (map Stored (stored_of e) @ H)"
proof (cases e rule: stored_of_cases)
  case (2 p rv)
  with write_on_current [of H T W i p rv fs] assms obtain a where
    a: "current H (key_of p) = Some a" "written (hand (T i)) a (p\<lparr>pool_ResourceVersion := rv\<rparr>)" by auto
  moreover have "new_instances (hand (T i)) H" using assms(3) by (auto simp: hands_ok_def)
  ultimately have "\<exists>M. written M a (p\<lparr>pool_ResourceVersion := rv\<rparr>) \<and> new_instances M H" by blast
  with 2 assms(1,5) a(1) show ?thesis by simp
qed (use assms(1) in simp)

lemma known_bases_store:
  "known_bases H T \<Longrightarrow> known_bases (G @ H) T"
  by (auto simp: known_bases_def)

lemma called_known:
  assumes "known_bases H T" "answers H e"
  shows "known_bases (map Stored (stored_of e) @ H) (T(i := T i @ [e]))"
proof -
  have "\<exists>a \<in> set (versions (map Stored (stored_of e) @ H)). reading a b" if b: "b \<in> set (base_of e)" for b
  proof (cases e rule: stored_of_cases)
    case 1
    with b have "b \<in> set (read_of e)" by (cases e rule: base_of.cases) auto
    with assms(2) show ?thesis by (cases e rule: read_of.cases) auto
  next
    case (2 p rv)
    with b show ?thesis by auto
  qed
  with known_bases_store [OF assms(1), of "map Stored (stored_of e)"] show ?thesis
    by (auto simp: known_bases_def)
qed

lemma called_used:
  assumes "lawful H" "known_bases H T" "handler_run W (T i @ e # fs)" "answers H e"
  shows "used (map Stored (stored_of e) @ H) \<subseteq> used H \<union> (if write_of e = [] then {} else set_mset (hand (T i)))"
proof (cases e rule: stored_of_cases)
  case (2 p rv)
  with write_on_current [of H T W i p rv fs] assms obtain a where
    a: "current H (key_of p) = Some a" "written (hand (T i)) a (p\<lparr>pool_ResourceVersion := rv\<rparr>)" by auto
  have "instances p \<subseteq> used H \<union> set_mset (hand (T i))"
    using written_frame(4) [OF a(2)] version_instances_used [of a H] current_version [OF a(1)] by auto
  with 2 show ?thesis by (auto simp: used_def)
qed simp

lemma hands_ok_use:
  "hands_ok H T \<Longrightarrow> used H' = used H \<Longrightarrow> hands_ok H' T"
  by (simp add: hands_ok_def new_instances_def)

lemma new_instances_add:
  "new_instances M H \<Longrightarrow> x \<notin># M \<Longrightarrow> x \<notin> used H \<Longrightarrow> new_instances (add_mset x M) H"
  by (auto simp: new_instances_def count_eq_zero_iff)

text \<open>The launched instances stay apart, and each leaves the hand of its run when it is written.\<close>

lemma called_hands:
  assumes ok: "hands_ok H T" and f: "fresh T e"
    and used: "used H' \<subseteq> used H \<union> (if write_of e = [] then {} else set_mset (hand (T i)))"
  shows "hands_ok H' (T(i := T i @ [e]))"
proof -
  let ?T = "T(i := T i @ [e])"
  have apart: "set (launched (T j)) \<inter> set (launched (T k)) = {}" if "j \<noteq> k" for j k
    using ok that by (simp add: hands_ok_def)
  have owned: "new_instances (hand (T j)) H" "set_mset (hand (T j)) \<subseteq> set (launched (T j))" for j
    using ok by (simp_all add: hands_ok_def)
  have all: "used H \<subseteq> (\<Union>j. set (launched (T j)))" using ok by (simp add: hands_ok_def)
  have grow: "set (launched (T j)) \<subseteq> set (launched (?T j))" for j by simp
  have "set_mset (hand (T i)) \<subseteq> (\<Union>j. set (launched (T j)))" using owned(2) [of i] by blast
  with used all have "used H' \<subseteq> (\<Union>j. set (launched (T j)))" by (auto split: if_splits)
  then have c: "used H' \<subseteq> (\<Union>j. set (launched (?T j)))" using grow by blast
  have b: "set (launched (?T j)) \<inter> set (launched (?T k)) = {}" if "j \<noteq> k" for j k
    using apart [OF that] f that by (auto simp: fresh_def)
  have other: "new_instances (hand (T j)) H'" if "j \<noteq> i" for j
  proof -
    have "set_mset (hand (T j)) \<inter> set_mset (hand (T i)) = {}"
      using owned(2) [of j] owned(2) [of i] apart [OF that] by blast
    moreover have "set_mset (hand (T j)) \<inter> used H = {}" using owned(1) [of j] by (simp add: new_instances_def)
    moreover have "used H' \<subseteq> used H \<union> set_mset (hand (T i))" using used by (auto split: if_splits)
    ultimately have "set_mset (hand (T j)) \<inter> used H' = {}" by blast
    with owned(1) [of j] show ?thesis by (simp add: new_instances_def)
  qed
  have mine: "new_instances (at_hand (hand (T i)) e) H' \<and>
      set_mset (at_hand (hand (T i)) e) \<subseteq> set (launched (T i)) \<union> set (launched_of e)"
  proof (cases "write_of e = []")
    case True
    with used owned(1) [of i] have n: "new_instances (hand (T i)) H'" by (auto simp: new_instances_def)
    from launched_of_once [of e] show ?thesis
    proof
      assume "\<exists>x. launched_of e = [x]"
      then obtain x where x: "launched_of e = [x]" ..
      with f have "x \<notin> (\<Union>j. set (launched (T j)))" by (simp add: fresh_def)
      then have "x \<notin># hand (T i)" "x \<notin> used H'" using owned(2) [of i] \<open>used H' \<subseteq> (\<Union>j. set (launched (T j)))\<close> by auto
      with new_instances_add [OF n] True x owned(2) [of i] show ?thesis by (auto simp: at_hand_def)
    qed (use True n owned(2) [of i] in simp)
  next
    case False
    then show ?thesis by (simp add: at_hand_def new_instances_def)
  qed
  have a: "new_instances (hand (?T j)) H' \<and> set_mset (hand (?T j)) \<subseteq> set (launched (?T j))" for j
    using other [of j] owned(2) [of j] mine by (cases "j = i") auto
  from a b c show ?thesis unfolding hands_ok_def by blast
qed

definition consistent :: "entry list \<Rightarrow> (nat \<Rightarrow> event list) \<Rightarrow> bool" where
  "consistent H T \<longleftrightarrow> lawful H \<and> known_bases H T \<and> hands_ok H T"

lemma consistent_entry:
  "consistent H T \<Longrightarrow> lawful (e # H) \<Longrightarrow> used (e # H) = used H \<Longrightarrow> consistent (e # H) T"
  using known_bases_store [of H T "[e]"] by (auto simp: consistent_def intro: hands_ok_use)

lemma consistent_moves: "moves (H, T) (H', T') \<Longrightarrow> consistent H T \<Longrightarrow> consistent H' T'"
proof (induction "(H, T)" "(H', T')" arbitrary: H T H' T' rule: moves.induct)
  case (created H p T)
  then show ?case by (intro consistent_entry) (simp_all add: used_def consistent_def)
next
  case (edited H p a T)
  then have "instances p = instances a" by (simp add: instances_def)
  with version_instances_used [of a H] current_version [OF edited(1)] have "used (Stored p # H) = used H"
    by (auto simp: used_def)
  with edited show ?case by (intro consistent_entry) (simp_all add: consistent_def)
next
  case (deleted H k a T)
  then show ?case by (intro consistent_entry) (simp_all add: used_def consistent_def)
next
  case (called W T i e fs H)
  then show ?case
    unfolding consistent_def
    using called_lawful [of H T W i e fs] called_known [of H T e i]
      called_hands [of H T e _ i, OF _ _ called_used [of H T W i e fs]] by blast
qed

lemma consistent_later: "moves\<^sup>*\<^sup>* (H, T) (H', T') \<Longrightarrow> consistent H T \<Longrightarrow> consistent H' T'"
  by (induction rule: rtranclp_induct2) (auto intro: consistent_moves)

lemma system_invariant: "system H T \<Longrightarrow> lawful H \<and> known_bases H T \<and> hands_ok H T"
  using consistent_later [of "[]" "\<lambda>_. []" H T]
  by (simp add: system_def consistent_def known_bases_def hands_ok_def new_instances_def used_def)

section \<open>Launches that come to nothing\<close>

text \<open>The instance was launched, but no run can still write it and no version lists it.\<close>

definition lost :: "entry list \<Rightarrow> (nat \<Rightarrow> event list) \<Rightarrow> string \<Rightarrow> bool" where
  "lost H T x \<longleftrightarrow> (\<exists>i. x \<in> set (launched (T i))) \<and> (\<forall>i. x \<notin># hand (T i)) \<and> x \<notin> used H"

lemma lost_entry: "lost H T x \<Longrightarrow> used (e # H) = used H \<Longrightarrow> lost (e # H) T x"
  by (simp add: lost_def)

lemma lost_moves: "moves (H, T) (H', T') \<Longrightarrow> consistent H T \<Longrightarrow> lost H T x \<Longrightarrow> lost H' T' x"
proof (induction "(H, T)" "(H', T')" arbitrary: H T H' T' rule: moves.induct)
  case (created H p T)
  then show ?case by (intro lost_entry) (simp_all add: used_def)
next
  case (edited H p a T)
  then have "instances p = instances a" by (simp add: instances_def)
  with version_instances_used [of a H] current_version [OF edited(1)] have "used (Stored p # H) = used H"
    by (auto simp: used_def)
  with edited show ?case by (intro lost_entry) simp_all
next
  case (deleted H k a T)
  then show ?case by (intro lost_entry) (simp_all add: used_def)
next
  case (called W T i e fs H)
  from called(5) obtain j where j: "x \<in> set (launched (T j))" by (auto simp: lost_def)
  from called(5) have free: "x \<notin># hand (T k)" "x \<notin> used H" for k by (simp_all add: lost_def)
  have "x \<notin> used (map Stored (stored_of e) @ H)"
    using called_used [of H T W i e fs] called(1,2,4) free by (auto simp: consistent_def split: if_splits)
  moreover have "x \<notin># hand ((T(i := T i @ [e])) k)" for k
    using free(1) [of k] free(1) [of i] called(3) j by (auto simp: at_hand_def fresh_def)
  moreover have "x \<in> set (launched ((T(i := T i @ [e])) j))" using j by (cases "j = i") simp_all
  ultimately show ?case unfolding lost_def by blast
qed

lemma lost_later: "moves\<^sup>*\<^sup>* (H, T) (H', T') \<Longrightarrow> consistent H T \<Longrightarrow> lost H T x \<Longrightarrow> lost H' T' x \<and> consistent H' T'"
  by (induction rule: rtranclp_induct2) (auto intro: lost_moves consistent_moves)

lemma hand_launched: "set_mset (foldl at_hand M es) \<subseteq> set_mset M \<union> set (launched es)"
proof (induction es arbitrary: M)
  case (Cons e es)
  from Cons.IH [of "at_hand M e"] show ?case by (auto simp: at_hand_def split: if_splits)
qed simp

text \<open>What a run of the reaper or of the node-ready handler terminates, some version tracked.\<close>

lemma terminated_used:
  assumes "consistent H T" "sourced [] (T i @ fs)" "x \<in> set (terminated (T i))"
  shows "x \<in> used H"
proof -
  from assms(2) have "sourced [] (T i)" by (simp add: sourced_append)
  from sourced_terminated [OF this assms(3)] obtain b where
    b: "b \<in> set (bases (T i))" "x \<in># tracked (pool_Status b)" by auto
  from assms(1) b(1) obtain a where a: "a \<in> set (versions H)" "reading a b"
    by (auto simp: consistent_def known_bases_def)
  from b(2) reading_tracked [OF a(2)] tracked_instances [of a] have "x \<in> instances a" by auto
  with version_instances_used [OF a(1)] show ?thesis by blast
qed

section \<open>Replaying a run\<close>

text \<open>
  A computable way into the system: the log after the calls \<open>es\<close> of one run, if the server and EC2
  may answer so; \<open>L\<close> are the instances launched before.
\<close>

fun replay :: "entry list \<Rightarrow> string list \<Rightarrow> event list \<Rightarrow> entry list option" where
  "replay H L [] = Some H"
| "replay H L (e # es) =
     (if answers H e \<and> list_all (\<lambda>x. x \<notin> set L) (launched_of e)
      then replay (map Stored (stored_of e) @ H) (launched_of e @ L) es else None)"

lemma replay_moves:
  "replay H L es = Some H' \<Longrightarrow> handler_run W (T i @ es @ fs) \<Longrightarrow> \<forall>j. set (launched (T j)) \<subseteq> set L \<Longrightarrow>
   moves\<^sup>*\<^sup>* (H, T) (H', T(i := T i @ es))"
proof (induction es arbitrary: H L T)
  case (Cons e es)
  let ?T = "T(i := T i @ [e])"
  from Cons.prems(1) have ok: "answers H e" "\<forall>x \<in> set (launched_of e). x \<notin> set L"
    "replay (map Stored (stored_of e) @ H) (launched_of e @ L) es = Some H'"
    by (auto simp: list_all_iff split: if_splits)
  have "fresh T e" using ok(2) Cons.prems(3) by (auto simp: fresh_def)
  with Cons.prems(2) ok(1) have "moves (H, T) (map Stored (stored_of e) @ H, ?T)"
    by (intro moves.called [where fs = "es @ fs" and W = W]) simp_all
  moreover have "handler_run W (?T i @ es @ fs)" using Cons.prems(2) by simp
  moreover have "\<forall>j. set (launched (?T j)) \<subseteq> set (launched_of e @ L)" using Cons.prems(3) by auto
  ultimately have "moves\<^sup>*\<^sup>* (H, T) (H', ?T(i := ?T i @ es))"
    using Cons.IH [OF ok(3), of ?T] by (blast intro: converse_rtranclp_into_rtranclp)
  then show ?case by (simp only: fun_upd_upd fun_upd_same append_assoc append_Cons append_Nil)
qed simp

section \<open>A course of the sample cluster\<close>

definition sample_version :: "nat \<Rightarrow> int \<Rightarrow> int \<Rightarrow> node_status list \<Rightarrow> pool" where
  "sample_version rv active pending nodes = sample_pool\<lparr>pool_ResourceVersion := rv,
     pool_Status := \<lparr>ActiveNodes = active, PendingNodes = pending, Nodes = nodes, Conditions = []\<rparr>\<rparr>"

definition sample_launched :: node_status where
  "sample_launched = (sample_status Pending)\<lparr>ns_LaunchedAt := 1000000000000\<rparr>"

definition sample_ready :: node_status where
  "sample_ready = sample_launched\<lparr>ns_State := Running, ns_ReadyAt := Some 1000000000000\<rparr>"

definition serving :: "pool \<Rightarrow> nat \<Rightarrow> world \<Rightarrow> world" where
  "serving p rv W = W\<lparr>w_ListPools := \<lambda>h. Inr [p], w_GetPool := \<lambda>h k. Inr p, w_UpdateStatus := \<lambda>h p. Inr rv\<rparr>"

text \<open>
  The pool is created; a run launches \<open>i-1\<close>. The node joins in time, or it is not ready when its boot
  timeout is long over; then another run launches \<open>i-2\<close>.
\<close>

definition log_created :: "entry list" where
  "log_created = [Stored sample_pool]"

definition log_launched :: "entry list" where
  "log_launched = Stored (sample_version 2 0 1 [sample_launched]) # log_created"

definition ready_run :: "event list" where
  "ready_run = (let W = serving (sample_version 2 0 1 [sample_launched]) 3 sample_world
     in calls_of (NodeReadyReconciler_Reconcile W (ec2_provider W) ''burst-general-00000000'') [])"

definition log_ready :: "entry list" where
  "log_ready = Stored (sample_version 3 1 0 [sample_ready]) # log_launched"

definition late_run :: "event list" where
  "late_run = (let W = serving (sample_version 2 0 1 [sample_launched]) 3
       (sample_world\<lparr>w_GetNode := \<lambda>h key. Inr (sample_node\<lparr>node_Conditions := []\<rparr>), w_Now := \<lambda>h. 2000000000000\<rparr>)
     in calls_of (NodeReadyReconciler_Reconcile W (ec2_provider W) ''burst-general-00000000'') [])"

definition log_late :: "entry list" where
  "log_late = Stored (sample_version 3 0 0 []) # log_launched"

definition second_run :: "event list" where
  "second_run = (let W = serving (sample_version 3 0 0 []) 4 (sample_world
       \<lparr>w_RunInstances := \<lambda>h i. Inr [\<lparr>ei_InstanceId = Some ''i-2'', ei_InstanceType = rii_InstanceType i,
          ei_State = Some ''pending'', ei_LaunchTime = Some 1, ei_Tags = []\<rparr>]\<rparr>)
     in calls_of (ProvisionerReconciler_Reconcile W (ec2_provider W) 0 (''default'', ''web'')) [])"

definition log_second :: "entry list" where
  "log_second = Stored (sample_version 4 0 1 [sample_launched\<lparr>ns_InstanceID := ''i-2''\<rparr>]) # log_late"

text \<open>A run whose status update the server refuses, after it has launched \<open>i-2\<close>.\<close>

definition refused_run :: "event list" where
  "refused_run = (let W = sample_world
       \<lparr>w_RunInstances := \<lambda>h i. Inr [\<lparr>ei_InstanceId = Some ''i-2'', ei_InstanceType = rii_InstanceType i,
          ei_State = Some ''pending'', ei_LaunchTime = Some 1, ei_Tags = []\<rparr>],
        w_UpdateStatus := \<lambda>h p. Inl (Plain ''Conflict'')\<rparr>
     in calls_of (ProvisionerReconciler_Reconcile W (ec2_provider W) 0 (''default'', ''web'')) [])"

text \<open>The states of the system the witnesses use: each run goes to its end.\<close>

lemma replay_logs:
  "replay log_created [] sample_run = Some log_launched"
  "replay log_launched [''i-1''] ready_run = Some log_ready"
  "replay log_launched [''i-1''] late_run = Some log_late"
  "replay log_late [''i-1''] second_run = Some log_second"
  "replay log_created [] refused_run = Some log_created"
  "replay log_created [''i-2''] sample_run = Some log_launched"
  by (code_simp)+

lemma launched_runs:
  "launched sample_run = [''i-1'']" "launched ready_run = []" "launched late_run = []" "launched second_run = [''i-2'']"
  "launched refused_run = [''i-2'']"
  by code_simp+

lemma runs_of_handlers:
  "\<exists>W. handler_run W sample_run" "\<exists>W. handler_run W ready_run" "\<exists>W. handler_run W late_run"
  "\<exists>W. handler_run W second_run" "\<exists>W. handler_run W refused_run"
  unfolding sample_run_def ready_run_def late_run_def second_run_def refused_run_def Let_def
  by (blast intro: handler_run.provision handler_run.node_ready)+

definition runs_launched :: "nat \<Rightarrow> event list" where
  "runs_launched = (\<lambda>_. [])(0 := sample_run)"

lemma replay_later:
  "replay H L es = Some H' \<Longrightarrow> handler_run W es \<Longrightarrow> T i = [] \<Longrightarrow> \<forall>j. set (launched (T j)) \<subseteq> set L \<Longrightarrow>
   moves\<^sup>*\<^sup>* (H, T) (H', T(i := es))"
  using replay_moves [of H L es H' W T i "[]"] by simp

lemma replay_run:
  "replay H L es = Some H' \<Longrightarrow> system H T \<Longrightarrow> handler_run W es \<Longrightarrow> T i = [] \<Longrightarrow>
   \<forall>j. set (launched (T j)) \<subseteq> set L \<Longrightarrow> system H' (T(i := es))"
  unfolding system_def by (rule rtranclp_trans [OF _ replay_later])

lemma system_created: "system log_created (\<lambda>_. [])"
  unfolding log_created_def
  by (rule system_moves [OF system_start], rule moves.created)
     (simp_all add: sample_pool_def pool_max_def no_status_def newest_def)

lemma system_launched: "system log_launched runs_launched"
proof -
  obtain W where "handler_run W sample_run" using runs_of_handlers(1) ..
  from replay_run [OF replay_logs(1) system_created this, of 0] show ?thesis by (simp add: runs_launched_def)
qed

lemma system_ready: "system log_ready (runs_launched(1 := ready_run))"
proof -
  obtain W where "handler_run W ready_run" using runs_of_handlers(2) ..
  then show ?thesis
    by (rule replay_run [OF replay_logs(2) system_launched]) (simp_all add: runs_launched_def launched_runs)
qed

lemma system_late: "system log_late (runs_launched(1 := late_run))"
proof -
  obtain W where "handler_run W late_run" using runs_of_handlers(3) ..
  then show ?thesis
    by (rule replay_run [OF replay_logs(3) system_launched]) (simp_all add: runs_launched_def launched_runs)
qed

lemma system_second: "system log_second (runs_launched(1 := late_run, 2 := second_run))"
proof -
  obtain W where "handler_run W second_run" using runs_of_handlers(4) ..
  then show ?thesis
    by (rule replay_run [OF replay_logs(4) system_late]) (simp_all add: runs_launched_def launched_runs)
qed

section \<open>Properties\<close>

text \<open>
  C1. No update is lost: however the runs of the four handlers and the users' changes interleave, every
  version of a pool the API server ever holds is its creation, an edit of the specification that keeps
  the status, or leads by lifecycle steps from the status of the version right before it, read with any
  delay, to the new one, with instances no version tracked before. The history of a pool is one run of
  the lifecycle machine.
\<close>

theorem pool_history_is_lifecycle:
  assumes "system (G @ Stored p # H) T"
  shows "case current H (key_of p) of
      None \<Rightarrow> pool_Status p = no_status
    | Some a \<Rightarrow> pool_Status p = pool_Status a \<or>
        pool_Spec p = pool_Spec a \<and>
        (\<exists>L b. reading a b \<and> L \<inter> used H = {} \<and>
           (life L (pool_max a))\<^sup>*\<^sup>* (pool_Status b) (pool_Status p))"
proof -
  from system_invariant [OF assms] have law: "lawful (Stored p # H)" by (blast dest: lawful_suffix)
  have "\<exists>L b. reading a b \<and> L \<inter> used H = {} \<and> (life L (pool_max a))\<^sup>*\<^sup>* (pool_Status b) (pool_Status p)"
    if a: "current H (key_of p) = Some a" and w: "written M a p" "new_instances M H" for a M
  proof -
    from w(1) obtain b q where b: "reading a b" "follows M b q" "pool_Status p = pool_Status q"
      by (auto simp: written_def)
    from lawful_ok [of H] law current_version [OF a] have "pool_ok a" by simp
    moreover have "pool_max b = pool_max a" using b(1) by (simp add: pool_max_def reading_def reread_def)
    ultimately have "(life (set_mset M) (pool_max a))\<^sup>*\<^sup>* (pool_Status b) (pool_Status p)"
      using b reading_ok [OF b(1)] by (simp add: follows_def)
    with b(1) w(2) show ?thesis by (auto simp: new_instances_def)
  qed
  with law show ?thesis by (auto split: option.split dest: written_frame(2))
qed

lemma pool_history_is_lifecycle_witness:
  "\<exists>L b. reading sample_pool b \<and> L \<inter> used log_created = {} \<and>
     (life L (pool_max sample_pool))\<^sup>*\<^sup>* (pool_Status b) (pool_Status (sample_version 2 0 1 [sample_launched]))"
proof -
  have "system ([] @ Stored (sample_version 2 0 1 [sample_launched]) # log_created) runs_launched"
    using system_launched by (simp add: log_launched_def)
  from pool_history_is_lifecycle [OF this] show ?thesis
    by (auto simp: log_created_def key_of_def sample_version_def sample_pool_def)
qed

text \<open>
  C2. An instance is tracked once: no version of a pool lists an instance twice, every instance listed
  was answered by EC2 to a launch one of the runs asked for, and no two pools ever list the same one.
\<close>

theorem instances_tracked_once:
  assumes "system H T" and "p \<in> set (versions H)"
  shows "distinct (map ns_InstanceID (Nodes (pool_Status p))) \<and>
    (\<forall>x \<in> instances p. (\<exists>i. x \<in> set (launched (T i))) \<and>
       (\<forall>q \<in> set (versions H). x \<in> instances q \<longrightarrow> key_of q = key_of p))"
proof -
  from system_invariant [OF assms(1)] have law: "lawful H" and hands: "hands_ok H T" by auto
  from lawful_once [OF law] assms(2) have "\<forall>x. count (tracked (pool_Status p)) x \<le> 1" by blast
  then have "distinct (map ns_InstanceID (Nodes (pool_Status p)))" by (rule once_distinct)
  moreover have "\<exists>i. x \<in> set (launched (T i))" if "x \<in> instances p" for x
    using hands version_instances_used [OF assms(2)] that by (auto simp: hands_ok_def)
  ultimately show ?thesis using lawful_one_pool [OF law _ assms(2)] by blast
qed

lemma instances_tracked_once_witness:
  "distinct (map ns_InstanceID [sample_launched]) \<and>
   (\<exists>i. ''i-1'' \<in> set (launched (runs_launched i)))"
proof -
  have v: "sample_version 2 0 1 [sample_launched] \<in> set (versions log_launched)" by (simp add: log_launched_def)
  from instances_tracked_once [OF system_launched v] show ?thesis
    by (auto simp: sample_version_def instances_def sample_launched_def sample_status_def)
qed

text \<open>
  C3. A tracked instance only moves forward: in any later version of its pool that still lists it, it
  has the same name and type and is in the same state or a later one of pending, running, cordoned,
  draining, terminating.
\<close>

theorem instance_states_advance:
  assumes "system (G @ H) T" and "current H k = Some a" and "p \<in> set (versions G)" and "key_of p = k"
    and "n \<in> set (Nodes (pool_Status a))" and "m \<in> set (Nodes (pool_Status p))"
    and "ns_InstanceID m = ns_InstanceID n"
  shows "ns_Name m = ns_Name n \<and> ns_InstanceType m = ns_InstanceType n \<and> ns_State n \<le> ns_State m"
proof -
  from system_invariant [OF assms(1)] have "lawful (G @ H)" by blast
  from lawful_onward [OF assms(2,5) this assms(3,4,6,7)] show ?thesis by (simp add: onward_def)
qed

lemma instance_states_advance_witness:
  "ns_Name sample_ready = ns_Name sample_launched \<and> ns_State sample_launched \<le> ns_State sample_ready"
proof -
  have "system ([Stored (sample_version 3 1 0 [sample_ready])] @ log_launched) (runs_launched(1 := ready_run))"
    using system_ready by (simp add: log_ready_def)
  from instance_states_advance [OF this, of "key_of sample_pool" "sample_version 2 0 1 [sample_launched]"
      "sample_version 3 1 0 [sample_ready]" sample_launched sample_ready]
  show ?thesis by (simp add: log_launched_def sample_version_def key_of_def sample_ready_def)
qed

text \<open>
  C11. A forgotten instance stays forgotten: once no pool lists an instance any more (its node joined too
  late, was torn down or was removed as an orphan, or its pool was deleted), no later version of any
  pool lists it, even if runs that read an older version are still under way.
\<close>

theorem forgotten_instances_stay_forgotten:
  assumes "system (G @ H) T" and "x \<in> used H" and "\<forall>k. \<not> tracks H k x"
  shows "\<forall>p \<in> set (versions G). x \<notin> instances p"
  using system_invariant [OF assms(1)] lawful_forgotten [of G H x] assms(2,3) by blast

lemma forgotten_instances_stay_forgotten_witness:
  "''i-1'' \<in> used log_late \<and>
   ''i-1'' \<notin> instances (sample_version 4 0 1 [sample_launched\<lparr>ns_InstanceID := ''i-2''\<rparr>])"
proof -
  have s: "system ([Stored (sample_version 4 0 1 [sample_launched\<lparr>ns_InstanceID := ''i-2''\<rparr>])] @ log_late)
      (runs_launched(1 := late_run, 2 := second_run))"
    using system_second by (simp add: log_second_def)
  have u: "''i-1'' \<in> used log_late"
    by (simp add: used_def log_late_def log_launched_def instances_def sample_version_def sample_launched_def
        sample_status_def)
  have "\<forall>k. \<not> tracks log_late k ''i-1''"
    by (auto simp: tracks_def log_late_def log_launched_def log_created_def instances_def sample_version_def
        sample_pool_def key_of_def)
  from forgotten_instances_stay_forgotten [OF s u this] u show ?thesis by simp
qed

text \<open>
  C12. The reaper and the node-ready handler terminate only instances the controller launched: an
  instance that such a run has asked EC2 to terminate was answered to a launch of some run before.
\<close>

theorem only_launched_instances_terminated:
  assumes "system H T" and "x \<in> set (terminated (T i))"
    and "T i @ fs = calls_of (ReaperReconciler_Reconcile W (ec2_provider W) D c nm) h \<or>
      T i @ fs = calls_of (NodeReadyReconciler_Reconcile W (ec2_provider W) nm) h"
  shows "\<exists>j. x \<in> set (launched (T j))"
proof -
  from assms(3) have "sourced [] (T i @ fs)"
    by (metis emitsD [OF ec2.reaper_sourced] emitsD [OF ec2.node_ready_sourced])
  moreover have "consistent H T" using system_invariant [OF assms(1)] by (simp add: consistent_def)
  ultimately have "x \<in> used H" using assms(2) by (blast intro: terminated_used)
  with system_invariant [OF assms(1)] show ?thesis by (auto simp: hands_ok_def)
qed

lemma only_launched_instances_terminated_witness:
  "terminated late_run = [''i-1''] \<and> (\<exists>j. ''i-1'' \<in> set (launched ((runs_launched(1 := late_run)) j)))"
proof -
  have t: "terminated late_run = [''i-1'']" by code_simp
  have r: "\<exists>W nm h. late_run @ [] = calls_of (NodeReadyReconciler_Reconcile W (ec2_provider W) nm) h"
    by (simp add: late_run_def Let_def) blast
  then obtain W nm h where "(runs_launched(1 := late_run)) 1 @ [] =
      calls_of (NodeReadyReconciler_Reconcile W (ec2_provider W) nm) h" by auto
  with only_launched_instances_terminated [OF system_late, of "''i-1''" 1 "[]" W None 0 nm h] t show ?thesis by simp
qed

text \<open>
  C13. An instance whose status update was refused is left to the orphan check: once a run has written
  the status (\<open>fs\<close> are its calls after that, \<open>es\<close> those before, with the launch) and no version lists
  the instance, none ever will, whatever happens next, and no run of the reaper or of the node-ready
  handler ever terminates it.
\<close>

theorem refused_launches_are_left_to_the_orphan_check:
  assumes "system H T" and "T i = es @ EvUpdateStatus p r # fs" and "x \<in> set (launched es)"
    and "x \<notin> set (launched fs)" and "x \<notin> used H" and "moves\<^sup>*\<^sup>* (H, T) (H', T')"
  shows "(\<forall>q \<in> set (versions H'). x \<notin> instances q) \<and>
    (\<forall>j gs W D c nm h.
       T' j @ gs = calls_of (ReaperReconciler_Reconcile W (ec2_provider W) D c nm) h \<or>
       T' j @ gs = calls_of (NodeReadyReconciler_Reconcile W (ec2_provider W) nm) h \<longrightarrow>
       x \<notin> set (terminated (T' j)))"
proof -
  from system_invariant [OF assms(1)] have c: "consistent H T" by (simp add: consistent_def)
  have "x \<notin># hand (T k)" for k
  proof (cases "k = i")
    case True
    with assms(2,4) hand_launched [of "{#}" fs] show ?thesis by (auto simp: at_hand_def)
  next
    case False
    with c have "set (launched (T k)) \<inter> set (launched (T i)) = {}" "set_mset (hand (T k)) \<subseteq> set (launched (T k))"
      by (simp_all add: consistent_def hands_ok_def)
    with assms(2,3) show ?thesis by auto
  qed
  moreover have "x \<in> set (launched (T i))" using assms(2,3) by simp
  ultimately have "lost H T x" using assms(5) unfolding lost_def by blast
  from lost_later [OF assms(6) c this] have l: "x \<notin> used H'" "consistent H' T'" by (simp_all add: lost_def)
  have "x \<notin> set (terminated (T' j))" if "sourced [] (T' j @ gs)" for j gs
    using terminated_used [OF l(2) that] l(1) by blast
  then have "x \<notin> set (terminated (T' j))"
    if "T' j @ gs = calls_of (ReaperReconciler_Reconcile W (ec2_provider W) D c nm) h \<or>
       T' j @ gs = calls_of (NodeReadyReconciler_Reconcile W (ec2_provider W) nm) h" for j gs W D c nm h
    using that by (metis emitsD [OF ec2.reaper_sourced] emitsD [OF ec2.node_ready_sourced])
  with l(1) version_instances_used [of _ H'] show ?thesis by blast
qed

lemma refused_launches_are_left_to_the_orphan_check_witness:
  "\<exists>T'. moves\<^sup>*\<^sup>* (log_created, (\<lambda>_. [])(0 := refused_run)) (log_launched, T') \<and>
     launched refused_run = [''i-2''] \<and> (\<forall>q \<in> set (versions log_launched). ''i-2'' \<notin> instances q)"
proof -
  obtain W where W: "handler_run W refused_run" using runs_of_handlers(5) ..
  have s: "system log_created ((\<lambda>_. [])(0 := refused_run))"
    by (rule replay_run [OF replay_logs(5) system_created W]) simp_all
  obtain V where V: "handler_run V sample_run" using runs_of_handlers(1) ..
  have m: "moves\<^sup>*\<^sup>* (log_created, (\<lambda>_. [])(0 := refused_run))
      (log_launched, ((\<lambda>_. [])(0 := refused_run))(1 := sample_run))"
    by (rule replay_later [OF replay_logs(6) V]) (simp_all add: launched_runs)
  have r: "refused_run \<noteq> []" "launched (butlast refused_run) = [''i-2'']"
    "case last refused_run of EvUpdateStatus p r \<Rightarrow> True | _ \<Rightarrow> False" by code_simp+
  then obtain p r where "last refused_run = EvUpdateStatus p r" by (auto split: event.splits)
  with append_butlast_last_id [OF r(1)] have es: "refused_run = butlast refused_run @ EvUpdateStatus p r # []" by simp
  have "''i-2'' \<notin> used log_created"
    by (simp add: used_def log_created_def instances_def sample_pool_def)
  with refused_launches_are_left_to_the_orphan_check [OF s _ _ _ _ m, of 0 "butlast refused_run" p r "[]" "''i-2''"] es r(2)
  have "\<forall>q \<in> set (versions log_launched). ''i-2'' \<notin> instances q" by simp
  with m launched_runs(5) show ?thesis by blast
qed

end
