(* ===== verification/Test_Utils.thy ===== *)
theory Test_Utils
  imports Trace_Calculus Go_Errors
begin

text \<open>
  \<open>test/utils/utils.go\<close>: the helpers of the end-to-end tests. Commands, files, the working directory
  and the environment are calls to the outside; warnings are left out. Strings are bytes.
\<close>

section \<open>What the file uses of Go's library\<close>

text \<open>\<open>strings.Index\<close>, counting from \<open>i\<close>.\<close>

fun strings_Index :: "string \<Rightarrow> string \<Rightarrow> nat \<Rightarrow> nat option" where
  "strings_Index [] sub i = (if sub = [] then Some i else None)"
| "strings_Index (c # s) sub i =
     (if take (length sub) (c # s) = sub then Some i else strings_Index s sub (Suc i))"

definition strings_Contains :: "string \<Rightarrow> string \<Rightarrow> bool" where
  "strings_Contains s sub = (strings_Index s sub 0 \<noteq> None)"

definition strings_TrimPrefix :: "string \<Rightarrow> string \<Rightarrow> string" where
  "strings_TrimPrefix s prefix = (if take (length prefix) s = prefix then drop (length prefix) s else s)"

text \<open>\<open>strings.ReplaceAll(s, old, "")\<close> for a nonempty \<open>old\<close>.\<close>

function remove_all :: "string \<Rightarrow> string \<Rightarrow> string" where
  "remove_all old [] = []"
| "remove_all old (c # s) =
     (if old \<noteq> [] \<and> take (length old) (c # s) = old then remove_all old (drop (length old) (c # s))
      else c # remove_all old s)"
  by pat_completeness auto

termination by (relation "measure (\<lambda>(old, s). length s)") auto

abbreviation newline :: char where "newline \<equiv> CHR 0x0A"

text \<open>\<open>strings.SplitSeq(s, "\n")\<close>: one more piece than there are newlines.\<close>

fun split_lines :: "string \<Rightarrow> string list" where
  "split_lines [] = [[]]"
| "split_lines (c # s) =
     (if c = newline then [] # split_lines s
      else (case split_lines s of [] \<Rightarrow> [[c]] | l # ls \<Rightarrow> (c # l) # ls))"

text \<open>
  The lines a \<open>bufio.Scanner\<close> finds: no empty line after the last newline, a carriage return at the end
  of a line is dropped, and a line of more than 65535 bytes ends the scan.
\<close>

definition drop_CR :: "string \<Rightarrow> string" where
  "drop_CR l = (if l \<noteq> [] \<and> last l = CHR 0x0D then butlast l else l)"

function scan_lines :: "string \<Rightarrow> string list" where
  "scan_lines s =
     (if s = [] then []
      else let line = takeWhile (\<lambda>c. c \<noteq> newline) s
           in if length line > 65535 then []
              else drop_CR line # scan_lines (drop (Suc (length line)) s))"
  by pat_completeness auto

termination by (relation "measure length") auto

declare scan_lines.simps [simp del]

text \<open>\<open>strings.Join(ls, "\n")\<close>, and what writing lines with a newline before all but the first leaves.\<close>

fun join_lines :: "string list \<Rightarrow> string" where
  "join_lines [] = []"
| "join_lines [l] = l"
| "join_lines (l # ls) = l @ newline # join_lines ls"

section \<open>Calls to the outside\<close>

record exec_cmd =
  cmd_Args :: "string list"
  cmd_Dir :: string
  cmd_ExtraEnv :: "string list"

datatype test_event =
    EvGetwd "string \<times> go_error option"
  | EvChdir string "go_error option"
  | EvCombinedOutput exec_cmd "string \<times> go_error option"
  | EvLookupEnv string "string option"
  | EvReadFile string "go_error + string"
  | EvWriteFile string string "go_error option"

type_synonym 'a test_io = "(test_event list, 'a) state"

record machine =
  m_Getwd :: "test_event list \<Rightarrow> string \<times> go_error option"
  m_Chdir :: "test_event list \<Rightarrow> string \<Rightarrow> go_error option"
  m_CombinedOutput :: "test_event list \<Rightarrow> exec_cmd \<Rightarrow> string \<times> go_error option"
  m_LookupEnv :: "test_event list \<Rightarrow> string \<Rightarrow> string option"
  m_ReadFile :: "test_event list \<Rightarrow> string \<Rightarrow> go_error + string"
  m_WriteFile :: "test_event list \<Rightarrow> string \<Rightarrow> string \<Rightarrow> go_error option"

definition lookup_env :: "machine \<Rightarrow> string \<Rightarrow> string option test_io" where
  "lookup_env M v = call (\<lambda>h. m_LookupEnv M h v) (EvLookupEnv v)"

section \<open>Commands\<close>

definition certmanagerVersion :: string where "certmanagerVersion = ''v1.19.4''"

definition certmanagerURL :: string where
  "certmanagerURL = ''https://github.com/cert-manager/cert-manager/releases/download/'' @ certmanagerVersion @
     ''/cert-manager.yaml''"

definition GetProjectDir :: "machine \<Rightarrow> (string \<times> go_error option) test_io" where
  "GetProjectDir M =
     do {
       (wd, err) \<leftarrow> call (m_Getwd M) EvGetwd;
       State_Monad.return
         (case err of
            Some err \<Rightarrow> (wd, Some (WrapErr ''failed to get current working directory'' err))
          | None \<Rightarrow> (remove_all ''/test/e2e'' wd, None))
     }"

definition Run :: "machine \<Rightarrow> string list \<Rightarrow> (string \<times> go_error option) test_io" where
  "Run M args =
     do {
       (dir, _) \<leftarrow> GetProjectDir M;
       err \<leftarrow> call (\<lambda>h. m_Chdir M h dir) (EvChdir dir);
       let cmd = \<lparr>cmd_Args = args, cmd_Dir = dir, cmd_ExtraEnv = [''GO111MODULE=on'']\<rparr>;
       (output, err) \<leftarrow> call (\<lambda>h. m_CombinedOutput M h cmd) (EvCombinedOutput cmd);
       State_Monad.return
         (case err of
            Some err \<Rightarrow> (output, Some (WrapErr ''failed with error'' err))
          | None \<Rightarrow> (output, None))
     }"

definition UninstallCertManager :: "machine \<Rightarrow> unit test_io" where
  "UninstallCertManager M =
     do {
       Run M [''kubectl'', ''delete'', ''-f'', certmanagerURL];
       Run M [''kubectl'', ''delete'', ''lease'', ''cert-manager-cainjector-leader-election'',
              ''-n'', ''kube-system'', ''--ignore-not-found'', ''--force'', ''--grace-period=0''];
       Run M [''kubectl'', ''delete'', ''lease'', ''cert-manager-controller'',
              ''-n'', ''kube-system'', ''--ignore-not-found'', ''--force'', ''--grace-period=0''];
       State_Monad.return ()
     }"

definition InstallCertManager :: "machine \<Rightarrow> go_error option test_io" where
  "InstallCertManager M =
     do {
       (_, err) \<leftarrow> Run M [''kubectl'', ''apply'', ''-f'', certmanagerURL];
       (case err of
          Some err \<Rightarrow> State_Monad.return (Some err)
        | None \<Rightarrow>
            do {
              (_, err) \<leftarrow> Run M [''kubectl'', ''wait'', ''deployment.apps/cert-manager-webhook'',
                ''--for'', ''condition=Available'', ''--namespace'', ''cert-manager'', ''--timeout'', ''5m''];
              State_Monad.return err
            })
     }"

definition GetNonEmptyLines :: "string \<Rightarrow> string list" where
  "GetNonEmptyLines output = filter (\<lambda>element. element \<noteq> []) (split_lines output)"

definition certManagerCRDs :: "string list" where
  "certManagerCRDs =
     [''certificates.cert-manager.io'', ''issuers.cert-manager.io'', ''clusterissuers.cert-manager.io'',
      ''certificaterequests.cert-manager.io'', ''orders.acme.cert-manager.io'', ''challenges.acme.cert-manager.io'']"

definition IsCertManagerCRDsInstalled :: "machine \<Rightarrow> bool test_io" where
  "IsCertManagerCRDsInstalled M =
     do {
       (output, err) \<leftarrow> Run M [''kubectl'', ''get'', ''crds''];
       State_Monad.return
         (case err of
            Some err \<Rightarrow> False
          | None \<Rightarrow> list_ex (\<lambda>crd. list_ex (\<lambda>line. strings_Contains line crd) (GetNonEmptyLines output)) certManagerCRDs)
     }"

definition LoadImageToKindClusterWithName :: "machine \<Rightarrow> string \<Rightarrow> go_error option test_io" where
  "LoadImageToKindClusterWithName M name =
     do {
       v \<leftarrow> lookup_env M ''KIND_CLUSTER'';
       let cluster = (case v of Some v \<Rightarrow> v | None \<Rightarrow> ''kind'');
       v \<leftarrow> lookup_env M ''KIND'';
       let kindBinary = (case v of Some v \<Rightarrow> v | None \<Rightarrow> ''kind'');
       (_, err) \<leftarrow> Run M [kindBinary, ''load'', ''docker-image'', name, ''--name'', cluster];
       State_Monad.return err
     }"

section \<open>Uncommenting code\<close>

definition UncommentCode :: "machine \<Rightarrow> string \<Rightarrow> string \<Rightarrow> string \<Rightarrow> go_error option test_io" where
  "UncommentCode M filename target prefix =
     do {
       content \<leftarrow> call (\<lambda>h. m_ReadFile M h filename) (EvReadFile filename);
       (case content of
          Inl err \<Rightarrow> State_Monad.return (Some (WrapErr ''failed to read file'' err))
        | Inr content \<Rightarrow>
            (case strings_Index content target 0 of
               None \<Rightarrow> State_Monad.return (Some (Plain ''unable to find the code to be uncommented''))
             | Some idx \<Rightarrow>
                 if scan_lines target = [] then State_Monad.return None
                 else let out = take idx content @
                          join_lines (map (\<lambda>l. strings_TrimPrefix l prefix) (scan_lines target)) @
                          drop (idx + length target) content
                      in do {
                        err \<leftarrow> call (\<lambda>h. m_WriteFile M h filename out) (EvWriteFile filename out);
                        State_Monad.return
                          (case err of Some err \<Rightarrow> Some (WrapErr ''failed to write file'' err) | None \<Rightarrow> None)
                      }))
     }"

section \<open>Properties\<close>

lemma take_while_line:
  "newline \<notin> set l \<Longrightarrow> takeWhile (\<lambda>c. c \<noteq> newline) (l @ newline # s) = l"
  "newline \<notin> set l \<Longrightarrow> takeWhile (\<lambda>c. c \<noteq> newline) l = l"
  by (induction l) auto

lemma scan_nothing: "scan_lines [] = []"
  by (subst scan_lines.simps) simp

lemma scan_line:
  "newline \<notin> set l \<Longrightarrow> length l \<le> 65535 \<Longrightarrow> scan_lines (l @ newline # s) = drop_CR l # scan_lines s"
  by (subst scan_lines.simps) (simp add: take_while_line)

lemma scan_last_line:
  "newline \<notin> set l \<Longrightarrow> length l \<le> 65535 \<Longrightarrow> l \<noteq> [] \<Longrightarrow> scan_lines l = [drop_CR l]"
  by (subst scan_lines.simps) (simp add: take_while_line scan_nothing)

text \<open>Scanning joined lines gives them back, also with a newline at the end.\<close>

lemma scan_join_lines:
  "ls \<noteq> [] \<Longrightarrow> \<forall>l \<in> set ls. newline \<notin> set l \<and> length l \<le> 65535 \<Longrightarrow> last ls \<noteq> [] \<Longrightarrow>
   scan_lines (join_lines ls) = map drop_CR ls \<and> scan_lines (join_lines ls @ [newline]) = map drop_CR ls"
proof (induction ls rule: join_lines.induct)
  case (2 l)
  then show ?case using scan_line [of l "[]"] by (simp add: scan_last_line scan_nothing)
next
  case (3 l m ls)
  then show ?case using scan_line [of l "join_lines (m # ls) @ [newline]"] by (simp add: scan_line)
qed simp

lemma trim_prefix [simp]: "strings_TrimPrefix (prefix @ l) prefix = l"
  by (simp add: strings_TrimPrefix_def)

lemma drop_CR_keeps [simp]: "l = [] \<or> last l \<noteq> CHR 0x0D \<Longrightarrow> drop_CR l = l"
  by (auto simp: drop_CR_def)

text \<open>
  Uncommenting takes back commenting out: where the target is lines of code with the prefix before
  each, the file is written with these lines in place of the target and nothing else changed. A newline
  that ends the target is lost, so that the last of the lines runs into what follows the target.
\<close>

theorem UncommentCode_uncomments:
  fixes M :: machine and ls :: "string list" and prefix :: string
  defines "commented \<equiv> map (\<lambda>l. prefix @ l) ls"
  assumes "ls \<noteq> []" and "last commented \<noteq> []"
    and "\<forall>l \<in> set commented. newline \<notin> set l \<and> length l \<le> 65535 \<and> (l = [] \<or> last l \<noteq> CHR 0x0D)"
    and "target = join_lines commented \<or> target = join_lines commented @ [newline]"
    and "m_ReadFile M h filename = Inr (before @ target @ after)"
    and "strings_Index (before @ target @ after) target 0 = Some (length before)"
  shows "calls_of (UncommentCode M filename target prefix) h =
    (let h' = h @ [EvReadFile filename (Inr (before @ target @ after))];
         out = before @ join_lines ls @ after
     in [EvReadFile filename (Inr (before @ target @ after)),
         EvWriteFile filename out (m_WriteFile M h' filename out)])"
proof -
  have "scan_lines target = map drop_CR commented"
    using scan_join_lines [of commented] assms(2-5) by (auto simp: commented_def)
  also have "\<dots> = commented" using assms(4) by (intro map_idI) simp
  finally have s: "scan_lines target = commented" .
  have t: "map (\<lambda>l. strings_TrimPrefix l prefix) commented = ls" by (simp add: commented_def comp_def)
  have "commented \<noteq> []" using assms(2) by (simp add: commented_def)
  with s t assms(6,7) show ?thesis
    by (simp add: UncommentCode_def calls_of_def Let_def)
qed

text \<open>A machine with one file, on which everything else fails.\<close>

definition sample_machine :: "string \<Rightarrow> machine" where
  "sample_machine content =
     \<lparr>m_Getwd = (\<lambda>h. (''nowhere'', Some (Plain ''getwd''))), m_Chdir = (\<lambda>h dir. Some (Plain ''chdir'')),
      m_CombinedOutput = (\<lambda>h cmd. (''nothing'', Some (Plain ''exit status 1''))), m_LookupEnv = (\<lambda>h v. None),
      m_ReadFile = (\<lambda>h f. Inr content), m_WriteFile = (\<lambda>h f s. None)\<rparr>"

lemma UncommentCode_uncomments_witness:
  "\<exists>content target. content = ''x'' @ [newline] @ target @ ''y'' \<and>
     target = ''# a'' @ [newline] @ ''# b'' @ [newline] \<and>
     last (calls_of (UncommentCode (sample_machine content) ''f'' target ''# '') []) =
       EvWriteFile ''f'' (''x'' @ [newline] @ ''a'' @ [newline] @ ''by'') None"
proof -
  let ?b = "''x'' @ [newline]" and ?t = "''# a'' @ [newline] @ ''# b'' @ [newline]"
  let ?M = "sample_machine (?b @ ?t @ ''y'')"
  have "calls_of (UncommentCode ?M ''f'' ?t ''# '') [] =
      (let h' = [] @ [EvReadFile ''f'' (Inr (?b @ ?t @ ''y''))]; out = ?b @ join_lines [''a'', ''b''] @ ''y''
       in [EvReadFile ''f'' (Inr (?b @ ?t @ ''y'')), EvWriteFile ''f'' out (m_WriteFile ?M h' ''f'' out)])"
    by (rule UncommentCode_uncomments) (simp_all add: sample_machine_def)
  then have "last (calls_of (UncommentCode ?M ''f'' ?t ''# '') []) =
      EvWriteFile ''f'' (''x'' @ [newline] @ ''a'' @ [newline] @ ''by'') None"
    by (simp add: Let_def sample_machine_def)
  then show ?thesis by auto
qed

end
