(* ===== verification/Spec2Isabelle.thy ===== *)
theory Spec2Isabelle
  imports Command_Line Deep_Copy Progress System Test_Utils
begin

text \<open>
  A verification development for cloud-burst-controller, a Kubernetes controller that launches EC2
  instances for unschedulable pods and removes them when they are idle.

  \<^bold>\<open>The program.\<close> The custom resource \<open>BurstNodePool\<close> (\<open>api/v1alpha1\<close>) configures a pool of burst
  nodes and keeps, in its status, one entry per node and two counters. Four handlers work on it, each
  called again and again by controller-runtime, and share no memory, only the API server and EC2:
  \<^item> \<open>ProvisionerReconciler\<close> (\<open>internal/controller/provisioner_reconciler.go\<close>) matches an
    unschedulable pod to a pool (\<open>matching.go\<close>), selects instance types (\<open>instance_selector.go\<close>),
    sizes the batch (\<open>batch.go\<close>), patches the Talos configuration (\<open>internal/talos\<close>) and launches.
  \<^item> \<open>NodeReadyReconciler\<close> (same file) turns pending entries into running ones or gives them up.
  \<^item> \<open>ReaperReconciler\<close> (\<open>reaper_reconciler.go\<close>) tears idle nodes down, draining them first
    (\<open>internal/drain\<close>).
  \<^item> \<open>OrphanReconciler\<close> (\<open>orphan_reconciler.go\<close>) compares instances with nodes periodically.
  All of them reach EC2 through the interface \<open>cloud.Provider\<close>, implemented in \<open>internal/cloud/aws\<close>.

  \<^bold>\<open>The theories.\<close>
  \<^item> \<open>Prelude\<close>: fixed-width integers with their wrap-around, times, Go maps, removal from a slice.
    \<open>Trace_Calculus\<close>: programs over a trace of calls, the judgement \<open>emits\<close> and its rules.
    \<open>Go_Errors\<close>, \<open>Kube_Objects\<close>, \<open>Encodings\<close> (hex, base 64), \<open>Slice_Sort\<close> (\<open>sort.Slice\<close>, the locale
    \<open>slice_sort\<close>): what the code uses of its libraries.
  \<^item> \<open>Pool_API\<close>: the custom resource. \<open>Matching\<close>, \<open>Batch\<close>, \<open>Instance_Selector\<close>, \<open>Talos_Config\<close>:
    the pure functions of the files of those names.
  \<^item> \<open>World\<close>: every call the program makes to the outside, one event per call with its answer.
    A record \<open>world\<close> gives each answer as a function of the whole trace, so a statement for all
    worlds covers every answer, failure, delay and change made by others between two calls.
    \<open>Provider\<close>: the interface \<open>cloud.Provider\<close> as a record and its contract as the locale
    \<open>cloud_provider\<close>; \<open>EC2_Provider\<close>: the implementation, which interprets the locale.
  \<^item> \<open>Provisioner\<close> (with its properties in \<open>Provisioner_Runs\<close>), \<open>Node_Ready\<close>, \<open>Node_Drain\<close>, \<open>Reaper\<close>, \<open>Orphan\<close>: the handlers, statement by
    statement, their lemmas proved in \<open>cloud_provider\<close> and their properties stated for EC2.
  \<^item> \<open>Lifecycle\<close>: the abstract specification of a pool status: the step relation \<open>life\<close> with its
    invariant, and \<open>disciplined\<close>, which says that every status a run writes follows by lifecycle steps
    from a version the run knew, with no instances but those it tracked and those launched since.
    \<open>Cluster\<close>: all versions that come to be stored when the four handlers run against an API server that
    accepts any write. \<open>System\<close>: the runs interleaved call by call against an API server with resource
    versions, users, and an EC2 with unique IDs, as the transition relation \<open>moves\<close>; the log of the
    server is \<open>lawful\<close>, which carries the safety of instances.
    \<open>Progress\<close>: bounds on the runs, teardowns that complete, the status of a pool restored when a node
    has gone through its life; the locale \<open>direct_provider\<close> extends the contract by one call per operation.
  \<^item> \<open>Manager\<close>: the flags of \<open>cmd/main.go\<close> and the handlers as it builds them. \<open>Metrics\<close>: the
    collectors of \<open>internal/metrics\<close>. \<open>Startup\<close>: the initialisers and \<open>main\<close> with the
    \<open>SetupWithManager\<close> functions, as calls to the libraries that each may fail, and the event filters.
    \<open>Command_Line\<close>: \<open>flag.Parse\<close> over the flags of \<open>main\<close>, down to booleans and durations, and the
    process from its arguments to its end. \<open>Test_Utils\<close>: the helpers of \<open>test/utils\<close>.
  \<^item> \<open>Go_Heap\<close>: memory as blocks at addresses, slices, maps, pointers, and the locale \<open>deep_copier\<close>,
    the contract of a copy function, with its extensions per kind of type. \<open>Deep_Copy\<close>: every
    function of \<open>zz_generated.deepcopy.go\<close> on that memory, each shown to keep the contract. The rest
    of the model has values in place of objects; this is why a handler may change what a list returned.
  \<^item> \<open>Sample_Objects\<close>, \<open>Sample_World\<close>: concrete objects and a concrete world for the witnesses.

  \<^bold>\<open>How code and model correspond.\<close> A struct is a record with the fields the code has, an enumerated
  string type a datatype, \<open>int32\<close> and \<open>int64\<close> are \<open>int\<close> with \<open>int32\<close> and \<open>int64\<close> written around each
  operation that may wrap. \<open>(T, error)\<close> is \<open>go_error + T\<close>. A handler is a function from the trace so
  far to a result and a longer trace; long bodies are cut at their section comments into definitions
  that call each other (\<open>provisioner_match\<close>, \<open>_size\<close>, \<open>_launch\<close>; \<open>reap_running\<close>, \<open>reap_idle\<close>,
  \<open>teardown\<close>, \<open>teardown_drain\<close>, \<open>teardown_terminate\<close>). Loops are structural recursions. A pointer
  into \<open>pool.Status.Nodes\<close> is an index into the list; it stays valid across a status update because
  the answer is decoded into the same object. That answer is the object as sent with a new resource
  version. A nil dereference is the value \<open>NilDeref\<close>, passed up at once; controller-runtime turns it
  into an error of the reconcile, and it ends the orphan runnable. It can arise where the code reads a
  pointer unchecked (\<open>instance.State\<close>, the \<open>aws\<close> section of a pool); a pointer or map that the code
  checks first is a case distinction of the model (\<open>required_selector\<close>, \<open>gm_put\<close>).

  \<^bold>\<open>What the lemmas show.\<close> Matching finds the best pool and decides its declarative reading. The
  selected instance types are exactly the fitting ones, smallest first, each able to host every pod,
  and the estimated number of pods fits on a node. The number of nodes is sufficient, minimal and
  within the limit, the estimate of pods per node the greatest one. The provisioner acts only when due, launches within the room of the pool, accounts
  for every launch in one status, and marks the pod last. The node-ready handler touches pending
  entries only, and what it does with them is given call by call; the reaper tears down only managed, idle, cooled-down nodes and in order; the orphan
  check is exact. All handlers refine the lifecycle, so in every stored version of every pool the
  counters bound the entries and \<open>maxNodes\<close> bounds the counters. With optimistic concurrency the whole
  history of a pool is one run of the lifecycle: no update is lost, an instance is listed once, by one
  pool, only if it was launched, in states that only advance, and never again once it is forgotten; an
  instance whose update was refused is left to the orphan check. Every run ends within a bound, and a
  node that has been launched and removed leaves the status of its pool as it was. The manager starts
  only after a complete set-up, and the event filters lose no wake-up. Every configuration can be given on the command
  line, and a bad command line starts nothing. A deep copy has the value of its original and
  shares no memory with it. Some properties state behaviour
  the code can hardly mean: see the findings in the manifest of the development.

  \<^bold>\<open>Bounds.\<close> The floating-point product for the fraction of a duration on the command line is a
  parameter; a scanned line of more than 65535 bytes ends the scan, as in Go. \<open>math.Ceil\<close> of a quotient of two \<open>float64\<close> is exact ceiling division, right below
  \<open>2 ^ 53\<close> pods. \<open>sort.Slice\<close> is Go's insertion sort up to its limit of 12 elements; above, Go runs an
  unstable quicksort, a parameter with the contract \<open>slice_sort\<close>. A \<open>resource.Quantity\<close> is the record
  of the three numbers the code asks it for. The time between two calls is unbounded. The versions of
  \<open>Cluster\<close> and \<open>System\<close> include edits of a specification except lowering \<open>maxNodes\<close>, after which no bound can hold.

  \<^bold>\<open>Not modelled.\<close> Logging, and the flags of other packages; the texts of
  error messages beyond their fixed prefix; values of the collectors, which no code updates; the objects
  that libraries build at the start (manager, servers, clients), of which only the options and the
  failures are modelled; the end-to-end tests, scripts of kubectl calls without logic of their own. The YAML library, kubectl's drain, the API server and EC2 are
  parameters of the world, the copy functions of \<open>metav1\<close> and the bucket function of Prometheus
  parameters with their documented contracts.
\<close>

end
